(* ===== verification/Exceptions.thy ===== *)
theory Exceptions
  imports Main
begin

text \<open>
  The exceptions of the driver and of what it calls, one constructor per class a handler
  tells apart. IOError and OSError are one.
\<close>

datatype exn =
    InternalError string
  | StorageError string "string list"
  | Unimplemented string
  | SrNotAttached string
  | CalledProcessError int "string list"
  | QMPError string
  | RuntimeError string
  | GenericError string
  | PyKeyError string
  | PyIndexError
  | PyZeroDivisionError
  | PyValueError
  | PyTypeError
  | PyAttributeError
  | PyImportError
  | PyOSError
  | PyEOFError
  | UnpicklingError
  | NBDProtocolError string
  | StructError
  | ExternalError string
  | SystemExit int
  | Replaced string "string list"

end
