(* ===== verification/Prelude.thy ===== *)
theory Prelude
  imports Main "HOL-Library.Sublist"
begin

text \<open>
  What every component shares: the dynamically typed values that cross the driver's
  interfaces (JSON objects, pickled dictionaries, SR metadata), Python dictionaries with
  insertion order, and the collections of proof hints the component theories extend.
\<close>

named_theorems pystr_simps "evaluation of the string primitives"
named_theorems spec_intros "introduction rules for trace triples, one per program construct"
named_theorems spec_prims "trace triples of the external calls"

section \<open>Python values\<close>

datatype pyval =
    PNone
  | PBool bool
  | PInt int
  | PStr string
  | PList "pyval list"
  | PDict "(string \<times> pyval) list"

type_synonym pydict = "(string \<times> pyval) list"

text \<open>Truth of a value, as an \<^verbatim>\<open>if\<close> of the source tests it.\<close>

fun py_truth :: "pyval \<Rightarrow> bool" where
  "py_truth PNone = False"
| "py_truth (PBool b) = b"
| "py_truth (PInt i) = (i \<noteq> 0)"
| "py_truth (PStr s) = (s \<noteq> [])"
| "py_truth (PList xs) = (xs \<noteq> [])"
| "py_truth (PDict d) = (d \<noteq> [])"

section \<open>Dictionaries with insertion order\<close>

text \<open>
  \<^verbatim>\<open>d[k] = v\<close> keeps the position of a key that is present and appends a new one.
\<close>

fun dset :: "'k \<Rightarrow> 'v \<Rightarrow> ('k \<times> 'v) list \<Rightarrow> ('k \<times> 'v) list" where
  "dset k v [] = [(k, v)]"
| "dset k v ((k', v') # d) = (if k' = k then (k, v) # d else (k', v') # dset k v d)"

definition dget :: "('k \<times> 'v) list \<Rightarrow> 'k \<Rightarrow> 'v option" where
  "dget d k = map_of d k"

definition dget_or :: "('k \<times> 'v) list \<Rightarrow> 'k \<Rightarrow> 'v \<Rightarrow> 'v" where
  "dget_or d k v = (case map_of d k of None \<Rightarrow> v | Some w \<Rightarrow> w)"

definition ddel :: "'k \<Rightarrow> ('k \<times> 'v) list \<Rightarrow> ('k \<times> 'v) list" where
  "ddel k d = filter (\<lambda>(k', _). k' \<noteq> k) d"

text \<open>\<^verbatim>\<open>d.update(e)\<close>.\<close>

definition dupdate :: "('k \<times> 'v) list \<Rightarrow> ('k \<times> 'v) list \<Rightarrow> ('k \<times> 'v) list" where
  "dupdate d e = foldl (\<lambda>acc (k, v). dset k v acc) d e"

lemma map_of_dset [simp]: "map_of (dset k v d) = (map_of d)(k \<mapsto> v)"
  by (induction k v d rule: dset.induct) (auto simp: fun_eq_iff)

lemma dget_dset [simp]: "dget (dset k v d) k' = (if k' = k then Some v else dget d k')"
  by (simp add: dget_def)

lemma set_dset_keys: "fst ` set (dset k v d) = insert k (fst ` set d)"
  by (induction k v d rule: dset.induct) auto

lemma distinct_dset: "distinct (map fst d) \<Longrightarrow> distinct (map fst (dset k v d))"
proof (induction k v d rule: dset.induct)
  case (2 k v k' v' d)
  then show ?case using set_dset_keys [of k v d] by (auto simp: image_iff)
qed simp

lemma dget_ddel [simp]: "dget (ddel k d) k' = (if k' = k then None else dget d k')"
  by (induction d) (auto simp: ddel_def dget_def)

lemma dupdate_Nil [simp]: "dupdate d [] = d"
  by (simp add: dupdate_def)

lemma dupdate_Cons [simp]: "dupdate d ((k, v) # e) = dupdate (dset k v d) e"
  by (simp add: dupdate_def)

text \<open>The later dictionary wins where both have the key (with distinct keys in it).\<close>

lemma dget_dupdate:
  "distinct (map fst e) \<Longrightarrow>
   dget (dupdate d e) k = (case dget e k of None \<Rightarrow> dget d k | Some v \<Rightarrow> Some v)"
proof (induction e arbitrary: d)
  case Nil
  then show ?case by (simp add: dget_def)
next
  case (Cons kv e)
  obtain k' v' where kv: "kv = (k', v')" by force
  from Cons.prems kv have "k' \<notin> fst ` set e" "distinct (map fst e)" by auto
  then have "dget e k' = None" by (simp add: dget_def map_of_eq_None_iff)
  with Cons.IH [OF \<open>distinct (map fst e)\<close>, of "dset k' v' d"] kv show ?case
    by (auto simp: dget_def split: option.splits)
qed

section \<open>List helpers\<close>

text \<open>\<^verbatim>\<open>max(xs) if xs else d\<close>.\<close>

definition max_or :: "int \<Rightarrow> int list \<Rightarrow> int" where
  "max_or d xs = (if xs = [] then d else Max (set xs))"

lemma max_or_ge: "x \<in> set xs \<Longrightarrow> x \<le> max_or d xs"
  by (auto simp: max_or_def)

lemma max_or_mem: "xs \<noteq> [] \<Longrightarrow> max_or d xs \<in> set xs"
  by (simp add: max_or_def)

lemma max_or_Nil [simp]: "max_or d [] = d"
  by (simp add: max_or_def)

text \<open>\<^verbatim>\<open>xs[i]\<close>: the position an index names, negative ones from the end; \<open>None\<close> is IndexError.\<close>

definition py_index :: "nat \<Rightarrow> int \<Rightarrow> nat option" where
  "py_index n i =
     (if 0 \<le> i \<and> i < int n then Some (nat i)
      else if - int n \<le> i \<and> i < 0 then Some (nat (int n + i))
      else None)"

lemma py_index_pos: "0 \<le> i \<Longrightarrow> i < int n \<Longrightarrow> py_index n i = Some (nat i)"
  by (simp add: py_index_def)

text \<open>\<^verbatim>\<open>for\<close>/\<^verbatim>\<open>else\<close>: the first element that satisfies a test, if any, is \<open>List.find\<close>.\<close>

lemma find_SomeD: "List.find P xs = Some x \<Longrightarrow> x \<in> set xs \<and> P x"
  by (auto simp: find_Some_iff in_set_conv_nth)

lemma find_NoneD: "List.find P xs = None \<Longrightarrow> x \<in> set xs \<Longrightarrow> \<not> P x"
  by (auto simp: find_None_iff)

end
