(* ===== verification/PyStr.thy ===== *)
theory PyStr
  imports Prelude
begin

text \<open>
  The methods of Python's \<^verbatim>\<open>str\<close> the driver uses, on byte strings. The installer runs the
  volume and datapath plugins under Python 2 (\<^verbatim>\<open>installer.sh\<close>, step 5), where \<^verbatim>\<open>str\<close> is a
  byte string, so subprocess output, names and literals are all one type and decoding ASCII
  output is the identity. Only ASCII case mapping and ASCII white space are modelled.
\<close>

section \<open>Characters\<close>

definition char_code :: "char \<Rightarrow> nat" where
  "char_code c = of_char c"

definition is_digit :: "char \<Rightarrow> bool" where
  "is_digit c \<longleftrightarrow> 48 \<le> char_code c \<and> char_code c \<le> 57"

definition is_space :: "char \<Rightarrow> bool" where
  "is_space c \<longleftrightarrow> char_code c = 32 \<or> (9 \<le> char_code c \<and> char_code c \<le> 13)"

definition lower_char :: "char \<Rightarrow> char" where
  "lower_char c = (if 65 \<le> char_code c \<and> char_code c \<le> 90
                   then char_of (char_code c + 32) else c)"

definition upper_char :: "char \<Rightarrow> char" where
  "upper_char c = (if 97 \<le> char_code c \<and> char_code c \<le> 122
                   then char_of (char_code c - 32) else c)"

definition py_lower :: "string \<Rightarrow> string" where
  "py_lower s = map lower_char s"

definition py_upper :: "string \<Rightarrow> string" where
  "py_upper s = map upper_char s"

section \<open>Stripping\<close>

definition lstrip_if :: "(char \<Rightarrow> bool) \<Rightarrow> string \<Rightarrow> string" where
  "lstrip_if P s = dropWhile P s"

definition rstrip_if :: "(char \<Rightarrow> bool) \<Rightarrow> string \<Rightarrow> string" where
  "rstrip_if P s = rev (dropWhile P (rev s))"

definition py_strip :: "string \<Rightarrow> string" where
  "py_strip s = rstrip_if is_space (lstrip_if is_space s)"

definition strip_char :: "char \<Rightarrow> string \<Rightarrow> string" where
  "strip_char c s = rstrip_if (\<lambda>x. x = c) (lstrip_if (\<lambda>x. x = c) s)"

lemma rstrip_if_id: "s \<noteq> [] \<Longrightarrow> \<not> P (last s) \<Longrightarrow> rstrip_if P s = s"
  by (cases s rule: rev_cases) (auto simp: rstrip_if_def)

lemma py_strip_id:
  assumes "s \<noteq> [] \<Longrightarrow> \<not> is_space (hd s)" and "s \<noteq> [] \<Longrightarrow> \<not> is_space (last s)"
  shows "py_strip s = s"
proof (cases s)
  case Nil
  then show ?thesis by (simp add: py_strip_def lstrip_if_def rstrip_if_def)
next
  case (Cons c t)
  with assms(1) have "lstrip_if is_space s = s" by (simp add: lstrip_if_def)
  with Cons assms(2) show ?thesis by (simp add: py_strip_def rstrip_if_id)
qed

section \<open>Searching and splitting\<close>

definition startswith :: "string \<Rightarrow> string \<Rightarrow> bool" where
  "startswith s p \<longleftrightarrow> take (length p) s = p"

definition endswith :: "string \<Rightarrow> string \<Rightarrow> bool" where
  "endswith s p \<longleftrightarrow> startswith (rev s) (rev p)"

lemma startswith_append [simp]: "startswith (p @ s) p"
  by (simp add: startswith_def)

lemma startswith_iff: "startswith s p \<longleftrightarrow> (\<exists>t. s = p @ t)"
  by (metis append_eq_conv_conj append_take_drop_id startswith_def)

lemma startswith_prefix: "startswith s p = prefix p s"
  by (auto simp: startswith_iff prefix_def)

text \<open>\<^verbatim>\<open>pat in s\<close>.\<close>

fun contains :: "string \<Rightarrow> string \<Rightarrow> bool" where
  "contains pat [] = (pat = [])"
| "contains pat (c # s) = (startswith (c # s) pat \<or> contains pat s)"

lemma contains_iff: "contains pat s \<longleftrightarrow> (\<exists>a b. s = a @ pat @ b)"
proof (induction s)
  case Nil
  then show ?case by auto
next
  case (Cons c s)
  have "(\<exists>a b. c # s = a @ pat @ b) \<longleftrightarrow>
        (\<exists>b. c # s = pat @ b) \<or> (\<exists>a b. s = a @ pat @ b)"
    by (metis append_Cons append_Nil list.inject neq_Nil_conv)
  with Cons show ?case by (simp add: startswith_iff)
qed

lemma contains_sublist: "contains pat s = sublist pat s"
  by (auto simp: contains_iff sublist_def)

text \<open>\<^verbatim>\<open>s.split(c)\<close> for a one-character separator.\<close>

fun split_on :: "char \<Rightarrow> string \<Rightarrow> string list" where
  "split_on c [] = [[]]"
| "split_on c (x # xs) =
     (if x = c then [] # split_on c xs
      else (case split_on c xs of [] \<Rightarrow> [[x]] | w # ws \<Rightarrow> (x # w) # ws))"

text \<open>\<^verbatim>\<open>c.join(ws)\<close>.\<close>

fun join_with :: "string \<Rightarrow> string list \<Rightarrow> string" where
  "join_with sep [] = []"
| "join_with sep [w] = w"
| "join_with sep (w # ws) = w @ sep @ join_with sep ws"

lemma split_on_nonempty [simp]: "split_on c s \<noteq> []"
  by (induction s) (auto split: list.splits)

lemma split_on_no_sep: "w \<in> set (split_on c s) \<Longrightarrow> c \<notin> set w"
  by (induction s arbitrary: w) (auto split: if_splits list.splits)

lemma split_on_fresh: "c \<notin> set w \<Longrightarrow> split_on c w = [w]"
  by (induction w) auto

lemma split_on_append: "c \<notin> set w \<Longrightarrow> split_on c (w @ c # s) = w # split_on c s"
  by (induction w) auto

lemma join_split [simp]: "join_with [c] (split_on c s) = s"
proof (induction s)
  case (Cons x xs)
  then show ?case
    by (cases "split_on c xs"; cases "tl (split_on c xs)") auto
qed simp

lemma split_join:
  "ws \<noteq> [] \<Longrightarrow> \<forall>w \<in> set ws. c \<notin> set w \<Longrightarrow> split_on c (join_with [c] ws) = ws"
proof (induction "[c]" ws rule: join_with.induct)
  case (3 w v vs)
  then show ?case by (simp add: split_on_append)
qed (simp_all add: split_on_fresh)

text \<open>\<^verbatim>\<open>s.split(c, 1)\<close>: at most one split, at the first separator.\<close>

definition split1 :: "char \<Rightarrow> string \<Rightarrow> string list" where
  "split1 c s = (case dropWhile (\<lambda>x. x \<noteq> c) s of
                   [] \<Rightarrow> [s]
                 | _ # rest \<Rightarrow> [takeWhile (\<lambda>x. x \<noteq> c) s, rest])"

text \<open>\<^verbatim>\<open>s.rsplit(c, 1)\<close>: at most one split, at the last separator.\<close>

definition rsplit1 :: "char \<Rightarrow> string \<Rightarrow> string list" where
  "rsplit1 c s = rev (map rev (split1 c (rev s)))"

lemma split1_fresh: "c \<notin> set s \<Longrightarrow> split1 c s = [s]"
proof -
  assume "c \<notin> set s"
  then have "dropWhile (\<lambda>x. x \<noteq> c) s = []" unfolding dropWhile_eq_Nil_conv by auto
  then show ?thesis unfolding split1_def by (simp only: list.case)
qed

lemma split1_append: "c \<notin> set a \<Longrightarrow> split1 c (a @ c # b) = [a, b]"
proof -
  assume "c \<notin> set a"
  then have "\<And>x. x \<in> set a \<Longrightarrow> x \<noteq> c" by auto
  then have "dropWhile (\<lambda>x. x \<noteq> c) (a @ c # b) = c # b"
    and "takeWhile (\<lambda>x. x \<noteq> c) (a @ c # b) = a"
    by (simp_all add: dropWhile_append2 takeWhile_append2)
  then show ?thesis by (simp add: split1_def)
qed

lemma split1_contains: "c \<in> set s \<Longrightarrow> \<exists>a b. split1 c s = [a, b] \<and> s = a @ c # b \<and> c \<notin> set a"
  by (metis split1_append split_list_first)

lemma rsplit1_append: "c \<notin> set b \<Longrightarrow> rsplit1 c (a @ c # b) = [a, b]"
  by (simp add: rsplit1_def split1_append)

text \<open>
  \<^verbatim>\<open>s.splitlines()\<close> for the line ends of command output: \<^verbatim>\<open>\n\<close>, \<^verbatim>\<open>\r\<close> and \<^verbatim>\<open>\r\n\<close>; a final
  line end starts no new line.
\<close>

fun lines_acc :: "string \<Rightarrow> string \<Rightarrow> string list" where
  "lines_acc cur [] = (if cur = [] then [] else [rev cur])"
| "lines_acc cur (c # cs) =
     (if char_code c = 10 then rev cur # lines_acc [] cs
      else if char_code c = 13
      then rev cur # lines_acc [] (if cs \<noteq> [] \<and> char_code (hd cs) = 10 then tl cs else cs)
      else lines_acc (c # cur) cs)"

definition splitlines :: "string \<Rightarrow> string list" where
  "splitlines s = lines_acc [] s"

definition newline :: char where
  "newline = char_of (10::nat)"

definition tab :: char where
  "tab = char_of (9::nat)"

lemma lines_acc_no_break:
  "\<forall>c \<in> set w. char_code c \<noteq> 10 \<and> char_code c \<noteq> 13 \<Longrightarrow>
   lines_acc cur (w @ newline # s) = (rev cur @ w) # lines_acc [] s"
  by (induction w arbitrary: cur) (simp_all add: newline_def char_code_def)

text \<open>Printing lines, each with its line end, and splitting them again is the identity.\<close>

lemma splitlines_unlines:
  "\<forall>w \<in> set ws. \<forall>c \<in> set w. char_code c \<noteq> 10 \<and> char_code c \<noteq> 13 \<Longrightarrow>
   splitlines (concat (map (\<lambda>w. w @ [newline]) ws)) = ws"
proof (induction ws)
  case Nil
  then show ?case by (simp add: splitlines_def)
next
  case (Cons w ws)
  then show ?case by (simp add: splitlines_def lines_acc_no_break)
qed

section \<open>Integers as text\<close>

definition digit_char :: "nat \<Rightarrow> char" where
  "digit_char d = char_of (48 + d)"

definition digit_val :: "char \<Rightarrow> nat" where
  "digit_val c = char_code c - 48"

fun str_nat :: "nat \<Rightarrow> string" where
  "str_nat n = (if n < 10 then [digit_char n] else str_nat (n div 10) @ [digit_char (n mod 10)])"

declare str_nat.simps [simp del]

text \<open>\<^verbatim>\<open>str(i)\<close>.\<close>

definition str_int :: "int \<Rightarrow> string" where
  "str_int i = (if i < 0 then CHR ''-'' # str_nat (nat (- i)) else str_nat (nat i))"

fun digits_val :: "nat \<Rightarrow> string \<Rightarrow> nat" where
  "digits_val acc [] = acc"
| "digits_val acc (c # cs) = digits_val (10 * acc + digit_val c) cs"

definition parse_digits :: "string \<Rightarrow> nat option" where
  "parse_digits s = (if s \<noteq> [] \<and> list_all is_digit s then Some (digits_val 0 s) else None)"

text \<open>\<^verbatim>\<open>int(s)\<close>: surrounding white space and one sign are accepted; \<open>None\<close> is ValueError.\<close>

definition py_int :: "string \<Rightarrow> int option" where
  "py_int s =
     (let t = py_strip s in
      if t \<noteq> [] \<and> hd t = CHR ''-'' then map_option (\<lambda>n. - int n) (parse_digits (tl t))
      else if t \<noteq> [] \<and> hd t = CHR ''+'' then map_option int (parse_digits (tl t))
      else map_option int (parse_digits t))"

lemma char_code_digit_char: "d < 10 \<Longrightarrow> char_code (digit_char d) = 48 + d"
  by (simp add: char_code_def digit_char_def)

lemma digit_char_digit: "d < 10 \<Longrightarrow> is_digit (digit_char d) \<and> digit_val (digit_char d) = d"
  by (simp add: is_digit_def digit_val_def char_code_digit_char)

lemma is_digit_not_space: "is_digit c \<Longrightarrow> \<not> is_space c"
  by (auto simp: is_digit_def is_space_def)

lemma is_digit_not_sign: "is_digit c \<Longrightarrow> c \<noteq> CHR ''-'' \<and> c \<noteq> CHR ''+''"
  by (auto simp: is_digit_def char_code_def)

lemma str_nat_digits: "str_nat n \<noteq> [] \<and> list_all is_digit (str_nat n)"
proof (induction n rule: str_nat.induct)
  case (1 n)
  then show ?case by (subst str_nat.simps) (auto simp: str_nat.simps [of n] digit_char_digit)
qed

lemma digits_val_append: "digits_val acc (s @ [c]) = 10 * digits_val acc s + digit_val c"
  by (induction s arbitrary: acc) auto

lemma digits_val_str_nat: "digits_val 0 (str_nat n) = n"
proof (induction n rule: str_nat.induct)
  case (1 n)
  then show ?case
    by (cases "n < 10") (simp_all add: str_nat.simps [of n] digits_val_append digit_char_digit)
qed

lemma parse_digits_str_nat: "parse_digits (str_nat n) = Some n"
  by (simp add: parse_digits_def str_nat_digits digits_val_str_nat)

lemma digits_strip:
  assumes "list_all is_digit s"
  shows "py_strip s = s"
  using assms by (intro py_strip_id) (auto simp: list_all_iff is_digit_not_space)

lemma minus_digits_strip:
  assumes "list_all is_digit s" and "s \<noteq> []"
  shows "py_strip (CHR ''-'' # s) = CHR ''-'' # s"
proof (rule py_strip_id)
  show "\<not> is_space (hd (CHR ''-'' # s))" by (simp add: is_space_def char_code_def)
  have "is_digit (last s)" using assms by (simp add: list_all_iff)
  then show "\<not> is_space (last (CHR ''-'' # s))" using assms(2) by (simp add: is_digit_not_space)
qed

text \<open>Reading a printed integer gives it back.\<close>

lemma py_int_str_int: "py_int (str_int i) = Some i"
proof (cases "i < 0")
  case True
  let ?n = "nat (- i)"
  have "py_strip (CHR ''-'' # str_nat ?n) = CHR ''-'' # str_nat ?n"
    using str_nat_digits [of ?n] by (intro minus_digits_strip) auto
  with True show ?thesis
    by (simp add: str_int_def py_int_def parse_digits_str_nat)
next
  case False
  let ?s = "str_nat (nat i)"
  have s: "?s \<noteq> []" "list_all is_digit ?s" using str_nat_digits by auto
  then have "is_digit (hd ?s)" by (cases ?s) auto
  then have "hd ?s \<noteq> CHR ''-''" "hd ?s \<noteq> CHR ''+''" using is_digit_not_sign by auto
  with False s show ?thesis
    by (simp add: str_int_def py_int_def digits_strip parse_digits_str_nat)
qed

section \<open>Paths\<close>

text \<open>\<^verbatim>\<open>os.path.join\<close>, \<^verbatim>\<open>os.path.basename\<close> and \<^verbatim>\<open>os.path.dirname\<close>.\<close>

definition path_join :: "string \<Rightarrow> string \<Rightarrow> string" where
  "path_join a b =
     (if startswith b ''/'' then b
      else if a = [] \<or> endswith a ''/'' then a @ b
      else a @ ''/'' @ b)"

definition path_basename :: "string \<Rightarrow> string" where
  "path_basename p = last (split_on CHR ''/'' p)"

definition path_dirname :: "string \<Rightarrow> string" where
  "path_dirname p =
     (let head = take (length p - length (path_basename p)) p in
      if list_all (\<lambda>c. c = CHR ''/'') head then head else rstrip_if (\<lambda>c. c = CHR ''/'') head)"

lemma path_join_nonempty: "b \<noteq> [] \<Longrightarrow> path_join a b \<noteq> []"
  by (simp add: path_join_def)

end
