(* ===== verification/QmpClient.thy ===== *)
theory QmpClient
  imports Exceptions PyStr
begin

text \<open>
  \<^verbatim>\<open>class QMPConnection\<close> of \<^verbatim>\<open>src/src/datapath/qemudisk_raw.py\<close>: one connection to the monitor of a
  qemu. What the socket answers to connect, sendall and recv is a list: an exception, or the
  bytes received. The JSON parser is a parameter; it takes the place of decoding too, since
  qemu writes ASCII. What is sent does not appear: the peer's answers are given.
\<close>

section \<open>Talking over a socket\<close>

type_synonym answers = "(exn + string) list"
type_synonym 'a talk = "answers \<Rightarrow> (exn + 'a) \<times> answers"

definition tret :: "'a \<Rightarrow> 'a talk" where
  "tret x = (\<lambda>as. (Inr x, as))"

definition traise :: "exn \<Rightarrow> 'a talk" where
  "traise e = (\<lambda>as. (Inl e, as))"

definition tbind :: "'a talk \<Rightarrow> ('a \<Rightarrow> 'b talk) \<Rightarrow> 'b talk" where
  "tbind m f = (\<lambda>as. case m as of (Inl e, as') \<Rightarrow> (Inl e, as') | (Inr x, as') \<Rightarrow> f x as')"

text \<open>One call on the socket. It times out when the peer has no more to say.\<close>

definition heard :: "string talk" where
  "heard as = (case as of [] \<Rightarrow> (Inl PyOSError, []) | r # rest \<Rightarrow> (r, rest))"

text \<open>\<^verbatim>\<open>"key" in v\<close>\<close>

definition py_in :: "string \<Rightarrow> pyval \<Rightarrow> bool talk" where
  "py_in k v = (case v of
       PDict d \<Rightarrow> tret (k \<in> fst ` set d)
     | PList xs \<Rightarrow> tret (PStr k \<in> set xs)
     | PStr s \<Rightarrow> tret (contains k s)
     | _ \<Rightarrow> traise PyTypeError)"

section \<open>The connection\<close>

text \<open>
  \<^verbatim>\<open>_recv\<close>. The handler of an incomplete text names \<^verbatim>\<open>json.JSONDecodeError\<close>, which Python 2's module
  does not have (\<open>named\<close> tells): there the first text that does not parse raises
  AttributeError instead of reading on.
\<close>

fun qmp_recv :: "bool \<Rightarrow> (string \<Rightarrow> pyval option) \<Rightarrow> string \<Rightarrow> pyval talk" where
  "qmp_recv named loads data [] = (Inl PyOSError, [])"
| "qmp_recv named loads data (Inl e # as) = (Inl e, as)"
| "qmp_recv named loads data (Inr chunk # as) =
     (if chunk = [] then (Inl (QMPError ''Connection closed unexpectedly''), as)
      else case loads (data @ chunk) of
             Some v \<Rightarrow> (Inr v, as)
           | None \<Rightarrow> if named then qmp_recv named loads (data @ chunk) as else (Inl PyAttributeError, as))"

text \<open>The attempts to connect; what they sleep in between does not appear.\<close>

fun connect_attempts :: "nat \<Rightarrow> string \<Rightarrow> unit talk" where
  "connect_attempts 0 path = traise (QMPError (''Failed to connect to QMP socket: '' @ path))"
| "connect_attempts (Suc n) path =
     (\<lambda>as. case heard as of
        (Inl e, as') \<Rightarrow> if e = PyOSError then connect_attempts n path as' else (Inl e, as')
      | (Inr _, as') \<Rightarrow> (Inr (), as'))"

definition qmp_connect :: "bool \<Rightarrow> (string \<Rightarrow> pyval option) \<Rightarrow> string \<Rightarrow> unit talk" where
  "qmp_connect named loads path =
     tbind (connect_attempts 50 path) (\<lambda>_.
     tbind (tbind (qmp_recv named loads []) (py_in ''QMP'')) (\<lambda>greets.
     if \<not> greets then traise (QMPError ''Invalid QMP greeting'')
     else tbind heard (\<lambda>_.
     tbind (tbind (qmp_recv named loads []) (py_in ''return'')) (\<lambda>ok.
     if \<not> ok then traise (QMPError ''qmp_capabilities failed'') else tret ()))))"

text \<open>The answer to a command.\<close>

definition qmp_answer :: "string \<Rightarrow> pyval \<Rightarrow> pyval talk" where
  "qmp_answer cmd resp =
     tbind (py_in ''error'' resp) (\<lambda>err.
       case resp of
         PDict d \<Rightarrow> if err then traise (QMPError (''QMP command failed: '' @ cmd))
                    else tret (dget_or d ''return'' (PDict []))
       | _ \<Rightarrow> if err then traise PyTypeError else traise PyAttributeError)"

definition send_command :: "bool \<Rightarrow> (string \<Rightarrow> pyval option) \<Rightarrow> string \<Rightarrow> pyval talk" where
  "send_command named loads cmd =
     tbind heard (\<lambda>_. tbind (qmp_recv named loads []) (qmp_answer cmd))"

text \<open>\<^verbatim>\<open>connect\<close>, one \<^verbatim>\<open>command\<close> and \<^verbatim>\<open>close\<close>, as every caller makes them.\<close>

definition qmp_session :: "bool \<Rightarrow> (string \<Rightarrow> pyval option) \<Rightarrow> string \<Rightarrow> string \<Rightarrow> pyval talk" where
  "qmp_session named loads path cmd = tbind (qmp_connect named loads path) (\<lambda>_. send_command named loads cmd)"

section \<open>Messages and the pieces they arrive in\<close>

text \<open>The pieces of one message: none is empty, the whole parses and no shorter beginning does.\<close>

definition spoken :: "(string \<Rightarrow> pyval option) \<Rightarrow> string list \<Rightarrow> pyval \<Rightarrow> bool" where
  "spoken loads cs v \<longleftrightarrow> cs \<noteq> [] \<and> [] \<notin> set cs \<and> loads (concat cs) = Some v \<and>
     list_all (\<lambda>n. loads (concat (take n cs)) = None) [1..<length cs]"

text \<open>What the reader can put together: any pieces where the handler exists, else a single one.\<close>

definition readable :: "bool \<Rightarrow> string list \<Rightarrow> bool" where
  "readable named cs \<longleftrightarrow> named \<or> length cs = 1"

lemma qmp_recv_pieces:
  assumes "[] \<notin> set cs" and "cs \<noteq> []" and "loads (data @ concat cs) = Some v"
    and "\<And>n. 0 < n \<Longrightarrow> n < length cs \<Longrightarrow> loads (data @ concat (take n cs)) = None"
    and "readable named cs"
  shows "qmp_recv named loads data (map Inr cs @ rest) = (Inr v, rest)"
  using assms
proof (induction cs arbitrary: data)
  case (Cons c cs)
  show ?case
  proof (cases cs)
    case Nil
    with Cons.prems show ?thesis by simp
  next
    case (Cons c' cs')
    have "loads (data @ c) = None"
      using Cons.prems(4) [of 1] Cons by simp
    moreover have "qmp_recv named loads (data @ c) (map Inr cs @ rest) = (Inr v, rest)"
    proof (rule Cons.IH)
      fix n assume "0 < n" "n < length cs"
      then show "loads ((data @ c) @ concat (take n cs)) = None"
        using Cons.prems(4) [of "Suc n"] by simp
    qed (use Cons.prems Cons in \<open>auto simp: readable_def\<close>)
    moreover have named using Cons.prems(5) Cons by (simp add: readable_def)
    ultimately show ?thesis using Cons.prems(1) by auto
  qed
qed simp

lemma qmp_recv_spoken:
  "spoken loads cs v \<Longrightarrow> readable named cs \<Longrightarrow> qmp_recv named loads [] (map Inr cs @ rest) = (Inr v, rest)"
  by (rule qmp_recv_pieces) (auto simp: spoken_def list_all_iff)

lemma connect_attempts_refused:
  "n < k \<Longrightarrow> connect_attempts k path (replicate n (Inl PyOSError) @ Inr x # rest) = (Inr (), rest)"
  by (induction n arbitrary: k; case_tac k) (simp_all add: heard_def)

lemma py_in_dict [simp]: "py_in k (PDict d) = tret (k \<in> fst ` set d)"
  by (simp add: py_in_def)

lemma qmp_connect_opens:
  assumes "n < 50"
    and greets: "spoken loads gs (PDict g)" "readable named gs" "''QMP'' \<in> fst ` set g"
    and enters: "spoken loads cs (PDict c)" "readable named cs" "''return'' \<in> fst ` set c"
  shows "qmp_connect named loads path
      (replicate n (Inl PyOSError) @ Inr x # map Inr gs @ Inr y # map Inr cs @ rest) = (Inr (), rest)"
proof -
  have "connect_attempts 50 path (replicate n (Inl PyOSError) @ Inr x # map Inr gs @ Inr y # map Inr cs @ rest) =
      (Inr (), map Inr gs @ Inr y # map Inr cs @ rest)"
    using assms(1) by (rule connect_attempts_refused)
  moreover have "qmp_recv named loads [] (map Inr gs @ Inr y # map Inr cs @ rest) = (Inr (PDict g), Inr y # map Inr cs @ rest)"
    using greets(1,2) by (rule qmp_recv_spoken)
  moreover have "qmp_recv named loads [] (map Inr cs @ rest) = (Inr (PDict c), rest)"
    using enters(1,2) by (rule qmp_recv_spoken)
  ultimately show ?thesis
    using greets(3) enters(3) by (simp add: qmp_connect_def tbind_def tret_def heard_def)
qed

text \<open>A parser for the witnesses: three messages, the last in two pieces.\<close>

definition demo_loads :: "string \<Rightarrow> pyval option" where
  "demo_loads t = map_of [(''G'', PDict [(''QMP'', PNone)]), (''C'', PDict [(''return'', PNone)]), (''RS'', PDict [(''return'', PInt 7)])] t"

section \<open>Properties\<close>

text \<open>
  C38. A QMP session with a peer that greets, acknowledges and replies, each message in pieces
  the client can put together, after fewer than fifty refused connections, gives the reply's
  return value or raises its error.
\<close>

theorem qmp_reads_reply:
  assumes "n < 50"
    and "spoken loads gs (PDict g)" and "''QMP'' \<in> fst ` set g"
    and "spoken loads cs (PDict c)" and "''return'' \<in> fst ` set c"
    and "spoken loads rs (PDict r)"
    and "list_all (readable named) [gs, cs, rs]"
  shows "qmp_session named loads path cmd
      (replicate n (Inl PyOSError) @ Inr x # map Inr gs @ Inr y # map Inr cs @ Inr z # map Inr rs @ rest) =
    (if ''error'' \<in> fst ` set r then Inl (QMPError (''QMP command failed: '' @ cmd))
     else Inr (dget_or r ''return'' (PDict [])), rest)"
proof -
  have "qmp_connect named loads path
      (replicate n (Inl PyOSError) @ Inr x # map Inr gs @ Inr y # map Inr cs @ Inr z # map Inr rs @ rest) =
      (Inr (), Inr z # map Inr rs @ rest)"
    using assms by (intro qmp_connect_opens) simp_all
  moreover have "qmp_recv named loads [] (map Inr rs @ rest) = (Inr (PDict r), rest)"
    using assms by (intro qmp_recv_spoken) simp_all
  ultimately show ?thesis
    by (simp add: qmp_session_def send_command_def tbind_def heard_def qmp_answer_def tret_def traise_def)
qed

theorem qmp_long_reply_crashes:
  assumes "n < 50"
    and "spoken loads [gs] (PDict g)" and "''QMP'' \<in> fst ` set g"
    and "spoken loads [cs] (PDict c)" and "''return'' \<in> fst ` set c"
    and "piece \<noteq> []" and "loads piece = None"
  shows "qmp_session False loads path cmd
      (replicate n (Inl PyOSError) @ Inr x # Inr gs # Inr y # Inr cs # Inr z # Inr piece # rest) = (Inl PyAttributeError, rest)"
proof -
  have "qmp_connect False loads path
      (replicate n (Inl PyOSError) @ Inr x # map Inr [gs] @ Inr y # map Inr [cs] @ Inr z # Inr piece # rest) =
      (Inr (), Inr z # Inr piece # rest)"
    using assms by (intro qmp_connect_opens) (simp_all add: readable_def)
  then show ?thesis
    using assms(6,7) by (simp add: qmp_session_def send_command_def tbind_def heard_def)
qed

theorem qmp_reads_reply_witness:
  "qmp_session True demo_loads ''/q'' ''stop'' [Inl PyOSError, Inr [], Inr ''G'', Inr [], Inr ''C'', Inr [], Inr ''R'', Inr ''S''] =
    (Inr (PInt 7), [])"
proof -
  have "qmp_session True demo_loads ''/q'' ''stop''
      (replicate 1 (Inl PyOSError) @ Inr [] # map Inr [''G''] @ Inr [] # map Inr [''C''] @ Inr [] # map Inr [''R'', ''S''] @ []) =
    (if ''error'' \<in> fst ` set [(''return'', PInt 7)] then Inl (QMPError (''QMP command failed: '' @ ''stop''))
     else Inr (dget_or [(''return'', PInt 7)] ''return'' (PDict [])), [])"
    by (rule qmp_reads_reply [where g = "[(''QMP'', PNone)]" and c = "[(''return'', PNone)]"])
      (simp_all add: spoken_def readable_def demo_loads_def upt_rec)
  then show ?thesis by (simp add: dget_or_def)
qed

theorem qmp_long_reply_crashes_witness:
  "qmp_session False demo_loads ''/q'' ''stop'' [Inr [], Inr ''G'', Inr [], Inr ''C'', Inr [], Inr ''R'', Inr ''S''] =
    (Inl PyAttributeError, [Inr ''S''])"
proof -
  have "qmp_session False demo_loads ''/q'' ''stop''
      (replicate 0 (Inl PyOSError) @ Inr [] # Inr ''G'' # Inr [] # Inr ''C'' # Inr [] # Inr ''R'' # [Inr ''S'']) =
    (Inl PyAttributeError, [Inr ''S''])"
    by (rule qmp_long_reply_crashes [where g = "[(''QMP'', PNone)]" and c = "[(''return'', PNone)]"])
      (simp_all add: spoken_def demo_loads_def)
  then show ?thesis by simp
qed

end
