(* ===== verification/Effects.thy ===== *)
theory Effects
  imports Complex_Main "HOL-Library.Word" QmpClient
begin

text \<open>
  The driver's programs: state passing with exceptions over an abstract world. Whatever is
  not under \<^verbatim>\<open>src/\<close> (the zfs and zpool tools, libzfs_core, the libcow metabase and locks,
  qemu behind its QMP socket, the operating system's files) is a field of the record
  \<open>env\<close>, a function of the opaque world \<open>'w\<close> that a model of it would supply; nothing is
  assumed of it here. Every external call is appended with its outcome to the ghost field
  \<open>trace\<close>, so a property can speak of what the driver asked for, in which order, and
  whether it succeeded, for every behaviour of the outside. Log calls are left out.
\<close>

section \<open>Rows of the metabase\<close>

record volume =
  v_id :: int
  v_parent_id :: "int option"
  v_snap :: int
  v_vsize :: "int option"

record vdi =
  vd_uuid :: string
  vd_name :: string
  vd_description :: string
  vd_image_type :: int
  vd_sharable :: bool
  vd_volume :: volume

section \<open>External calls\<close>

datatype dbcall =
    InsertNewVolume int int
  | InsertChildVolume "int option" "int option" bool
  | InsertVdi string string string int bool
  | UpdateVsize int "int option"
  | GetVdi string
  | GetVdiForVolume "int option"
  | GetAllVdis
  | GetAllCustomKeys
  | GetCustomKeys string
  | SetCustomKey string string string
  | DeleteCustomKey string string
  | DeleteVdi string
  | DeleteVolume int

datatype fscall =
    Exists string
  | Access string
  | IsDir string
  | ListDir string
  | MakeDirs string
  | RmDir string
  | Unlink string
  | Rename string string
  | WriteFile string pyval
  | ReadFile string
  | Glob string
  | OpenFor string bool

text \<open>
  \<open>OpenFor\<close> opens for writing or for reading; \<open>Redirected\<close> runs a command on an open file; \<open>Os\<close>
  is a call on descriptors and signals, by its name in Python.
\<close>

datatype call =
    Popen "string list"
  | CheckCall "string list"
  | CheckOutput "string list"
  | PopenInput "string list" pydict
  | Exec string "string list"
  | Stdout string
  | Pipeline "string list" "string list"
  | Redirected "string list" string
  | LzcDestroy string
  | LzcExists string
  | LzcSnapshot string
  | LzcClone string string
  | LzcCreate string int int
  | Sleep rat
  | Uuid4
  | Now
  | GetSrMetadata string
  | UpdateSrMetadata string pydict
  | CtxEnter string string
  | CtxExit string bool
  | LockEnter string string
  | LockExit string bool
  | DbEnter string
  | DbExit string bool
  | Db string dbcall
  | VolumeDestroyCb string string
  | CreateDatabase string
  | Fs fscall
  | Kill int int
  | NbdConnect string
  | Qmp string string pydict
  | FreePort
  | Listen string
  | Fork string string
  | Os string "int list"
  | RecvMsg int
  | ConnectUnix string
  | Relaying int int

text \<open>The outcome of a call: \<open>None\<close> for an exception, else its return code (0 where none).\<close>

type_synonym event = "call \<times> int option"

record lib_state =
  lib_core :: "string list option"
  lib_nvpair :: "string list option"
  lib_init_done :: bool

record 'w st =
  world :: 'w
  libs :: lib_state
  trace :: "event list"

type_synonym ('w, 'a) prog = "'w st \<Rightarrow> (exn + 'a) \<times> 'w st"

text \<open>An external operation: a function of the world that may raise.\<close>

type_synonym ('w, 'a) ext = "'w \<Rightarrow> (exn + 'a) \<times> 'w"

record 'w env =
  e_popen :: "string list \<Rightarrow> ('w, string \<times> string \<times> int) ext"
  e_check_call :: "string list \<Rightarrow> ('w, int) ext"
  e_check_output :: "string list \<Rightarrow> ('w, string) ext"
  e_popen_input :: "string list \<Rightarrow> pydict \<Rightarrow> ('w, string \<times> string \<times> int) ext"
  e_execv :: "string \<Rightarrow> string list \<Rightarrow> ('w, unit) ext"
  e_print :: "string \<Rightarrow> ('w, unit) ext"
  e_json_loads :: "string \<Rightarrow> pyval option"
  e_pipeline :: "string list \<Rightarrow> string list \<Rightarrow> ('w, int \<times> int) ext"
  e_redirected :: "string list \<Rightarrow> string \<Rightarrow> ('w, string \<times> int) ext"
  e_dlopen :: "string \<Rightarrow> string list option"
  e_find_library :: "string \<Rightarrow> string option"
  e_core_init :: int
  e_lzc_exists :: "string \<Rightarrow> ('w, int) ext"
  e_lzc_destroy :: "string \<Rightarrow> ('w, int) ext"
  e_lzc_snapshot :: "string \<Rightarrow> ('w, int) ext"
  e_lzc_clone :: "string \<Rightarrow> string \<Rightarrow> ('w, int) ext"
  e_lzc_create :: "string \<Rightarrow> int \<Rightarrow> int \<Rightarrow> ('w, int) ext"
  e_strerror :: "int \<Rightarrow> string"
  e_sleep :: "rat \<Rightarrow> ('w, unit) ext"
  e_uuid4 :: "('w, string) ext"
  e_now :: "('w, int) ext"
  e_sha256 :: "string \<Rightarrow> string"
  e_get_sr_metadata :: "string \<Rightarrow> ('w, pydict) ext"
  e_update_sr_metadata :: "string \<Rightarrow> pydict \<Rightarrow> ('w, unit) ext"
  e_ctx_enter :: "string \<Rightarrow> string \<Rightarrow> ('w, string) ext"
  e_ctx_exit :: "string \<Rightarrow> bool \<Rightarrow> ('w, unit) ext"
  e_lock_enter :: "string \<Rightarrow> string \<Rightarrow> ('w, unit) ext"
  e_lock_exit :: "string \<Rightarrow> bool \<Rightarrow> ('w, unit) ext"
  e_db_enter :: "string \<Rightarrow> ('w, unit) ext"
  e_db_exit :: "string \<Rightarrow> bool \<Rightarrow> ('w, unit) ext"
  e_insert_new_volume :: "string \<Rightarrow> int \<Rightarrow> int \<Rightarrow> ('w, volume) ext"
  e_insert_child_volume :: "string \<Rightarrow> int option \<Rightarrow> int option \<Rightarrow> bool \<Rightarrow> ('w, volume) ext"
  e_get_vdi :: "string \<Rightarrow> string \<Rightarrow> ('w, vdi option) ext"
  e_get_vdi_for_volume :: "string \<Rightarrow> int option \<Rightarrow> ('w, vdi option) ext"
  e_get_all_vdis :: "string \<Rightarrow> ('w, vdi list) ext"
  e_get_all_custom_keys :: "string \<Rightarrow> ('w, (string \<times> pydict) list) ext"
  e_get_custom_keys :: "string \<Rightarrow> string \<Rightarrow> ('w, pydict) ext"
  e_db_unit :: "string \<Rightarrow> dbcall \<Rightarrow> ('w, unit) ext"
  e_volume_destroy_cb :: "string \<Rightarrow> string \<Rightarrow> ('w, unit) ext"
  e_create_database :: "string \<Rightarrow> ('w, unit) ext"
  e_base_formats :: "int \<Rightarrow> string option"
  e_image_raw :: int
  e_image_vhd :: int
  e_image_qcow2 :: int
  e_has_datapath :: bool
  e_fs_bool :: "fscall \<Rightarrow> ('w, bool) ext"
  e_fs_list :: "fscall \<Rightarrow> ('w, string list) ext"
  e_fs_unit :: "fscall \<Rightarrow> ('w, unit) ext"
  e_fs_read :: "string \<Rightarrow> ('w, pyval) ext"
  e_realpath :: "string \<Rightarrow> string"
  e_has_qemudisk :: bool
  e_nbd_connect :: "string \<Rightarrow> ('w, (8 word) list list \<times> exn option) ext"
  e_kill :: "int \<Rightarrow> int \<Rightarrow> ('w, unit) ext"
  e_qmp :: "string \<Rightarrow> string \<Rightarrow> pydict \<Rightarrow> 'w \<Rightarrow> answers \<times> 'w"
  e_free_port :: "('w, int) ext"
  e_listen :: "string \<Rightarrow> ('w, unit) ext"
  e_fork :: "string \<Rightarrow> string \<Rightarrow> ('w, int) ext"
  e_os :: "string \<Rightarrow> int list \<Rightarrow> ('w, int) ext"
  e_has_recvmsg :: bool
  e_recvmsg :: "int \<Rightarrow> ('w, (int \<times> int \<times> (8 word) list) list) ext"
  e_connect_unix :: "string \<Rightarrow> ('w, int) ext"

section \<open>Control structure\<close>

definition ret :: "'a \<Rightarrow> ('w, 'a) prog" where
  "ret x = (\<lambda>s. (Inr x, s))"

definition raise :: "exn \<Rightarrow> ('w, 'a) prog" where
  "raise e = (\<lambda>s. (Inl e, s))"

definition bind :: "('w, 'a) prog \<Rightarrow> ('a \<Rightarrow> ('w, 'b) prog) \<Rightarrow> ('w, 'b) prog" where
  "bind m f = (\<lambda>s. case m s of (Inl e, s') \<Rightarrow> (Inl e, s') | (Inr x, s') \<Rightarrow> f x s')"

definition andthen :: "('w, 'a) prog \<Rightarrow> ('w, 'b) prog \<Rightarrow> ('w, 'b) prog" where
  "andthen m n = bind m (\<lambda>_. n)"

text \<open>\<^verbatim>\<open>try: m / except: h\<close>; a handler for some classes re-raises the others.\<close>

definition catch :: "('w, 'a) prog \<Rightarrow> (exn \<Rightarrow> ('w, 'a) prog) \<Rightarrow> ('w, 'a) prog" where
  "catch m h = (\<lambda>s. case m s of (Inl e, s') \<Rightarrow> h e s' | (Inr x, s') \<Rightarrow> (Inr x, s'))"

definition is_InternalError :: "exn \<Rightarrow> bool" where
  "is_InternalError e = (case e of InternalError _ \<Rightarrow> True | _ \<Rightarrow> False)"

definition catch_if :: "(exn \<Rightarrow> bool) \<Rightarrow> ('w, 'a) prog \<Rightarrow> (exn \<Rightarrow> ('w, 'a) prog) \<Rightarrow> ('w, 'a) prog" where
  "catch_if P m h = catch m (\<lambda>e. if P e then h e else raise e)"

definition only_if :: "bool \<Rightarrow> ('w, unit) prog \<Rightarrow> ('w, unit) prog" where
  "only_if b m = (if b then m else ret ())"

text \<open>\<^verbatim>\<open>try: m / except Exception as e: pass\<close>, telling which exception was caught.\<close>

definition swallow :: "('w, unit) prog \<Rightarrow> ('w, exn option) prog" where
  "swallow m = catch (andthen m (ret None)) (\<lambda>e. ret (Some e))"

text \<open>
  A bare \<^verbatim>\<open>raise\<close> under Python 2 raises the exception caught last in the function: the one
  being handled, or one that was caught and dropped since.
\<close>

fun last_caught :: "exn \<Rightarrow> exn option list \<Rightarrow> exn" where
  "last_caught e [] = e"
| "last_caught e (None # rest) = last_caught e rest"
| "last_caught e (Some e' # rest) = last_caught e' rest"

fun for_each :: "('a \<Rightarrow> ('w, unit) prog) \<Rightarrow> 'a list \<Rightarrow> ('w, unit) prog" where
  "for_each f [] = ret ()"
| "for_each f (x # xs) = andthen (f x) (for_each f xs)"

fun map_prog :: "('a \<Rightarrow> ('w, 'b) prog) \<Rightarrow> 'a list \<Rightarrow> ('w, 'b list) prog" where
  "map_prog f [] = ret []"
| "map_prog f (x # xs) = bind (f x) (\<lambda>y. bind (map_prog f xs) (\<lambda>ys. ret (y # ys)))"

text \<open>
  \<^verbatim>\<open>with enter as y: body y\<close>: the exit action runs on both paths and is told which; an
  exception of the exit action replaces the body's result.
\<close>

definition with_ctx ::
  "('w, 'c) prog \<Rightarrow> ('c \<Rightarrow> bool \<Rightarrow> ('w, unit) prog) \<Rightarrow> ('c \<Rightarrow> ('w, 'a) prog) \<Rightarrow> ('w, 'a) prog" where
  "with_ctx enter leave body =
     bind enter (\<lambda>c. bind (catch (body c) (\<lambda>e. andthen (leave c False) (raise e)))
       (\<lambda>x. andthen (leave c True) (ret x)))"

lemma bind_assoc: "bind (bind m f) g = bind m (\<lambda>x. bind (f x) g)"
  by (rule ext) (auto simp: bind_def split: prod.splits sum.splits)

lemma ret_bind: "bind (ret x) f = f x"
  by (simp add: bind_def ret_def)

lemma andthen_assoc: "andthen (andthen m n) k = andthen m (andthen n k)"
  by (simp add: andthen_def bind_assoc)

text \<open>A missing dictionary key or attribute raises.\<close>

definition of_option :: "exn \<Rightarrow> 'a option \<Rightarrow> ('w, 'a) prog" where
  "of_option e x = (case x of None \<Rightarrow> raise e | Some y \<Rightarrow> ret y)"

definition as_str :: "pyval \<Rightarrow> ('w, string) prog" where
  "as_str v = (case v of PStr s \<Rightarrow> ret s | _ \<Rightarrow> raise PyTypeError)"

definition as_dict :: "pyval \<Rightarrow> ('w, pydict) prog" where
  "as_dict v = (case v of PDict d \<Rightarrow> ret d | _ \<Rightarrow> raise PyAttributeError)"

definition parse_int :: "string \<Rightarrow> ('w, int) prog" where
  "parse_int s = of_option PyValueError (py_int s)"

section \<open>Performing an external call\<close>

definition perform :: "call \<Rightarrow> ('a \<Rightarrow> int) \<Rightarrow> ('w, 'a) ext \<Rightarrow> ('w, 'a) prog" where
  "perform c code f = (\<lambda>s. case f (world s) of (r, w) \<Rightarrow>
     (r, s\<lparr>world := w,
           trace := trace s @ [(c, case r of Inl _ \<Rightarrow> None | Inr x \<Rightarrow> Some (code x))]\<rparr>))"

abbreviation call0 :: "call \<Rightarrow> ('w, 'a) ext \<Rightarrow> ('w, 'a) prog" where
  "call0 c \<equiv> perform c (\<lambda>_. 0)"

definition popen :: "'w env \<Rightarrow> string list \<Rightarrow> ('w, string \<times> string \<times> int) prog" where
  "popen E cmd = perform (Popen cmd) (\<lambda>(_, _, rc). rc) (e_popen E cmd)"

definition check_call_rc :: "'w env \<Rightarrow> string list \<Rightarrow> ('w, int) prog" where
  "check_call_rc E cmd = perform (CheckCall cmd) id (e_check_call E cmd)"

definition redirected :: "'w env \<Rightarrow> string list \<Rightarrow> string \<Rightarrow> ('w, string \<times> int) prog" where
  "redirected E cmd file = perform (Redirected cmd file) snd (e_redirected E cmd file)"

definition db_unit :: "'w env \<Rightarrow> string \<Rightarrow> dbcall \<Rightarrow> ('w, unit) prog" where
  "db_unit E opq c = call0 (Db opq c) (e_db_unit E opq c)"

definition get_vdi_by_id :: "'w env \<Rightarrow> string \<Rightarrow> string \<Rightarrow> ('w, vdi option) prog" where
  "get_vdi_by_id E opq key = call0 (Db opq (GetVdi key)) (e_get_vdi E opq key)"

definition insert_new_volume :: "'w env \<Rightarrow> string \<Rightarrow> int \<Rightarrow> int \<Rightarrow> ('w, volume) prog" where
  "insert_new_volume E opq sz ty =
     call0 (Db opq (InsertNewVolume sz ty)) (e_insert_new_volume E opq sz ty)"

definition insert_child_volume ::
  "'w env \<Rightarrow> string \<Rightarrow> int option \<Rightarrow> int option \<Rightarrow> bool \<Rightarrow> ('w, volume) prog" where
  "insert_child_volume E opq parent vs snap =
     call0 (Db opq (InsertChildVolume parent vs snap)) (e_insert_child_volume E opq parent vs snap)"

definition get_vdi_for_volume :: "'w env \<Rightarrow> string \<Rightarrow> int option \<Rightarrow> ('w, vdi option) prog" where
  "get_vdi_for_volume E opq vol = call0 (Db opq (GetVdiForVolume vol)) (e_get_vdi_for_volume E opq vol)"

definition get_vdi_custom_keys :: "'w env \<Rightarrow> string \<Rightarrow> string \<Rightarrow> ('w, pydict) prog" where
  "get_vdi_custom_keys E opq uuid = call0 (Db opq (GetCustomKeys uuid)) (e_get_custom_keys E opq uuid)"

definition volume_destroy_cb :: "'w env \<Rightarrow> string \<Rightarrow> string \<Rightarrow> ('w, unit) prog" where
  "volume_destroy_cb E opq vol = call0 (VolumeDestroyCb opq vol) (e_volume_destroy_cb E opq vol)"

definition get_sr_metadata :: "'w env \<Rightarrow> string \<Rightarrow> ('w, pydict) prog" where
  "get_sr_metadata E uri = call0 (GetSrMetadata uri) (e_get_sr_metadata E uri)"

definition uuid4 :: "'w env \<Rightarrow> ('w, string) prog" where
  "uuid4 E = call0 Uuid4 (e_uuid4 E)"

definition time_now :: "'w env \<Rightarrow> ('w, int) prog" where
  "time_now E = perform Now (\<lambda>i. i) (e_now E)"

definition path_exists :: "'w env \<Rightarrow> string \<Rightarrow> ('w, bool) prog" where
  "path_exists E p = perform (Fs (Exists p)) (\<lambda>b. if b then 1 else 0) (e_fs_bool E (Exists p))"

definition is_dir :: "'w env \<Rightarrow> string \<Rightarrow> ('w, bool) prog" where
  "is_dir E p = perform (Fs (IsDir p)) (\<lambda>b. if b then 1 else 0) (e_fs_bool E (IsDir p))"

definition list_dir :: "'w env \<Rightarrow> string \<Rightarrow> ('w, string list) prog" where
  "list_dir E p = call0 (Fs (ListDir p)) (e_fs_list E (ListDir p))"

definition read_pickle :: "'w env \<Rightarrow> string \<Rightarrow> ('w, pyval) prog" where
  "read_pickle E p = call0 (Fs (ReadFile p)) (e_fs_read E p)"

definition fs_do :: "'w env \<Rightarrow> fscall \<Rightarrow> ('w, unit) prog" where
  "fs_do E c = call0 (Fs c) (e_fs_unit E c)"

definition os_kill :: "'w env \<Rightarrow> int \<Rightarrow> int \<Rightarrow> ('w, unit) prog" where
  "os_kill E pid sig = call0 (Kill pid sig) (e_kill E pid sig)"

definition glob :: "'w env \<Rightarrow> string \<Rightarrow> ('w, string list) prog" where
  "glob E pat = call0 (Fs (Glob pat)) (e_fs_list E (Glob pat))"

text \<open>One connection to a monitor, under Python 2; the world supplies what the socket answers.\<close>

definition qmp_exchange :: "'w env \<Rightarrow> string \<Rightarrow> string \<Rightarrow> pydict \<Rightarrow> ('w, pyval) ext" where
  "qmp_exchange E sock cmd args w =
     (case e_qmp E sock cmd args w of (says, w') \<Rightarrow> (fst (qmp_session False (e_json_loads E) sock cmd says), w'))"

definition qmp :: "'w env \<Rightarrow> string \<Rightarrow> string \<Rightarrow> pydict \<Rightarrow> ('w, pyval) prog" where
  "qmp E sock cmd args = call0 (Qmp sock cmd args) (qmp_exchange E sock cmd args)"

text \<open>Iteration over a value, as \<^verbatim>\<open>for x in v\<close>: a dictionary gives its keys.\<close>

definition py_iter :: "pyval \<Rightarrow> ('w, pyval list) prog" where
  "py_iter v = (case v of
       PList xs \<Rightarrow> ret xs
     | PDict d \<Rightarrow> ret (map (\<lambda>(k, _). PStr k) d)
     | PStr s \<Rightarrow> ret (map (\<lambda>c. PStr [c]) s)
     | _ \<Rightarrow> raise PyTypeError)"

definition with_volume_context ::
  "'w env \<Rightarrow> string \<Rightarrow> string \<Rightarrow> (string \<Rightarrow> ('w, 'a) prog) \<Rightarrow> ('w, 'a) prog" where
  "with_volume_context E sr mode body =
     with_ctx (call0 (CtxEnter sr mode) (e_ctx_enter E sr mode))
       (\<lambda>opq ok. call0 (CtxExit opq ok) (e_ctx_exit E opq ok)) body"

definition with_poll_lock ::
  "'w env \<Rightarrow> string \<Rightarrow> string \<Rightarrow> ('w, 'a) prog \<Rightarrow> ('w, 'a) prog" where
  "with_poll_lock E opq name body =
     with_ctx (call0 (LockEnter opq name) (e_lock_enter E opq name))
       (\<lambda>_ ok. call0 (LockExit opq ok) (e_lock_exit E opq ok)) (\<lambda>_. body)"

definition with_db :: "'w env \<Rightarrow> string \<Rightarrow> ('w, 'a) prog \<Rightarrow> ('w, 'a) prog" where
  "with_db E opq body =
     with_ctx (call0 (DbEnter opq) (e_db_enter E opq))
       (\<lambda>_ ok. call0 (DbExit opq ok) (e_db_exit E opq ok)) (\<lambda>_. body)"

section \<open>Trace triples\<close>

text \<open>
  \<open>spec m Q R\<close>: from every state and for every environment already fixed in \<open>m\<close>, the run
  of \<open>m\<close> only extends the trace; if it returns \<open>x\<close> having added \<open>t\<close> then \<open>Q x t\<close>, if it
  raises \<open>e\<close> then \<open>R e t\<close>.
\<close>

definition spec :: "('w, 'a) prog \<Rightarrow> ('a \<Rightarrow> event list \<Rightarrow> bool) \<Rightarrow> (exn \<Rightarrow> event list \<Rightarrow> bool) \<Rightarrow> bool" where
  "spec m Q R \<longleftrightarrow>
     (\<forall>s. \<exists>t. trace (snd (m s)) = trace s @ t \<and>
        (case fst (m s) of Inr x \<Rightarrow> Q x t | Inl e \<Rightarrow> R e t))"

text \<open>Every event of every run satisfies \<open>A\<close>.\<close>

definition emits :: "(event \<Rightarrow> bool) \<Rightarrow> ('w, 'a) prog \<Rightarrow> bool" where
  "emits A m \<longleftrightarrow> spec m (\<lambda>_ t. \<forall>e \<in> set t. A e) (\<lambda>_ t. \<forall>e \<in> set t. A e)"

lemma specI:
  assumes "\<And>s. \<exists>t. trace (snd (m s)) = trace s @ t \<and>
        (case fst (m s) of Inr x \<Rightarrow> Q x t | Inl e \<Rightarrow> R e t)"
  shows "spec m Q R"
  using assms by (simp add: spec_def)

lemma specE:
  assumes "spec m Q R"
  obtains t where "trace (snd (m s)) = trace s @ t"
    and "case fst (m s) of Inr x \<Rightarrow> Q x t | Inl e \<Rightarrow> R e t"
  using assms by (auto simp: spec_def)

lemma spec_mono:
  assumes "spec m Q R" and "\<And>x t. Q x t \<Longrightarrow> Q' x t" and "\<And>e t. R e t \<Longrightarrow> R' e t"
  shows "spec m Q' R'"
proof (rule specI)
  fix s
  obtain t where "trace (snd (m s)) = trace s @ t"
    and "case fst (m s) of Inr x \<Rightarrow> Q x t | Inl e \<Rightarrow> R e t"
    using assms(1) by (rule specE)
  with assms(2,3) show "\<exists>t. trace (snd (m s)) = trace s @ t \<and>
        (case fst (m s) of Inr x \<Rightarrow> Q' x t | Inl e \<Rightarrow> R' e t)"
    by (auto split: sum.splits)
qed

lemma spec_conj:
  assumes "spec m Q R" and "spec m Q' R'"
  shows "spec m (\<lambda>x t. Q x t \<and> Q' x t) (\<lambda>e t. R e t \<and> R' e t)"
proof (rule specI)
  fix s
  from assms(1) obtain t where t: "trace (snd (m s)) = trace s @ t"
    and q: "case fst (m s) of Inr x \<Rightarrow> Q x t | Inl e \<Rightarrow> R e t" by (rule specE)
  from assms(2) obtain u where u: "trace (snd (m s)) = trace s @ u"
    and q': "case fst (m s) of Inr x \<Rightarrow> Q' x u | Inl e \<Rightarrow> R' e u" by (rule specE)
  from t u have "t = u" by simp
  with t q q' show "\<exists>t. trace (snd (m s)) = trace s @ t \<and>
        (case fst (m s) of Inr x \<Rightarrow> Q x t \<and> Q' x t | Inl e \<Rightarrow> R e t \<and> R' e t)"
    by (auto split: sum.splits)
qed

lemma spec_ret [spec_intros]: "Q x [] \<Longrightarrow> spec (ret x) Q R"
  by (auto simp: spec_def ret_def)

lemma spec_raise [spec_intros]: "R e [] \<Longrightarrow> spec (raise e) Q R"
  by (auto simp: spec_def raise_def)

lemma spec_bind [spec_intros]:
  assumes "spec m (\<lambda>x t. spec (f x) (\<lambda>y u. Q y (t @ u)) (\<lambda>e u. R e (t @ u))) R"
  shows "spec (bind m f) Q R"
proof (rule specI)
  fix s
  obtain t where t: "trace (snd (m s)) = trace s @ t"
    and q: "case fst (m s) of
      Inr x \<Rightarrow> spec (f x) (\<lambda>y u. Q y (t @ u)) (\<lambda>e u. R e (t @ u)) | Inl e \<Rightarrow> R e t"
    using assms by (rule specE)
  show "\<exists>t. trace (snd (bind m f s)) = trace s @ t \<and>
        (case fst (bind m f s) of Inr x \<Rightarrow> Q x t | Inl e \<Rightarrow> R e t)"
  proof (cases "m s")
    case (Pair r s')
    show ?thesis
    proof (cases r)
      case (Inl e)
      with Pair t q show ?thesis by (auto simp: bind_def)
    next
      case (Inr x)
      with Pair q have "spec (f x) (\<lambda>y u. Q y (t @ u)) (\<lambda>e u. R e (t @ u))" by simp
      then obtain u where "trace (snd (f x s')) = trace s' @ u"
        and "case fst (f x s') of Inr y \<Rightarrow> Q y (t @ u) | Inl e \<Rightarrow> R e (t @ u)" by (rule specE)
      with Pair Inr t show ?thesis by (auto simp: bind_def)
    qed
  qed
qed

lemma spec_andthen [spec_intros]:
  "spec m (\<lambda>x t. spec n (\<lambda>y u. Q y (t @ u)) (\<lambda>e u. R e (t @ u))) R \<Longrightarrow> spec (andthen m n) Q R"
  unfolding andthen_def by (rule spec_bind)

lemma spec_catch [spec_intros]:
  assumes "spec m Q (\<lambda>e t. spec (h e) (\<lambda>y u. Q y (t @ u)) (\<lambda>e' u. R e' (t @ u)))"
  shows "spec (catch m h) Q R"
proof (rule specI)
  fix s
  obtain t where t: "trace (snd (m s)) = trace s @ t"
    and q: "case fst (m s) of
      Inr x \<Rightarrow> Q x t | Inl e \<Rightarrow> spec (h e) (\<lambda>y u. Q y (t @ u)) (\<lambda>e' u. R e' (t @ u))"
    using assms by (rule specE)
  show "\<exists>t. trace (snd (catch m h s)) = trace s @ t \<and>
        (case fst (catch m h s) of Inr x \<Rightarrow> Q x t | Inl e \<Rightarrow> R e t)"
  proof (cases "m s")
    case (Pair r s')
    show ?thesis
    proof (cases r)
      case (Inr x)
      with Pair t q show ?thesis by (auto simp: catch_def)
    next
      case (Inl e)
      with Pair q have "spec (h e) (\<lambda>y u. Q y (t @ u)) (\<lambda>e' u. R e' (t @ u))" by simp
      then obtain u where "trace (snd (h e s')) = trace s' @ u"
        and "case fst (h e s') of Inr y \<Rightarrow> Q y (t @ u) | Inl e \<Rightarrow> R e (t @ u)" by (rule specE)
      with Pair Inl t show ?thesis by (auto simp: catch_def)
    qed
  qed
qed

lemma spec_swallow [spec_intros]:
  assumes "spec m (\<lambda>_ t. Q None t) (\<lambda>e t. Q (Some e) t)"
  shows "spec (swallow m) Q R"
  unfolding swallow_def
  by (rule spec_catch, rule spec_andthen, rule spec_mono [OF assms]) (auto intro: spec_ret)

lemma spec_catch_if [spec_intros]:
  assumes "spec m Q (\<lambda>e t. if P e then spec (h e) (\<lambda>y u. Q y (t @ u)) (\<lambda>e' u. R e' (t @ u))
                           else R e t)"
  shows "spec (catch_if P m h) Q R"
  unfolding catch_if_def
  by (rule spec_catch, rule spec_mono [OF assms]) (auto intro: spec_raise)

lemma spec_only_if [spec_intros]:
  "(b \<Longrightarrow> spec m Q R) \<Longrightarrow> (\<not> b \<Longrightarrow> Q () []) \<Longrightarrow> spec (only_if b m) Q R"
  by (auto simp: only_if_def intro: spec_ret)

lemma spec_if [spec_intros]:
  "(b \<Longrightarrow> spec m Q R) \<Longrightarrow> (\<not> b \<Longrightarrow> spec n Q R) \<Longrightarrow> spec (if b then m else n) Q R"
  by simp

lemma spec_of_option [spec_intros]:
  "(\<And>y. x = Some y \<Longrightarrow> Q y []) \<Longrightarrow> (x = None \<Longrightarrow> R e []) \<Longrightarrow> spec (of_option e x) Q R"
  by (auto simp: of_option_def intro: spec_ret spec_raise split: option.splits)

lemma spec_option_case [spec_intros]:
  "(\<And>y. x = Some y \<Longrightarrow> spec (f y) Q R) \<Longrightarrow> (x = None \<Longrightarrow> spec n Q R) \<Longrightarrow>
   spec (case x of None \<Rightarrow> n | Some y \<Rightarrow> f y) Q R"
  by (cases x) auto

lemma spec_prod_case [spec_intros]:
  "(\<And>a b. p = (a, b) \<Longrightarrow> spec (f a b) Q R) \<Longrightarrow> spec (case p of (a, b) \<Rightarrow> f a b) Q R"
  by (cases p) auto

lemma spec_as_str [spec_intros]:
  "(\<And>s. v = PStr s \<Longrightarrow> Q s []) \<Longrightarrow> R PyTypeError [] \<Longrightarrow> spec (as_str v) Q R"
  by (cases v) (auto simp: as_str_def intro: spec_ret spec_raise)

lemma spec_as_dict [spec_intros]:
  "(\<And>d. v = PDict d \<Longrightarrow> Q d []) \<Longrightarrow> R PyAttributeError [] \<Longrightarrow> spec (as_dict v) Q R"
  by (cases v) (auto simp: as_dict_def intro: spec_ret spec_raise)

lemma spec_py_iter [spec_intros]:
  "(\<And>xs. Q xs []) \<Longrightarrow> R PyTypeError [] \<Longrightarrow> spec (py_iter v) Q R"
  by (cases v) (auto simp: py_iter_def intro: spec_ret spec_raise)

lemma spec_parse_int [spec_intros]:
  "(\<And>i. py_int s = Some i \<Longrightarrow> Q i []) \<Longrightarrow> R PyValueError [] \<Longrightarrow> spec (parse_int s) Q R"
  unfolding parse_int_def by (rule spec_of_option)

lemma spec_with_ctx [spec_intros]:
  assumes "spec enter (\<lambda>c t. spec (body c)
      (\<lambda>x u. spec (leave c True) (\<lambda>_ v. Q x (t @ u @ v)) (\<lambda>e v. R e (t @ u @ v)))
      (\<lambda>e u. spec (leave c False) (\<lambda>_ v. R e (t @ u @ v)) (\<lambda>e' v. R e' (t @ u @ v)))) R"
  shows "spec (with_ctx enter leave body) Q R"
  unfolding with_ctx_def
  apply (intro spec_bind spec_catch spec_andthen)
  apply (rule spec_mono [OF assms])
   apply (intro spec_bind spec_catch spec_andthen)
   apply (erule spec_mono)
    apply (intro spec_bind spec_catch spec_andthen)
    apply (erule spec_mono; auto intro: spec_ret)
   apply (intro spec_bind spec_catch spec_andthen)
   apply (erule spec_mono; auto intro: spec_raise)
  apply assumption
  done

lemma spec_perform:
  fixes f :: "('w, 'a) ext"
  assumes "\<And>x. Q x [(c, Some (code x))]" and "\<And>e. R e [(c, None)]"
  shows "spec (perform c code f) Q R"
proof (rule specI)
  fix s :: "'w st"
  obtain r w where "f (world s) = (r, w)" by force
  with assms show "\<exists>t. trace (snd (perform c code f s)) = trace s @ t \<and>
        (case fst (perform c code f s) of Inr x \<Rightarrow> Q x t | Inl e \<Rightarrow> R e t)"
    by (cases r) (auto simp: perform_def)
qed

lemma spec_popen [spec_intros]:
  "(\<And>out err rc. Q (out, err, rc) [(Popen cmd, Some rc)]) \<Longrightarrow> (\<And>e. R e [(Popen cmd, None)]) \<Longrightarrow>
   spec (popen E cmd) Q R"
  unfolding popen_def by (rule spec_perform) auto

lemma spec_check_call_rc [spec_intros]:
  "(\<And>rc. Q rc [(CheckCall cmd, Some rc)]) \<Longrightarrow> (\<And>e. R e [(CheckCall cmd, None)]) \<Longrightarrow>
   spec (check_call_rc E cmd) Q R"
  unfolding check_call_rc_def by (rule spec_perform) auto

lemmas spec_call0 [spec_intros] = spec_perform [where code = "\<lambda>_. 0"]

lemmas spec_ext_defs =
  db_unit_def get_vdi_by_id_def get_vdi_for_volume_def get_vdi_custom_keys_def volume_destroy_cb_def insert_new_volume_def insert_child_volume_def
  get_sr_metadata_def uuid4_def list_dir_def
  read_pickle_def fs_do_def os_kill_def glob_def qmp_def

lemma spec_time_now [spec_intros]:
  "(\<And>i. Q i [(Now, Some i)]) \<Longrightarrow> (\<And>e. R e [(Now, None)]) \<Longrightarrow> spec (time_now E) Q R"
  unfolding time_now_def by (rule spec_perform) auto

lemma spec_path_exists [spec_intros]:
  "(\<And>b. Q b [(Fs (Exists p), Some (if b then 1 else 0))]) \<Longrightarrow> (\<And>e. R e [(Fs (Exists p), None)]) \<Longrightarrow>
   spec (path_exists E p) Q R"
  unfolding path_exists_def by (rule spec_perform) auto

lemma spec_is_dir [spec_intros]:
  "(\<And>b. Q b [(Fs (IsDir p), Some (if b then 1 else 0))]) \<Longrightarrow> (\<And>e. R e [(Fs (IsDir p), None)]) \<Longrightarrow>
   spec (is_dir E p) Q R"
  unfolding is_dir_def by (rule spec_perform) auto

lemmas spec_ctx_defs = with_volume_context_def with_poll_lock_def with_db_def

text \<open>Loops: an invariant on the events of the iterations done so far.\<close>

lemma spec_for_each:
  assumes "\<And>x t. x \<in> set xs \<Longrightarrow> I t \<Longrightarrow> spec (f x) (\<lambda>_ u. I (t @ u)) (\<lambda>e u. R e (t @ u))"
    and "I t0"
  shows "spec (for_each f xs) (\<lambda>_ u. I (t0 @ u)) (\<lambda>e u. R e (t0 @ u))"
  using assms
proof (induction xs arbitrary: t0)
  case Nil
  then show ?case by (auto intro: spec_ret)
next
  case (Cons x xs)
  show ?case
    unfolding for_each.simps
  proof (rule spec_andthen, rule spec_mono)
    show "spec (f x) (\<lambda>_ u. I (t0 @ u)) (\<lambda>e u. R e (t0 @ u))"
      using Cons.prems by simp
  next
    fix u assume "I (t0 @ u)"
    then have "spec (for_each f xs) (\<lambda>_ v. I ((t0 @ u) @ v)) (\<lambda>e v. R e ((t0 @ u) @ v))"
      using Cons.prems(1) by (intro Cons.IH) auto
    then show "spec (for_each f xs) (\<lambda>y v. I (t0 @ u @ v)) (\<lambda>e v. R e (t0 @ u @ v))"
      by simp
  qed auto
qed

section \<open>Which events a program can emit\<close>

named_theorems emits_intros "composition rules for the allowed-events judgement"

lemma emits_mono: "emits A m \<Longrightarrow> (\<And>e. A e \<Longrightarrow> B e) \<Longrightarrow> emits B m"
  unfolding emits_def by (erule spec_mono) auto

lemma emits_ret [emits_intros]: "emits A (ret x)"
  by (simp add: emits_def spec_ret)

lemma emits_raise [emits_intros]: "emits A (raise e)"
  by (simp add: emits_def spec_raise)

lemma emits_bind [emits_intros]:
  assumes "emits A m" and "\<And>x. emits A (f x)"
  shows "emits A (bind m f)"
  unfolding emits_def
proof (rule spec_bind, rule spec_mono [OF assms(1) [unfolded emits_def]])
  fix x t
  assume "\<forall>e \<in> set t. A e"
  then show "spec (f x) (\<lambda>_ u. \<forall>e \<in> set (t @ u). A e) (\<lambda>_ u. \<forall>e \<in> set (t @ u). A e)"
    by (intro spec_mono [OF assms(2) [unfolded emits_def]]) auto
qed simp

lemma emits_andthen [emits_intros]: "emits A m \<Longrightarrow> emits A n \<Longrightarrow> emits A (andthen m n)"
  unfolding andthen_def by (rule emits_bind)

lemma emits_catch [emits_intros]:
  assumes "emits A m" and "\<And>e. emits A (h e)"
  shows "emits A (catch m h)"
  unfolding emits_def
proof (rule spec_catch, rule spec_mono [OF assms(1) [unfolded emits_def]])
  fix e t
  assume "\<forall>e \<in> set t. A e"
  then show "spec (h e) (\<lambda>_ u. \<forall>e \<in> set (t @ u). A e) (\<lambda>_ u. \<forall>e \<in> set (t @ u). A e)"
    by (intro spec_mono [OF assms(2) [unfolded emits_def]]) auto
qed simp

lemma emits_catch_if [emits_intros]:
  "emits A m \<Longrightarrow> (\<And>e. P e \<Longrightarrow> emits A (h e)) \<Longrightarrow> emits A (catch_if P m h)"
  unfolding catch_if_def by (auto intro!: emits_intros)

lemma emits_swallow [emits_intros]: "emits A m \<Longrightarrow> emits A (swallow m)"
  unfolding swallow_def by (auto intro!: emits_intros)

lemma emits_if [emits_intros]:
  "(b \<Longrightarrow> emits A m) \<Longrightarrow> (\<not> b \<Longrightarrow> emits A n) \<Longrightarrow> emits A (if b then m else n)"
  by simp

lemma emits_only_if [emits_intros]: "(b \<Longrightarrow> emits A m) \<Longrightarrow> emits A (only_if b m)"
  by (simp add: only_if_def emits_ret)

lemma emits_option_case [emits_intros]:
  "(\<And>y. x = Some y \<Longrightarrow> emits A (f y)) \<Longrightarrow> (x = None \<Longrightarrow> emits A n) \<Longrightarrow>
   emits A (case x of None \<Rightarrow> n | Some y \<Rightarrow> f y)"
  by (cases x) auto

lemma emits_prod_case [emits_intros]:
  "(\<And>a b. p = (a, b) \<Longrightarrow> emits A (f a b)) \<Longrightarrow> emits A (case p of (a, b) \<Rightarrow> f a b)"
  by (cases p) auto

lemma emits_let [emits_intros]: "(\<And>x. x = y \<Longrightarrow> emits A (f x)) \<Longrightarrow> emits A (let x = y in f x)"
  by simp

lemma emits_of_option [emits_intros]: "emits A (of_option e x)"
  by (auto simp: of_option_def intro!: emits_intros)

lemma emits_as_str [emits_intros]: "emits A (as_str v)"
  by (cases v) (auto simp: as_str_def intro!: emits_intros)

lemma emits_as_dict [emits_intros]: "emits A (as_dict v)"
  by (cases v) (auto simp: as_dict_def intro!: emits_intros)

lemma emits_py_iter [emits_intros]: "emits A (py_iter v)"
  by (cases v) (auto simp: py_iter_def intro!: emits_intros)

lemma emits_parse_int [emits_intros]: "emits A (parse_int s)"
  by (simp add: parse_int_def emits_of_option)

lemma emits_for_each [emits_intros]:
  "(\<And>x. x \<in> set xs \<Longrightarrow> emits A (f x)) \<Longrightarrow> emits A (for_each f xs)"
  by (induction xs) (auto intro!: emits_intros)

lemma emits_map_prog [emits_intros]:
  "(\<And>x. x \<in> set xs \<Longrightarrow> emits A (f x)) \<Longrightarrow> emits A (map_prog f xs)"
  by (induction xs) (auto intro!: emits_intros)

lemma emits_with_ctx [emits_intros]:
  "emits A m \<Longrightarrow> (\<And>c ok. emits A (l c ok)) \<Longrightarrow> (\<And>c. emits A (b c)) \<Longrightarrow> emits A (with_ctx m l b)"
  unfolding with_ctx_def by (auto intro!: emits_intros)

lemma emits_perform: "(\<And>r. A (c, r)) \<Longrightarrow> emits A (perform c code f)"
  unfolding emits_def by (rule spec_perform) auto

lemma emits_popen [emits_intros]: "(\<And>r. A (Popen cmd, r)) \<Longrightarrow> emits A (popen E cmd)"
  unfolding popen_def by (rule emits_perform)

lemma emits_check_call_rc [emits_intros]: "(\<And>r. A (CheckCall cmd, r)) \<Longrightarrow> emits A (check_call_rc E cmd)"
  unfolding check_call_rc_def by (rule emits_perform)

lemma emits_path_exists [emits_intros]: "(\<And>r. A (Fs (Exists p), r)) \<Longrightarrow> emits A (path_exists E p)"
  unfolding path_exists_def by (rule emits_perform)

lemma emits_is_dir [emits_intros]: "(\<And>r. A (Fs (IsDir p), r)) \<Longrightarrow> emits A (is_dir E p)"
  unfolding is_dir_def by (rule emits_perform)

lemma emits_time_now [emits_intros]: "(\<And>r. A (Now, r)) \<Longrightarrow> emits A (time_now E)"
  unfolding time_now_def by (rule emits_perform)

lemmas emits_call0 [emits_intros] = emits_perform [where code = "\<lambda>_. 0"]

end
