(* ===== verification/ZfsRun.thy ===== *)
theory ZfsRun
  imports Effects
begin

text \<open>
  The command runner of \<^verbatim>\<open>src/src/volume/zfs_operations.py\<close>: one subprocess per attempt, and
  a retry with a pause for failures whose stderr says EBUSY. A run is described by the
  events it leaves: some failed attempts, each followed by its pause, then one last attempt
  whose outcome is the outcome of the run.
\<close>

section \<open>Busy detection\<close>

definition busy_patterns :: "string list" where
  "busy_patterns = [''Device or resource busy'', ''is busy'', ''resource busy'']"

definition is_busy_error :: "string \<Rightarrow> int \<Rightarrow> bool" where
  "is_busy_error stderr rc =
     (if rc = 2 then False else list_ex (\<lambda>pat. contains pat stderr) busy_patterns)"

lemma is_busy_error_iff:
  "is_busy_error stderr rc \<longleftrightarrow> rc \<noteq> 2 \<and> (\<exists>pat \<in> set busy_patterns. sublist pat stderr)"
  by (auto simp: is_busy_error_def contains_sublist list_ex_iff)

section \<open>The runner\<close>

text \<open>
  The result is \<^verbatim>\<open>stdout\<close> alone with \<^verbatim>\<open>simple\<close>, else the triple; \<open>NoResult\<close> is the
  \<^verbatim>\<open>None\<close> of a loop that was given no attempt.
\<close>

datatype run_result = NoResult | Simple string | Full string string int

definition run_error :: "string list \<Rightarrow> int \<Rightarrow> string \<Rightarrow> exn" where
  "run_error cmd rc stderr =
     InternalError (join_with '' '' cmd @ '' exited with non-zero code '' @ str_int rc @
                    '': '' @ stderr)"

definition sleep :: "'w env \<Rightarrow> rat \<Rightarrow> ('w, unit) prog" where
  "sleep E d = call0 (Sleep d) (e_sleep E d)"

fun run_zfs_command ::
  "'w env \<Rightarrow> string list \<Rightarrow> bool \<Rightarrow> bool \<Rightarrow> int \<Rightarrow> nat \<Rightarrow> rat \<Rightarrow> ('w, run_result) prog" where
  "run_zfs_command E cmd err simple exp_rc 0 delay = ret NoResult"
| "run_zfs_command E cmd err simple exp_rc (Suc n) delay =
     bind (popen E cmd) (\<lambda>(stdout, stderr, rc).
       if err \<and> rc \<noteq> exp_rc then
         if n \<ge> 1 \<and> is_busy_error stderr rc then
           andthen (only_if (delay > 0) (sleep E delay))
             (run_zfs_command E cmd err simple exp_rc n delay)
         else raise (run_error cmd rc stderr)
       else ret (if simple then Simple stdout else Full stdout stderr rc))"

definition run_zfs_command_with_retry ::
  "'w env \<Rightarrow> string list \<Rightarrow> bool \<Rightarrow> bool \<Rightarrow> int \<Rightarrow> ('w, run_result) prog" where
  "run_zfs_command_with_retry E cmd err simple exp_rc =
     run_zfs_command E cmd err simple exp_rc 10 (1 / 10)"

text \<open>How the callers read the result: the text of a simple call, the triple of a full one.\<close>

definition simple_out :: "run_result \<Rightarrow> ('w, string) prog" where
  "simple_out r = (case r of Simple s \<Rightarrow> ret s | _ \<Rightarrow> raise PyAttributeError)"

definition full_out :: "run_result \<Rightarrow> ('w, string \<times> string \<times> int) prog" where
  "full_out r = (case r of Full out err rc \<Rightarrow> ret (out, err, rc) | _ \<Rightarrow> raise PyTypeError)"

text \<open>The three call shapes of the module: defaults, with retry, and \<^verbatim>\<open>error=False, simple=False\<close>.\<close>

definition zfs_cmd :: "'w env \<Rightarrow> string list \<Rightarrow> ('w, string) prog" where
  "zfs_cmd E cmd = bind (run_zfs_command E cmd True True 0 1 (1 / 10)) simple_out"

definition zfs_cmd_retry :: "'w env \<Rightarrow> string list \<Rightarrow> ('w, string) prog" where
  "zfs_cmd_retry E cmd = bind (run_zfs_command_with_retry E cmd True True 0) simple_out"

definition zfs_cmd_try :: "'w env \<Rightarrow> string list \<Rightarrow> ('w, string \<times> string \<times> int) prog" where
  "zfs_cmd_try E cmd = bind (run_zfs_command E cmd False False 0 1 (1 / 10)) full_out"

section \<open>The shape of a run\<close>

definition pause :: "rat \<Rightarrow> event list \<Rightarrow> bool" where
  "pause d t \<longleftrightarrow> t = (if d > 0 then [(Sleep d, Some 0)] else [])"

text \<open>
  \<open>retried c ok d k t\<close>: \<open>t\<close> is \<open>k\<close> failed attempts at call \<open>c\<close>, each with a code the
  predicate \<open>ok\<close> allows to be retried and followed by a pause of \<open>d\<close>.
\<close>

fun retried :: "call \<Rightarrow> (int \<Rightarrow> bool) \<Rightarrow> rat \<Rightarrow> nat \<Rightarrow> event list \<Rightarrow> bool" where
  "retried c ok d 0 t = (t = [])"
| "retried c ok d (Suc k) t =
     (\<exists>rc p u. t = (c, Some rc) # p @ u \<and> ok rc \<and> pause d p \<and> retried c ok d k u)"

text \<open>At most \<open>n\<close> attempts, the last with an outcome in \<open>last\<close> or the pause itself raising.\<close>

definition attempts :: "call \<Rightarrow> (int \<Rightarrow> bool) \<Rightarrow> rat \<Rightarrow> nat \<Rightarrow> (int option \<Rightarrow> bool) \<Rightarrow> event list \<Rightarrow> bool" where
  "attempts c ok d n fin t \<longleftrightarrow>
     (\<exists>k u r. k < n \<and> retried c ok d k u \<and> t = u @ [(c, r)] \<and> fin r)"

definition interrupted :: "call \<Rightarrow> (int \<Rightarrow> bool) \<Rightarrow> rat \<Rightarrow> nat \<Rightarrow> event list \<Rightarrow> bool" where
  "interrupted c ok d n t \<longleftrightarrow>
     (\<exists>k u rc. Suc k < n \<and> retried c ok d k u \<and> t = u @ [(c, Some rc), (Sleep d, None)] \<and> ok rc)"

lemma attempts_first: "fin r \<Longrightarrow> 0 < n \<Longrightarrow> attempts c ok d n fin [(c, r)]"
  unfolding attempts_def by (intro exI [of _ 0] exI [of _ "[]"] exI [of _ r]) auto

lemma attempts_again:
  "ok rc \<Longrightarrow> pause d p \<Longrightarrow> attempts c ok d n fin u \<Longrightarrow>
   attempts c ok d (Suc n) fin ((c, Some rc) # p @ u)"
  unfolding attempts_def
  by (elim exE conjE, rule_tac x = "Suc k" in exI) fastforce

lemma interrupted_first:
  "ok rc \<Longrightarrow> 1 < n \<Longrightarrow> interrupted c ok d n [(c, Some rc), (Sleep d, None)]"
  unfolding interrupted_def by (intro exI [of _ 0] exI [of _ "[]"] exI [of _ rc]) auto

lemma interrupted_again:
  "ok rc \<Longrightarrow> pause d p \<Longrightarrow> interrupted c ok d n u \<Longrightarrow>
   interrupted c ok d (Suc n) ((c, Some rc) # p @ u)"
  unfolding interrupted_def
  by (elim exE conjE, rule_tac x = "Suc k" in exI) fastforce

lemma retried_SucE:
  assumes "retried c ok d (Suc k) t"
  obtains rc p u where "t = (c, Some rc) # p @ u" and "ok rc" and "pause d p" and "retried c ok d k u"
  using assms unfolding retried.simps(2) by blast

lemma pause_events: "pause d p \<Longrightarrow> e \<in> set p \<Longrightarrow> e = (Sleep d, Some 0)"
  by (auto simp: pause_def split: if_splits)

lemma retried_length: "retried c ok d k t \<Longrightarrow> d > 0 \<Longrightarrow> length t = 2 * k"
proof (induction k arbitrary: t)
  case (Suc k)
  from Suc.prems(1) obtain rc p u where t: "t = (c, Some rc) # p @ u" and "pause d p"
    and "retried c ok d k u" by (rule retried_SucE)
  with Suc.IH Suc.prems(2) have "length u = 2 * k" "length p = 1" by (auto simp: pause_def)
  with t show ?case by simp
qed simp

lemma retried_events:
  "retried c ok d k t \<Longrightarrow> e \<in> set t \<Longrightarrow> e = (Sleep d, Some 0) \<or> (\<exists>rc. e = (c, Some rc) \<and> ok rc)"
proof (induction k arbitrary: t)
  case (Suc k)
  from Suc.prems(1) obtain rc p u where "t = (c, Some rc) # p @ u" and "ok rc" and "pause d p"
    and "retried c ok d k u" by (rule retried_SucE)
  with Suc.IH [of u] Suc.prems(2) pause_events [of d p e] show ?case by auto
qed simp

lemma attemptsE:
  assumes "attempts c ok d n fin t"
  obtains k u r where "k < n" and "retried c ok d k u" and "t = u @ [(c, r)]" and "fin r"
  using assms unfolding attempts_def by blast

lemma interruptedE:
  assumes "interrupted c ok d n t"
  obtains k u rc where "Suc k < n" and "retried c ok d k u"
    and "t = u @ [(c, Some rc), (Sleep d, None)]" and "ok rc"
  using assms unfolding interrupted_def by blast

lemma attempts_events:
  assumes "attempts c ok d n fin t" and "e \<in> set t"
  shows "fst e = c \<or> e = (Sleep d, Some 0)"
  using assms(1)
proof (rule attemptsE)
  fix k u r assume "retried c ok d k u" and "t = u @ [(c, r)]"
  with assms(2) show ?thesis using retried_events [of c ok d k u e] by auto
qed

lemma interrupted_events:
  assumes "interrupted c ok d n t" and "e \<in> set t"
  shows "fst e = c \<or> fst e = Sleep d"
  using assms(1)
proof (rule interruptedE)
  fix k u rc assume "retried c ok d k u" and "t = u @ [(c, Some rc), (Sleep d, None)]"
  with assms(2) show ?thesis using retried_events [of c ok d k u e] by auto
qed

lemma spec_sleep [spec_intros]:
  "Q () [(Sleep d, Some 0)] \<Longrightarrow> (\<And>e. R e [(Sleep d, None)]) \<Longrightarrow> spec (sleep E d) Q R"
  unfolding sleep_def by (rule spec_call0) auto

lemma emits_sleep [emits_intros]: "(\<And>r. A (Sleep d, r)) \<Longrightarrow> emits A (sleep E d)"
  unfolding sleep_def by (rule emits_call0)

abbreviation ended_well :: "string list \<Rightarrow> int \<Rightarrow> rat \<Rightarrow> nat \<Rightarrow> event list \<Rightarrow> bool" where
  "ended_well cmd exp_rc d n \<equiv> attempts (Popen cmd) (\<lambda>rc. rc \<noteq> exp_rc \<and> rc \<noteq> 2) d n (\<lambda>r. r = Some exp_rc)"

abbreviation ended_badly :: "string list \<Rightarrow> int \<Rightarrow> rat \<Rightarrow> nat \<Rightarrow> event list \<Rightarrow> bool" where
  "ended_badly cmd exp_rc d n t \<equiv> attempts (Popen cmd) (\<lambda>rc. rc \<noteq> exp_rc \<and> rc \<noteq> 2) d n (\<lambda>r. r \<noteq> Some exp_rc) t \<or>
     interrupted (Popen cmd) (\<lambda>rc. rc \<noteq> exp_rc \<and> rc \<noteq> 2) d n t"

lemma ended_again:
  assumes "rc \<noteq> exp_rc" and "rc \<noteq> 2" and "pause d p"
  shows "ended_well cmd exp_rc d n u \<Longrightarrow> ended_well cmd exp_rc d (Suc n) ((Popen cmd, Some rc) # p @ u)"
    and "ended_badly cmd exp_rc d n u \<Longrightarrow> ended_badly cmd exp_rc d (Suc n) ((Popen cmd, Some rc) # p @ u)"
  using assms attempts_again [of "\<lambda>rc. rc \<noteq> exp_rc \<and> rc \<noteq> 2" rc d p] interrupted_again [of "\<lambda>rc. rc \<noteq> exp_rc \<and> rc \<noteq> 2" rc d p]
  by blast+

lemma spec_run_zfs_command:
  assumes "0 < n"
  shows "spec (run_zfs_command E cmd True simple exp_rc n d)
     (\<lambda>_ t. ended_well cmd exp_rc d n t) (\<lambda>_ t. ended_badly cmd exp_rc d n t)"
  using assms
proof (induction n)
  case (Suc n)
  have pausing: "spec (only_if (d > 0) (sleep E d)) (\<lambda>_ p. pause d p) (\<lambda>_ p. p = [(Sleep d, None)])"
    by (intro spec_intros) (auto simp: pause_def)
  have again: "spec (andthen (only_if (d > 0) (sleep E d)) (run_zfs_command E cmd True simple exp_rc n d))
      (\<lambda>_ u. ended_well cmd exp_rc d (Suc n) ([(Popen cmd, Some rc)] @ u))
      (\<lambda>_ u. ended_badly cmd exp_rc d (Suc n) ([(Popen cmd, Some rc)] @ u))"
    if "rc \<noteq> exp_rc" "1 \<le> n" "is_busy_error stderr rc" for rc stderr
  proof -
    have rc: "rc \<noteq> 2" and n: "0 < n" using that by (auto simp: is_busy_error_def split: if_splits)
    show ?thesis
      by (rule spec_andthen, rule spec_mono [OF pausing], rule spec_mono [OF Suc.IH [OF n]])
        (use ended_again [OF that(1) rc] that(1) rc n in \<open>auto intro: interrupted_first\<close>)
  qed
  show ?case
    unfolding run_zfs_command.simps
    by (rule spec_bind, rule spec_popen, unfold prod.case simp_thms, intro spec_if spec_raise spec_ret again)
      (auto intro: attempts_first)
qed simp

section \<open>The call shapes\<close>

lemma attempts_one [simp]: "attempts c ok d (Suc 0) fin t \<longleftrightarrow> (\<exists>r. t = [(c, r)] \<and> fin r)"
  by (auto simp: attempts_def)

lemma interrupted_one [simp]: "\<not> interrupted c ok d (Suc 0) t"
  by (auto simp: interrupted_def)

lemma spec_zfs_cmd [spec_intros]:
  assumes "\<And>out. Q out [(Popen cmd, Some 0)]"
    and "\<And>e r. r \<noteq> Some 0 \<Longrightarrow> R e [(Popen cmd, r)]"
  shows "spec (zfs_cmd E cmd) Q R"
  unfolding zfs_cmd_def One_nat_def run_zfs_command.simps
  by (intro spec_bind spec_popen)
    (auto intro!: spec_intros assms simp: simple_out_def)

lemma spec_zfs_cmd_try [spec_intros]:
  assumes "\<And>out err rc. Q (out, err, rc) [(Popen cmd, Some rc)]"
    and "\<And>e. R e [(Popen cmd, None)]"
  shows "spec (zfs_cmd_try E cmd) Q R"
  unfolding zfs_cmd_try_def One_nat_def run_zfs_command.simps
  by (intro spec_bind spec_popen)
    (auto intro!: spec_intros assms simp: full_out_def)

lemma emits_run_zfs_command:
  "(\<And>r. A (Popen cmd, r)) \<Longrightarrow> (\<And>r. A (Sleep d, r)) \<Longrightarrow>
   emits A (run_zfs_command E cmd err simple exp_rc n d)"
  by (induction n) (auto intro!: emits_intros)

lemma emits_simple_out [emits_intros]: "emits A (simple_out r)"
  by (cases r) (auto simp: simple_out_def intro!: emits_intros)

lemma emits_full_out [emits_intros]: "emits A (full_out r)"
  by (cases r) (auto simp: full_out_def intro!: emits_intros)

lemma emits_zfs_cmd [emits_intros]: "(\<And>r. A (Popen cmd, r)) \<Longrightarrow> emits A (zfs_cmd E cmd)"
  unfolding emits_def by (rule spec_zfs_cmd) auto

lemma emits_zfs_cmd_try [emits_intros]: "(\<And>r. A (Popen cmd, r)) \<Longrightarrow> emits A (zfs_cmd_try E cmd)"
  unfolding emits_def by (rule spec_zfs_cmd_try) auto

lemma emits_zfs_cmd_retry [emits_intros]:
  "(\<And>r. A (Popen cmd, r)) \<Longrightarrow> (\<And>r. A (Sleep (1 / 10), r)) \<Longrightarrow> emits A (zfs_cmd_retry E cmd)"
  unfolding zfs_cmd_retry_def run_zfs_command_with_retry_def
  by (intro emits_bind emits_run_zfs_command emits_simple_out)

end
