(* ===== verification/Lzc.thy ===== *)
theory Lzc
  imports ZfsRun
begin

text \<open>
  \<^verbatim>\<open>src/src/volume/lzc.py\<close>: the loader of libzfs_core and libnvpair with its module-level
  cache (the record \<open>lib_state\<close>), the per-operation gates, the four ioctl wrappers and
  their retry loops, which decide on the errno the ioctl returned. A loaded library is the
  list of the symbols it exports. The four retry loops are one text in the source; the
  locale \<open>errno_attempt\<close> states what an attempt must promise and proves the loop once.
\<close>

section \<open>Constants\<close>

definition EBUSY :: int where "EBUSY = 16"
definition RETRYABLE_ERRNOS :: "int set" where "RETRYABLE_ERRNOS = {EBUSY}"

definition LIB_CANDIDATES :: "string list" where
  "LIB_CANDIDATES = [''libzfs_core.so.3'', ''libzfs_core.so.1'', ''libzfs_core.so'']"

definition REQUIRED_SYMBOLS :: "string list" where
  "REQUIRED_SYMBOLS = [''libzfs_core_init'', ''libzfs_core_fini'', ''lzc_destroy'', ''lzc_exists'']"

definition NVPAIR_CANDIDATES :: "string list" where
  "NVPAIR_CANDIDATES = [''libnvpair.so.3'', ''libnvpair.so.1'', ''libnvpair.so'']"

definition NVPAIR_REQUIRED_SYMBOLS :: "string list" where
  "NVPAIR_REQUIRED_SYMBOLS = [''fnvlist_alloc'', ''fnvlist_free'', ''fnvlist_add_boolean'']"

definition OP_SNAPSHOT :: "string \<times> bool" where "OP_SNAPSHOT = (''lzc_snapshot'', True)"
definition OP_CLONE :: "string \<times> bool" where "OP_CLONE = (''lzc_clone'', False)"
definition OP_CREATE_ZVOL :: "string \<times> bool" where "OP_CREATE_ZVOL = (''lzc_create'', True)"

section \<open>Loading\<close>

definition candidate_has_required_symbols :: "string list \<Rightarrow> bool" where
  "candidate_has_required_symbols lib = list_all (\<lambda>n. n \<in> set lib) REQUIRED_SYMBOLS"

text \<open>The \<^verbatim>\<open>for soname in candidates\<close> loop: skip what does not load or lacks a symbol.\<close>

fun load_first :: "(string \<Rightarrow> string list option) \<Rightarrow> (string list \<Rightarrow> bool) \<Rightarrow> string list \<Rightarrow> string list option" where
  "load_first dlopen ok [] = None"
| "load_first dlopen ok (soname # rest) =
     (case dlopen soname of
        None \<Rightarrow> load_first dlopen ok rest
      | Some cand \<Rightarrow> if ok cand then Some cand else load_first dlopen ok rest)"

definition with_found :: "string list \<Rightarrow> string option \<Rightarrow> string list" where
  "with_found cands found = (case found of None \<Rightarrow> cands | Some f \<Rightarrow> if f = [] then cands else cands @ [f])"

definition try_load_lib :: "'w env \<Rightarrow> lib_state \<Rightarrow> lib_state" where
  "try_load_lib E l = (case lib_core l of
       Some _ \<Rightarrow> l
     | None \<Rightarrow> l\<lparr>lib_core := load_first (e_dlopen E) candidate_has_required_symbols
                 (with_found LIB_CANDIDATES (e_find_library E ''zfs_core''))\<rparr>)"

definition nvpair_ok :: "string list \<Rightarrow> bool" where
  "nvpair_ok lib = list_all (\<lambda>n. n \<in> set lib) NVPAIR_REQUIRED_SYMBOLS"

definition try_load_nvpair :: "'w env \<Rightarrow> lib_state \<Rightarrow> lib_state" where
  "try_load_nvpair E l = (case lib_nvpair l of
       Some _ \<Rightarrow> l
     | None \<Rightarrow> l\<lparr>lib_nvpair := load_first (e_dlopen E) nvpair_ok
                 (with_found NVPAIR_CANDIDATES (e_find_library E ''nvpair''))\<rparr>)"

definition ensure_init :: "'w env \<Rightarrow> lib_state \<Rightarrow> lib_state" where
  "ensure_init E l =
     (if lib_init_done l then l
      else let l1 = try_load_lib E l in
        case lib_core l1 of
          None \<Rightarrow> l1
        | Some _ \<Rightarrow>
            if e_core_init E \<noteq> 0 then l1
            else (try_load_nvpair E l1)\<lparr>lib_init_done := True\<rparr>)"

definition available :: "'w env \<Rightarrow> ('w, bool) prog" where
  "available E = (\<lambda>s. let l = ensure_init E (libs s) in
     (Inr (lib_core l \<noteq> None \<and> lib_init_done l), s\<lparr>libs := l\<rparr>))"

text \<open>The gate of one operation, on the state of the libraries after \<^verbatim>\<open>_ensure_init\<close>.\<close>

definition op_gate :: "string \<times> bool \<Rightarrow> string list \<Rightarrow> lib_state \<Rightarrow> bool" where
  "op_gate op extra l =
     (case lib_core l of
        None \<Rightarrow> False
      | Some core \<Rightarrow>
          lib_init_done l \<and> fst op \<in> set core \<and>
          (snd op \<longrightarrow> (case lib_nvpair l of
                         None \<Rightarrow> False
                       | Some nvp \<Rightarrow> list_all (\<lambda>n. n \<in> set nvp) extra)))"

definition op_available :: "'w env \<Rightarrow> string \<times> bool \<Rightarrow> string list \<Rightarrow> ('w, bool) prog" where
  "op_available E op extra = (\<lambda>s. let l = ensure_init E (libs s) in
     (Inr (op_gate op extra l), s\<lparr>libs := l\<rparr>))"

definition snapshot_available :: "'w env \<Rightarrow> ('w, bool) prog" where
  "snapshot_available E = op_available E OP_SNAPSHOT []"

definition clone_available :: "'w env \<Rightarrow> ('w, bool) prog" where
  "clone_available E = op_available E OP_CLONE []"

definition create_zvol_available :: "'w env \<Rightarrow> ('w, bool) prog" where
  "create_zvol_available E = op_available E OP_CREATE_ZVOL [''fnvlist_add_uint64'']"

section \<open>The ioctl wrappers\<close>

definition guarded :: "('w, bool) prog \<Rightarrow> ('w, 'a) prog \<Rightarrow> ('w, 'a) prog" where
  "guarded gate m =
     bind gate (\<lambda>ok. if ok then m else raise (RuntimeError ''lzc support not available''))"

definition destroy_one :: "'w env \<Rightarrow> string \<Rightarrow> ('w, int) prog" where
  "destroy_one E name =
     guarded (available E) (perform (LzcDestroy name) (\<lambda>rc. rc) (e_lzc_destroy E name))"

definition lzc_exists :: "'w env \<Rightarrow> string \<Rightarrow> ('w, bool) prog" where
  "lzc_exists E name =
     bind (available E) (\<lambda>up.
       if \<not> up then raise (RuntimeError ''lzc not available'')
       else bind (perform (LzcExists name) (\<lambda>i. i) (e_lzc_exists E name)) (\<lambda>i. ret (i \<noteq> 0)))"

definition nvlist_available :: "'w env \<Rightarrow> ('w, bool) prog" where
  "nvlist_available E = snapshot_available E"

definition lzc_snapshot :: "'w env \<Rightarrow> string \<Rightarrow> ('w, int) prog" where
  "lzc_snapshot E snap =
     guarded (snapshot_available E) (perform (LzcSnapshot snap) (\<lambda>rc. rc) (e_lzc_snapshot E snap))"

definition lzc_clone :: "'w env \<Rightarrow> string \<Rightarrow> string \<Rightarrow> ('w, int) prog" where
  "lzc_clone E fsname origin =
     guarded (clone_available E)
       (perform (LzcClone fsname origin) (\<lambda>rc. rc) (e_lzc_clone E fsname origin))"

text \<open>
  \<^verbatim>\<open>volsize\<close> is rounded up to a multiple of the block size, as the zfs tool does before it
  issues the ioctl.
\<close>

definition round_volsize :: "int \<Rightarrow> int \<Rightarrow> int" where
  "round_volsize sz blk =
     (if blk > 0 \<and> sz mod blk \<noteq> 0 then ((sz + blk - 1) div blk) * blk else sz)"

text \<open>ctypes converts the two properties to \<^verbatim>\<open>c_uint64\<close>, which wraps.\<close>

definition uint64 :: "int \<Rightarrow> int" where
  "uint64 n = n mod 2 ^ 64"

definition lzc_create_zvol :: "'w env \<Rightarrow> string \<Rightarrow> int \<Rightarrow> int \<Rightarrow> ('w, int) prog" where
  "lzc_create_zvol E name sz blk =
     guarded (create_zvol_available E)
       (let volsize = uint64 (round_volsize sz blk); volblocksize = uint64 blk in
        perform (LzcCreate name volsize volblocksize) (\<lambda>rc. rc) (e_lzc_create E name volsize volblocksize))"

section \<open>The retry loops\<close>

text \<open>
  The loop \<^verbatim>\<open>for _ in range(max_attempts - 1)\<close> after a first attempt that returned \<open>rc\<close>.
\<close>

fun retry_loop :: "'w env \<Rightarrow> ('w, int) prog \<Rightarrow> rat \<Rightarrow> nat \<Rightarrow> int \<Rightarrow> ('w, int) prog" where
  "retry_loop E attempt d 0 rc = ret rc"
| "retry_loop E attempt d (Suc n) rc =
     andthen (only_if (d > 0) (sleep E d))
       (bind attempt (\<lambda>rc'.
          if rc' = 0 then ret 0
          else if rc' \<notin> RETRYABLE_ERRNOS then ret rc'
          else retry_loop E attempt d n rc'))"

definition with_retry :: "'w env \<Rightarrow> ('w, int) prog \<Rightarrow> nat \<Rightarrow> rat \<Rightarrow> ('w, int) prog" where
  "with_retry E attempt n d =
     bind attempt (\<lambda>rc.
       if rc = 0 then ret 0
       else if rc \<notin> RETRYABLE_ERRNOS then ret rc
       else retry_loop E attempt d (n - 1) rc)"

definition destroy_with_retry :: "'w env \<Rightarrow> string \<Rightarrow> ('w, int) prog" where
  "destroy_with_retry E name = with_retry E (destroy_one E name) 10 (1 / 10)"

definition snapshot_with_retry :: "'w env \<Rightarrow> string \<Rightarrow> ('w, int) prog" where
  "snapshot_with_retry E snap = with_retry E (lzc_snapshot E snap) 10 (1 / 10)"

definition clone_with_retry :: "'w env \<Rightarrow> string \<Rightarrow> string \<Rightarrow> ('w, int) prog" where
  "clone_with_retry E fsname origin = with_retry E (lzc_clone E fsname origin) 10 (1 / 10)"

definition create_zvol_with_retry :: "'w env \<Rightarrow> string \<Rightarrow> int \<Rightarrow> int \<Rightarrow> ('w, int) prog" where
  "create_zvol_with_retry E name sz blk = with_retry E (lzc_create_zvol E name sz blk) 10 (1 / 10)"

definition errno_to_str :: "'w env \<Rightarrow> int \<Rightarrow> string" where
  "errno_to_str E rc = (if rc = 0 then ''ok'' else e_strerror E rc)"

section \<open>The loader\<close>

lemma load_first_ok: "load_first dl ok cs = Some lib \<Longrightarrow> ok lib \<and> (\<exists>c \<in> set cs. dl c = Some lib)"
  by (induction cs) (auto split: option.splits if_splits)

lemma load_first_None: "load_first dl ok cs = None \<longleftrightarrow> (\<forall>c \<in> set cs. \<forall>lib. dl c = Some lib \<longrightarrow> \<not> ok lib)"
  by (induction cs) (auto split: option.splits)

text \<open>
  The invariant of the cache: what is cached exports its required symbols, and the
  initialised flag is set only with the core library loaded.
\<close>

definition libs_ok :: "lib_state \<Rightarrow> bool" where
  "libs_ok l \<longleftrightarrow>
     (case lib_core l of None \<Rightarrow> \<not> lib_init_done l | Some c \<Rightarrow> candidate_has_required_symbols c) \<and>
     (case lib_nvpair l of None \<Rightarrow> True | Some c \<Rightarrow> nvpair_ok c)"

lemma libs_ok_try_load_lib: "libs_ok l \<Longrightarrow> libs_ok (try_load_lib E l)"
  by (auto simp: libs_ok_def try_load_lib_def dest: load_first_ok split: option.splits)

lemma libs_ok_try_load_nvpair: "libs_ok l \<Longrightarrow> libs_ok (try_load_nvpair E l)"
  by (auto simp: libs_ok_def try_load_nvpair_def dest: load_first_ok split: option.splits)

lemma nvpair_keeps [simp]:
  "lib_core (try_load_nvpair E l) = lib_core l"
  "lib_init_done (try_load_nvpair E l) = lib_init_done l"
  by (auto simp: try_load_nvpair_def split: option.splits)

lemma libs_ok_ensure_init: "libs_ok l \<Longrightarrow> libs_ok (ensure_init E l)"
  using libs_ok_try_load_nvpair [OF libs_ok_try_load_lib, of l E E]
    libs_ok_try_load_lib [of l E]
  by (auto simp: ensure_init_def Let_def libs_ok_def split: option.splits)

lemma ensure_init_idem: "ensure_init E (ensure_init E l) = ensure_init E l"
  by (auto simp: ensure_init_def try_load_lib_def Let_def split: option.splits)

section \<open>What an attempt leaves\<close>

lemma trace_libs [simp]: "trace (s\<lparr>libs := l\<rparr>) = trace s"
  by simp

lemma spec_available [spec_intros]: "(\<And>b. Q b []) \<Longrightarrow> spec (available E) Q R"
  by (auto simp: spec_def available_def Let_def)

lemma spec_op_available [spec_intros]: "(\<And>b. Q b []) \<Longrightarrow> spec (op_available E op ex) Q R"
  by (auto simp: spec_def op_available_def Let_def)

lemmas gate_defs = snapshot_available_def clone_available_def create_zvol_available_def

lemma spec_guarded [spec_intros]:
  assumes "spec gate (\<lambda>_ t. t = []) (\<lambda>_ _. False)" and "spec m Q R"
    and "\<And>msg. R (RuntimeError msg) []"
  shows "spec (guarded gate m) Q R"
  unfolding guarded_def
  by (rule spec_bind, rule spec_mono [OF assms(1)]) (auto intro!: spec_intros assms)

lemma spec_gates:
  "spec (available E) (\<lambda>_ t. t = []) (\<lambda>_ _. False)"
  "spec (snapshot_available E) (\<lambda>_ t. t = []) (\<lambda>_ _. False)"
  "spec (clone_available E) (\<lambda>_ t. t = []) (\<lambda>_ _. False)"
  "spec (create_zvol_available E) (\<lambda>_ t. t = []) (\<lambda>_ _. False)"
  unfolding gate_defs by (auto intro: spec_intros)

text \<open>
  A loop entered after the errno \<open>rc\<close> with \<open>n\<close> attempts left has come to the errno \<open>r\<close>, calling \<open>t\<close>.
\<close>

definition retry_outcome :: "call \<Rightarrow> rat \<Rightarrow> nat \<Rightarrow> int \<Rightarrow> int \<Rightarrow> event list \<Rightarrow> bool" where
  "retry_outcome c d n rc r t \<longleftrightarrow>
     attempts c (\<lambda>rc. rc \<in> RETRYABLE_ERRNOS) d (Suc n) (\<lambda>x. x = Some r) ((c, Some rc) # t) \<and>
     (r \<in> RETRYABLE_ERRNOS \<longrightarrow> (\<exists>u. retried c (\<lambda>rc. rc \<in> RETRYABLE_ERRNOS) d n u \<and>
                                  (c, Some rc) # t = u @ [(c, Some r)]))"

lemma zero_not_retried [simp]: "0 \<notin> RETRYABLE_ERRNOS"
  by (simp add: RETRYABLE_ERRNOS_def EBUSY_def)

lemma retry_outcome_now: "retry_outcome c d 0 rc rc []"
  by (auto simp: retry_outcome_def intro: attempts_first)

lemma retry_outcome_last:
  assumes "rc \<in> RETRYABLE_ERRNOS" and "pause d p" and "r \<notin> RETRYABLE_ERRNOS"
  shows "retry_outcome c d (Suc n) rc r (p @ [(c, Some r)])"
  using assms attempts_again [where ok = "\<lambda>rc. rc \<in> RETRYABLE_ERRNOS" and rc = rc and c = c and n = "Suc n", OF assms(1,2)
      attempts_first [of "\<lambda>x. x = Some r" "Some r" "Suc n"]]
  by (simp add: retry_outcome_def)

lemma retry_outcome_again:
  assumes "rc \<in> RETRYABLE_ERRNOS" and "pause d p" and "retry_outcome c d n rc' r u"
  shows "retry_outcome c d (Suc n) rc r (p @ (c, Some rc') # u)"
proof -
  have "\<exists>v. retried c (\<lambda>rc. rc \<in> RETRYABLE_ERRNOS) d (Suc n) v \<and> (c, Some rc) # p @ (c, Some rc') # u = v @ [(c, Some r)]"
    if "r \<in> RETRYABLE_ERRNOS"
  proof -
    from assms(3) that obtain v where "retried c (\<lambda>rc. rc \<in> RETRYABLE_ERRNOS) d n v" "(c, Some rc') # u = v @ [(c, Some r)]"
      by (auto simp: retry_outcome_def)
    then show ?thesis using assms(1,2) by (intro exI [of _ "(c, Some rc) # p @ v"]) auto
  qed
  with assms show ?thesis by (simp add: retry_outcome_def attempts_again)
qed

text \<open>
  An attempt makes one call, returns the errno it recorded, and raises only when its gate
  refused it or the call itself raised.
\<close>

locale errno_attempt =
  fixes attempt :: "('w, int) prog" and c :: call
  assumes one_call:
    "spec attempt (\<lambda>rc t. t = [(c, Some rc)]) (\<lambda>_ t. t = [] \<or> t = [(c, None)])"
begin

lemma retry_loop_spec:
  "rc \<in> RETRYABLE_ERRNOS \<Longrightarrow>
   spec (retry_loop E attempt d n rc) (\<lambda>r t. retry_outcome c d n rc r t) (\<lambda>_ t. \<forall>e \<in> set t. fst e = c \<or> fst e = Sleep d)"
proof (induction n arbitrary: rc)
  case 0
  show ?case by (auto intro!: spec_ret retry_outcome_now)
next
  case (Suc n)
  have pausing: "spec (only_if (d > 0) (sleep E d)) (\<lambda>_ p. pause d p) (\<lambda>_ p. p = [(Sleep d, None)])"
    by (intro spec_intros) (auto simp: pause_def)
  have after: "spec (if rc' = 0 then ret 0 else if rc' \<notin> RETRYABLE_ERRNOS then ret rc' else retry_loop E attempt d n rc')
      (\<lambda>r u. retry_outcome c d (Suc n) rc r (p @ [(c, Some rc')] @ u))
      (\<lambda>_ u. \<forall>e \<in> set (p @ [(c, Some rc')] @ u). fst e = c \<or> fst e = Sleep d)"
    if p: "pause d p" for p rc'
    using retry_outcome_last [OF Suc.prems p, of 0] retry_outcome_last [OF Suc.prems p, of rc']
      retry_outcome_again [OF Suc.prems p] pause_events [OF p]
    by (intro spec_if spec_ret spec_mono [OF Suc.IH]) auto
  show ?case
    unfolding retry_loop.simps
    by (rule spec_andthen, rule spec_mono [OF pausing], rule spec_bind, rule spec_mono [OF one_call])
      (use after in \<open>auto dest: pause_events\<close>)
qed

text \<open>
  With retries: the errno returned is that of the last attempt; there are at most \<open>n\<close>
  attempts, every one before the last returned a retryable errno and was followed by a
  pause; and a retryable errno is returned only when all \<open>n\<close> attempts were used.
\<close>

lemma with_retry_spec:
  assumes "0 < n"
  shows "spec (with_retry E attempt n d)
     (\<lambda>r t. attempts c (\<lambda>rc. rc \<in> RETRYABLE_ERRNOS) d n (\<lambda>x. x = Some r) t \<and>
            (r \<in> RETRYABLE_ERRNOS \<longrightarrow> (\<exists>u. retried c (\<lambda>rc. rc \<in> RETRYABLE_ERRNOS) d (n - 1) u \<and>
                                         t = u @ [(c, Some r)])))
     (\<lambda>_ t. \<forall>e \<in> set t. fst e = c \<or> fst e = Sleep d)"
proof -
  obtain m where n: "n = Suc m" using assms by (cases n) auto
  show ?thesis
    unfolding with_retry_def n
    by (rule spec_bind, rule spec_mono [OF one_call])
      (auto intro!: spec_if spec_ret spec_mono [OF retry_loop_spec] intro: attempts_first simp: retry_outcome_def)
qed

lemma with_retry_calls:
  "0 < n \<Longrightarrow> emits (\<lambda>e. fst e = c \<or> fst e = Sleep d) (with_retry E attempt n d)"
  unfolding emits_def
  by (rule spec_mono [OF with_retry_spec]) (auto dest: attempts_events)

end

lemma guarded_one_call:
  "spec gate (\<lambda>_ t. t = []) (\<lambda>_ _. False) \<Longrightarrow>
   errno_attempt (guarded gate (perform c (\<lambda>rc. rc) f)) c"
  by unfold_locales (intro spec_guarded spec_perform; simp)

interpretation destroying: errno_attempt "destroy_one E name" "LzcDestroy name" for E :: "'w env" and name
  unfolding destroy_one_def by (rule guarded_one_call [OF spec_gates(1)])

interpretation snapshotting: errno_attempt "lzc_snapshot E snap" "LzcSnapshot snap" for E :: "'w env" and snap
  unfolding lzc_snapshot_def by (rule guarded_one_call [OF spec_gates(2)])

interpretation cloning: errno_attempt "lzc_clone E fs og" "LzcClone fs og" for E :: "'w env" and fs og
  unfolding lzc_clone_def by (rule guarded_one_call [OF spec_gates(3)])

interpretation creating: errno_attempt "lzc_create_zvol E name sz blk"
  "LzcCreate name (uint64 (round_volsize sz blk)) (uint64 blk)" for E :: "'w env" and name sz blk
  unfolding lzc_create_zvol_def Let_def by (rule guarded_one_call [OF spec_gates(4)])

section \<open>The rounding\<close>

lemma round_volsize_multiple: "0 < blk \<Longrightarrow> round_volsize sz blk mod blk = 0"
  by (simp add: round_volsize_def)

lemma round_volsize_bounds:
  assumes "0 < blk"
  shows "sz \<le> round_volsize sz blk \<and> round_volsize sz blk < sz + blk"
proof -
  have "((sz + blk - 1) div blk) * blk = sz + blk - 1 - (sz + blk - 1) mod blk"
    by (simp add: minus_mod_eq_div_mult)
  moreover have "0 \<le> (sz + blk - 1) mod blk" "(sz + blk - 1) mod blk < blk"
    using assms by (rule pos_mod_sign, rule pos_mod_bound)
  ultimately have "sz \<le> (sz + blk - 1) div blk * blk" "(sz + blk - 1) div blk * blk < sz + blk"
    by linarith+
  with assms show ?thesis by (simp add: round_volsize_def)
qed

end
