(* ===== verification/ZfsOps.thy ===== *)
theory ZfsOps
  imports Lzc
begin

text \<open>
  \<^verbatim>\<open>src/src/volume/zfs_operations.py\<close> after the command runner: the tables of property
  values, names, the queries and their parsers, and the operations that change a pool, each
  with its libzfs_core path and its fallback to the zfs tool.
\<close>

section \<open>Property tables\<close>

definition VALID_COMPRESSION :: "string list" where
  "VALID_COMPRESSION = [''off'', ''on'', ''lz4'', ''zstd'', ''zstd-fast'', ''gzip'', ''gzip-1'',
     ''gzip-2'', ''gzip-3'', ''gzip-4'', ''gzip-5'', ''gzip-6'', ''gzip-7'', ''gzip-8'', ''gzip-9'',
     ''zle'', ''lzjb'']"

definition VALID_COPIES :: "string list" where "VALID_COPIES = [''1'', ''2'', ''3'']"
definition VALID_SYNC :: "string list" where "VALID_SYNC = [''standard'', ''always'', ''disabled'']"
definition VALID_ATIME :: "string list" where "VALID_ATIME = [''on'', ''off'']"
definition VALID_CACHE :: "string list" where "VALID_CACHE = [''all'', ''metadata'', ''none'']"
definition VALID_LOGBIAS :: "string list" where "VALID_LOGBIAS = [''latency'', ''throughput'']"
definition VALID_PROVISIONING :: "string list" where "VALID_PROVISIONING = [''thin'', ''thick'']"

definition VALID_VOLBLOCKSIZE :: "(string \<times> int) list" where
  "VALID_VOLBLOCKSIZE = [(''4K'', 4096), (''8K'', 8192), (''16K'', 16384), (''32K'', 32768),
     (''64K'', 65536), (''128K'', 131072)]"

definition VALID_MUTABLE_VALUES :: "(string \<times> string list) list" where
  "VALID_MUTABLE_VALUES = [(''compression'', VALID_COMPRESSION), (''copies'', VALID_COPIES),
     (''sync'', VALID_SYNC), (''primarycache'', VALID_CACHE), (''secondarycache'', VALID_CACHE),
     (''logbias'', VALID_LOGBIAS)]"

definition MUTABLE_ZFS_PROPERTIES :: "string list" where
  "MUTABLE_ZFS_PROPERTIES = map fst VALID_MUTABLE_VALUES"

definition IMMUTABLE_ZFS_PROPERTIES :: "string list" where
  "IMMUTABLE_ZFS_PROPERTIES = [''volblocksize'', ''provisioning'']"

definition ZFS_LIVE_MOUNT_PREFIX :: string where
  "ZFS_LIVE_MOUNT_PREFIX = ''/var/run/sr-mount''"

definition SR_PROPERTY :: string where "SR_PROPERTY = ''xcp:sr''"

section \<open>Names\<close>

definition format_zvol_name :: "string \<Rightarrow> string \<Rightarrow> string" where
  "format_zvol_name pool vol = pool @ ''/'' @ vol"

definition format_snap_name :: "string \<Rightarrow> string \<Rightarrow> string \<Rightarrow> string" where
  "format_snap_name pool vol snap = pool @ ''/'' @ vol @ ''@'' @ snap"

definition dataset_path :: "string \<Rightarrow> string option \<Rightarrow> string" where
  "dataset_path pool ds = (case ds of None \<Rightarrow> pool
     | Some d \<Rightarrow> if d = [] then pool else pool @ ''/'' @ d)"

definition sr_mount_path :: "string \<Rightarrow> string" where
  "sr_mount_path sr_uuid = ZFS_LIVE_MOUNT_PREFIX @ ''/'' @ sr_uuid"

definition dataset_get_parents :: "string \<Rightarrow> string list" where
  "dataset_get_parents name =
     (let parts = split_on CHR ''/'' name in
      map (\<lambda>i. join_with ''/'' (take i parts)) [2..<length parts])"

definition format_volblocksize :: "string \<Rightarrow> exn + string" where
  "format_volblocksize s = (case py_int s of None \<Rightarrow> Inl PyValueError
     | Some v \<Rightarrow> Inr (if v \<ge> 1024 then str_int (v div 1024) @ ''K'' else str_int v))"

section \<open>Parsers of command output\<close>

text \<open>\<^verbatim>\<open>out.strip().splitlines()\<close>.\<close>

definition out_lines :: "string \<Rightarrow> string list" where
  "out_lines out = splitlines (py_strip out)"

fun snapshot_in :: "string \<Rightarrow> string list \<Rightarrow> exn + string option" where
  "snapshot_in snap_id [] = Inr None"
| "snapshot_in snap_id (name # rest) =
     (case split_on CHR ''@'' name of
        [_, this_id] \<Rightarrow> if this_id = snap_id then Inr (Some name) else snapshot_in snap_id rest
      | _ \<Rightarrow> Inl PyValueError)"

fun clones_in :: "string \<Rightarrow> string list \<Rightarrow> exn + string list" where
  "clones_in snap [] = Inr []"
| "clones_in snap (entry # rest) =
     (case split_on tab entry of
        [zvol, origin] \<Rightarrow>
          (case clones_in snap rest of
             Inl e \<Rightarrow> Inl e
           | Inr zs \<Rightarrow> Inr (if origin = snap then zvol # zs else zs))
      | _ \<Rightarrow> Inl PyValueError)"

definition pool_of_snapshot :: "string \<Rightarrow> string" where
  "pool_of_snapshot snap = hd (split1 CHR ''@'' (hd (split1 CHR ''/'' snap)))"

definition nodes_in :: "string \<Rightarrow> (string \<times> string) list" where
  "nodes_in out = concat (map (\<lambda>l.
     case split_on tab (py_strip l) of a # b # _ \<Rightarrow> [(a, b)] | _ \<Rightarrow> []) (splitlines out))"

definition importable_in :: "string \<Rightarrow> string \<Rightarrow> bool" where
  "importable_in pool out = list_ex (\<lambda>l. let l = py_strip l in
     startswith l ''pool:'' \<and> py_strip (last (split1 CHR '':'' l)) = pool) (out_lines out)"

definition normal_source :: "string \<Rightarrow> string" where
  "normal_source src = (if startswith src ''inherited'' then ''inherited'' else src)"

definition batch_in :: "string \<Rightarrow> (string \<times> (string \<times> string)) list" where
  "batch_in out = foldl (\<lambda>props l.
     case split_on tab l of
       p # v # s # _ \<Rightarrow> dset p (v, normal_source s) props
     | _ \<Rightarrow> props) [] (out_lines out)"

definition no_limit :: "string list" where "no_limit = [''0'', ''none'']"
definition no_reservation :: "string list" where "no_reservation = [''0'', ''none'', ''-'', []]"

text \<open>The keys of \<^verbatim>\<open>vol_get_zfs_properties_dict\<close> from the batch; an exception keeps those so far.\<close>

definition provisioning_of :: "string \<Rightarrow> string" where
  "provisioning_of refres =
     (if refres \<in> set no_reservation then ''thin''
      else case py_int refres of
             None \<Rightarrow> ''thin''
           | Some v \<Rightarrow> if v > 0 then ''thick'' else ''thin'')"

definition properties_dict :: "(string \<times> (string \<times> string)) list \<Rightarrow> (string \<times> string) list" where
  "properties_dict props =
     (let k1 = (case dget props ''refreservation'' of None \<Rightarrow> []
                | Some (v, _) \<Rightarrow> [(''provisioning'', provisioning_of v)]);
          mut = (\<lambda>k. foldl (\<lambda>keys p. case dget props p of None \<Rightarrow> keys
                   | Some (v, s) \<Rightarrow> dset (p @ ''_source'') s (dset p v keys))
                 k MUTABLE_ZFS_PROPERTIES) in
      case dget props ''volblocksize'' of
        None \<Rightarrow> mut k1
      | Some (v, _) \<Rightarrow>
          (case format_volblocksize v of
             Inl _ \<Rightarrow> k1
           | Inr shown \<Rightarrow> mut (dset ''volblocksize'' shown k1)))"

section \<open>Queries\<close>

definition lift_sum :: "exn + 'a \<Rightarrow> ('w, 'a) prog" where
  "lift_sum r = (case r of Inl e \<Rightarrow> raise e | Inr x \<Rightarrow> ret x)"

text \<open>\<^verbatim>\<open>try: run_zfs_command(...) / except xapi.InternalError\<close>.\<close>

definition succeeds :: "'w env \<Rightarrow> string list \<Rightarrow> ('w, bool) prog" where
  "succeeds E cmd =
     catch_if is_InternalError (andthen (zfs_cmd E cmd) (ret True)) (\<lambda>_. ret False)"

definition int_cmd :: "'w env \<Rightarrow> string list \<Rightarrow> ('w, int) prog" where
  "int_cmd E cmd = bind (zfs_cmd E cmd) parse_int"

definition vol_exists :: "'w env \<Rightarrow> string \<Rightarrow> ('w, bool) prog" where
  "vol_exists E zvol =
     bind (check_call_rc E [''zfs'', ''list'', ''-H'', zvol]) (\<lambda>rc. ret (rc = 0))"

definition find_snapshot_by_uuid :: "'w env \<Rightarrow> string \<Rightarrow> string \<Rightarrow> ('w, string option) prog" where
  "find_snapshot_by_uuid E pool snap_id =
     bind (zfs_cmd E [''zfs'', ''list'', ''-t'', ''snapshot'', ''-Hp'', ''-o'', ''name'', ''-r'', pool])
       (\<lambda>out. lift_sum (snapshot_in snap_id (out_lines out)))"

definition list_zvol_snapshots :: "'w env \<Rightarrow> string \<Rightarrow> ('w, string list) prog" where
  "list_zvol_snapshots E vol =
     bind (zfs_cmd E [''zfs'', ''list'', ''-Hp'', ''-t'', ''snapshot'', ''-o'', ''name'', vol])
       (\<lambda>out. ret (out_lines out))"

definition find_snapshot_clones :: "'w env \<Rightarrow> string \<Rightarrow> ('w, string list) prog" where
  "find_snapshot_clones E snap =
     bind (zfs_cmd E [''zfs'', ''list'', ''-Hp'', ''-r'', ''-o'', ''name,origin'', pool_of_snapshot snap])
       (\<lambda>out. lift_sum (clones_in snap (out_lines out)))"

definition get_dataset_mountpoint :: "'w env \<Rightarrow> string \<Rightarrow> ('w, string) prog" where
  "get_dataset_mountpoint E pool =
     bind (zfs_cmd E [''zfs'', ''get'', ''mountpoint'', ''-H'', ''-o'', ''value'', pool])
       (\<lambda>out. ret (py_strip out))"

definition pool_is_imported :: "'w env \<Rightarrow> string \<Rightarrow> ('w, bool) prog" where
  "pool_is_imported E pool = succeeds E [''zpool'', ''list'', ''-H'', ''-o'', ''name'', pool]"

definition pool_exists :: "'w env \<Rightarrow> string \<Rightarrow> ('w, bool) prog" where
  "pool_exists E pool =
     bind (pool_is_imported E pool) (\<lambda>imported.
       if imported then ret True
       else catch_if is_InternalError
         (bind (bind (run_zfs_command E [''zpool'', ''import''] False True 0 1 (1 / 10)) simple_out)
            (\<lambda>out. ret (importable_in pool out)))
         (\<lambda>_. ret False))"

definition dataset_exists :: "'w env \<Rightarrow> string \<Rightarrow> ('w, bool) prog" where
  "dataset_exists E ds = succeeds E [''zfs'', ''list'', ''-H'', ''-o'', ''name'', ds]"

definition dataset_is_mounted :: "'w env \<Rightarrow> string \<Rightarrow> ('w, bool) prog" where
  "dataset_is_mounted E ds =
     catch_if is_InternalError
       (bind (zfs_cmd E [''zfs'', ''get'', ''-H'', ''-o'', ''value'', ''mounted'', ds])
          (\<lambda>out. ret (py_strip out = ''yes'')))
       (\<lambda>_. ret False)"

definition get_bytes :: "'w env \<Rightarrow> string \<Rightarrow> string \<Rightarrow> ('w, int) prog" where
  "get_bytes E prop ds = int_cmd E [''zfs'', ''get'', ''-Hp'', ''-o'', ''value'', prop, ds]"

definition dataset_get_used :: "'w env \<Rightarrow> string \<Rightarrow> ('w, int) prog" where
  "dataset_get_used E ds = get_bytes E ''used'' ds"

definition dataset_get_available :: "'w env \<Rightarrow> string \<Rightarrow> ('w, int) prog" where
  "dataset_get_available E ds = get_bytes E ''available'' ds"

definition limit_value :: "string \<Rightarrow> exn + int" where
  "limit_value out = (let r = py_strip out in
     if r \<in> set no_limit then Inr 0
     else case py_int r of None \<Rightarrow> Inl PyValueError | Some v \<Rightarrow> Inr v)"

definition dataset_get_quota :: "'w env \<Rightarrow> string \<Rightarrow> ('w, int) prog" where
  "dataset_get_quota E ds =
     bind (zfs_cmd E [''zfs'', ''get'', ''-Hp'', ''-o'', ''value'', ''quota'', ds])
       (\<lambda>out. lift_sum (limit_value out))"

definition dataset_get_refquota :: "'w env \<Rightarrow> string \<Rightarrow> ('w, int) prog" where
  "dataset_get_refquota E ds =
     bind (zfs_cmd E [''zfs'', ''get'', ''-Hp'', ''-o'', ''value'', ''refquota'', ds])
       (\<lambda>out. lift_sum (limit_value out))"

definition dataset_get_sr_marker :: "'w env \<Rightarrow> string \<Rightarrow> ('w, string option) prog" where
  "dataset_get_sr_marker E ds =
     catch_if is_InternalError
       (bind (zfs_cmd E [''zfs'', ''get'', ''-Hp'', ''-o'', ''value'', SR_PROPERTY, ds])
          (\<lambda>out. let r = py_strip out in
             ret (if r \<noteq> [] \<and> r \<noteq> ''-'' then Some r else None)))
       (\<lambda>_. ret None)"

definition dataset_is_sr :: "'w env \<Rightarrow> string \<Rightarrow> ('w, bool) prog" where
  "dataset_is_sr E ds = bind (dataset_get_sr_marker E ds) (\<lambda>m. ret (m \<noteq> None))"

definition dataset_list_children :: "'w env \<Rightarrow> string \<Rightarrow> ('w, string list) prog" where
  "dataset_list_children E ds =
     catch_if is_InternalError
       (bind (zfs_cmd E [''zfs'', ''list'', ''-Hr'', ''-o'', ''name'', ''-t'', ''filesystem'', ds])
          (\<lambda>out. ret (drop 1 (out_lines out))))
       (\<lambda>_. ret [])"

definition names_of :: "'w env \<Rightarrow> string list \<Rightarrow> ('w, string list) prog" where
  "names_of E cmd =
     catch_if is_InternalError
       (bind (zfs_cmd E cmd) (\<lambda>out. ret (filter (\<lambda>l. l \<noteq> []) (out_lines out))))
       (\<lambda>_. ret [])"

definition dataset_list_zvols :: "'w env \<Rightarrow> string \<Rightarrow> ('w, string list) prog" where
  "dataset_list_zvols E ds = names_of E [''zfs'', ''list'', ''-Hd1'', ''-t'', ''volume'', ''-o'', ''name'', ds]"

definition dataset_list_snapshots :: "'w env \<Rightarrow> string \<Rightarrow> ('w, string list) prog" where
  "dataset_list_snapshots E ds = names_of E [''zfs'', ''list'', ''-Hd2'', ''-t'', ''snapshot'', ''-o'', ''name'', ds]"

fun child_srs_in :: "'w env \<Rightarrow> string \<Rightarrow> string list \<Rightarrow> ('w, string list) prog" where
  "child_srs_in E pre [] = ret []"
| "child_srs_in E pre (ds # rest) =
     bind (if startswith ds pre then dataset_is_sr E ds else ret False) (\<lambda>sr.
     bind (child_srs_in E pre rest) (\<lambda>more_srs.
       ret (if sr then ds # more_srs else more_srs)))"

definition dataset_find_child_srs :: "'w env \<Rightarrow> string \<Rightarrow> string \<Rightarrow> ('w, string list) prog" where
  "dataset_find_child_srs E pool path =
     catch_if is_InternalError
       (bind (zfs_cmd E [''zfs'', ''list'', ''-Hr'', ''-o'', ''name'', ''-t'', ''filesystem'', pool])
          (\<lambda>out. child_srs_in E (path @ ''/'') (out_lines out)))
       (\<lambda>_. ret [])"

definition pool_get_ashift :: "'w env \<Rightarrow> string \<Rightarrow> ('w, int) prog" where
  "pool_get_ashift E pool = int_cmd E [''zpool'', ''get'', ''-Hp'', ''-o'', ''value'', ''ashift'', pool]"

definition get_pool_total_bytes :: "'w env \<Rightarrow> string \<Rightarrow> ('w, int) prog" where
  "get_pool_total_bytes E pool = int_cmd E [''zpool'', ''get'', ''-Hp'', ''-o'', ''value'', ''size'', pool]"

definition get_pool_free_bytes :: "'w env \<Rightarrow> string \<Rightarrow> ('w, int) prog" where
  "get_pool_free_bytes E pool = int_cmd E [''zpool'', ''get'', ''-Hp'', ''-o'', ''value'', ''free'', pool]"

definition get_zvol_used_bytes :: "'w env \<Rightarrow> string \<Rightarrow> ('w, int) prog" where
  "get_zvol_used_bytes E vol = get_bytes E ''used'' vol"

definition get_zvol_size_bytes :: "'w env \<Rightarrow> string \<Rightarrow> ('w, int) prog" where
  "get_zvol_size_bytes E vol = get_bytes E ''volsize'' vol"

definition vol_get_property :: "'w env \<Rightarrow> string \<Rightarrow> string \<Rightarrow> ('w, string) prog" where
  "vol_get_property E vol prop =
     bind (zfs_cmd E [''zfs'', ''get'', ''-Hp'', ''-o'', ''value'', prop, vol]) (\<lambda>out. ret (py_strip out))"

definition vol_get_property_with_source :: "'w env \<Rightarrow> string \<Rightarrow> string \<Rightarrow> ('w, string \<times> string) prog" where
  "vol_get_property_with_source E vol prop =
     bind (zfs_cmd E [''zfs'', ''get'', ''-H'', ''-o'', ''value,source'', prop, vol]) (\<lambda>out.
       let parts = split_on tab (py_strip out);
           source = (case parts of _ # s # _ \<Rightarrow> s | _ \<Rightarrow> ''unknown'') in
       ret (hd parts, normal_source source))"

definition vol_get_refreservation :: "'w env \<Rightarrow> string \<Rightarrow> ('w, int) prog" where
  "vol_get_refreservation E vol =
     bind (vol_get_property E vol ''refreservation'') (\<lambda>r.
       if r \<in> set no_reservation then ret 0 else parse_int r)"

definition vol_get_properties_batch ::
  "'w env \<Rightarrow> string \<Rightarrow> string list \<Rightarrow> ('w, (string \<times> (string \<times> string)) list) prog" where
  "vol_get_properties_batch E vol props =
     bind (zfs_cmd E [''zfs'', ''get'', ''-Hp'', ''-o'', ''property,value,source'',
                      join_with '','' props, vol]) (\<lambda>out. ret (batch_in out))"

definition vol_get_zfs_properties_dict :: "'w env \<Rightarrow> string \<Rightarrow> ('w, (string \<times> string) list) prog" where
  "vol_get_zfs_properties_dict E vol =
     catch (bind (vol_get_properties_batch E vol
                    ([''refreservation'', ''volblocksize''] @
                     [''compression'', ''copies'', ''logbias'', ''primarycache'', ''secondarycache'', ''sync'']))
              (\<lambda>props. ret (properties_dict props)))
       (\<lambda>_. ret [])"

end
