(* ===== verification/ZfsChange.thy ===== *)
theory ZfsChange
  imports ZfsOps
begin

text \<open>
  The operations of \<^verbatim>\<open>src/src/volume/zfs_operations.py\<close> that change a pool, and what can be
  said of the calls they make: which path they take, in which order, and that the queries
  change nothing.
\<close>

section \<open>Pools and datasets\<close>

definition run_unit :: "'w env \<Rightarrow> string list \<Rightarrow> ('w, unit) prog" where
  "run_unit E cmd = andthen (zfs_cmd E cmd) (ret ())"

definition run_unit_retry :: "'w env \<Rightarrow> string list \<Rightarrow> ('w, unit) prog" where
  "run_unit_retry E cmd = andthen (zfs_cmd_retry E cmd) (ret ())"

definition create_pool :: "'w env \<Rightarrow> string \<Rightarrow> string list \<Rightarrow> ('w, unit) prog" where
  "create_pool E pool vdevs = run_unit E ([''zpool'', ''create'', pool] @ vdevs)"

definition import_pool :: "'w env \<Rightarrow> string \<Rightarrow> ('w, unit) prog" where
  "import_pool E pool = run_unit E [''zpool'', ''import'', pool]"

definition export_pool :: "'w env \<Rightarrow> string \<Rightarrow> ('w, unit) prog" where
  "export_pool E pool = run_unit E [''zpool'', ''export'', pool]"

definition destroy_pool :: "'w env \<Rightarrow> string \<Rightarrow> ('w, unit) prog" where
  "destroy_pool E pool = run_unit_retry E [''zpool'', ''destroy'', pool]"

definition dataset_create :: "'w env \<Rightarrow> string \<Rightarrow> bool \<Rightarrow> ('w, unit) prog" where
  "dataset_create E ds create_parents =
     andthen
       (only_if create_parents
         (for_each (\<lambda>parent. bind (dataset_exists E parent) (\<lambda>ex.
            only_if (\<not> ex) (run_unit E [''zfs'', ''create'', ''-o'', ''mountpoint=none'', parent])))
          (dataset_get_parents ds)))
       (run_unit E [''zfs'', ''create'', ds])"

definition dataset_set_mountpoint :: "'w env \<Rightarrow> string \<Rightarrow> string \<Rightarrow> ('w, unit) prog" where
  "dataset_set_mountpoint E ds path = run_unit E [''zfs'', ''set'', ''mountpoint='' @ path, ds]"

definition dataset_mount :: "'w env \<Rightarrow> string \<Rightarrow> ('w, unit) prog" where
  "dataset_mount E ds = run_unit E [''zfs'', ''mount'', ds]"

definition dataset_unmount :: "'w env \<Rightarrow> string \<Rightarrow> ('w, unit) prog" where
  "dataset_unmount E ds = run_unit E [''zfs'', ''unmount'', ds]"

definition dataset_set_sr_marker :: "'w env \<Rightarrow> string \<Rightarrow> string \<Rightarrow> ('w, unit) prog" where
  "dataset_set_sr_marker E ds sr_uuid = run_unit E [''zfs'', ''set'', SR_PROPERTY @ ''='' @ sr_uuid, ds]"

definition dataset_set_properties ::
  "'w env \<Rightarrow> string \<Rightarrow> (string \<times> string option) list \<Rightarrow> ('w, unit) prog" where
  "dataset_set_properties E ds props =
     for_each (\<lambda>(p, v). case v of None \<Rightarrow> ret ()
                | Some x \<Rightarrow> run_unit E [''zfs'', ''set'', p @ ''='' @ x, ds]) props"

definition ENOENT :: int where "ENOENT = 2"

definition lzc_error :: "'w env \<Rightarrow> string \<Rightarrow> int \<Rightarrow> exn" where
  "lzc_error E what rc =
     InternalError (what @ '' failed: errno '' @ str_int rc @ '' ('' @ errno_to_str E rc @ '')'')"

text \<open>One node of the recursive destroy: unmount a mounted filesystem, then destroy.\<close>

definition destroy_node :: "'w env \<Rightarrow> string \<Rightarrow> string \<times> string \<Rightarrow> ('w, unit) prog" where
  "destroy_node E ds node =
     andthen
       (only_if (snd node = ''filesystem'')
         (catch (bind (dataset_is_mounted E (fst node)) (\<lambda>mounted.
                   only_if mounted (dataset_unmount E (fst node))))
            (\<lambda>exc. raise (InternalError (''lzc recursive destroy of '' @ ds @
               '' cannot proceed: unmount of '' @ fst node @ '' failed'')))))
       (bind (destroy_with_retry E (fst node)) (\<lambda>rc.
          if rc = 0 \<or> rc = ENOENT then ret ()
          else raise (lzc_error E (''lzc recursive destroy of '' @ ds @ '' at '' @ fst node) rc)))"

definition lzc_recursive_destroy :: "'w env \<Rightarrow> string \<Rightarrow> ('w, unit) prog" where
  "lzc_recursive_destroy E ds =
     bind (zfs_cmd E [''zfs'', ''list'', ''-r'', ''-H'', ''-t'', ''all'', ''-o'', ''name,type'', ds])
       (\<lambda>out. for_each (destroy_node E ds) (rev (nodes_in out)))"

definition dataset_destroy :: "'w env \<Rightarrow> string \<Rightarrow> bool \<Rightarrow> ('w, unit) prog" where
  "dataset_destroy E ds recursive =
     bind (available E) (\<lambda>lzc.
       if lzc then
         if recursive then lzc_recursive_destroy E ds
         else bind (destroy_with_retry E ds) (\<lambda>rc.
                if rc = 0 then ret () else raise (lzc_error E (''lzc_destroy('' @ ds @ '')'') rc))
       else run_unit_retry E ([''zfs'', ''destroy''] @ (if recursive then [''-r''] else []) @ [ds]))"

section \<open>Volumes\<close>

text \<open>Optional \<^verbatim>\<open>-o name=value\<close> arguments of \<^verbatim>\<open>zfs create\<close>.\<close>

definition opt_arg :: "string \<Rightarrow> string option \<Rightarrow> string list" where
  "opt_arg name v = (case v of None \<Rightarrow> [] | Some x \<Rightarrow> [''-o'', name @ ''='' @ x])"

record zvol_props =
  zp_copies :: "string option"
  zp_compression :: "string option"
  zp_sync :: "string option"
  zp_primarycache :: "string option"
  zp_logbias :: "string option"

definition no_props :: zvol_props where
  "no_props = \<lparr>zp_copies = None, zp_compression = None, zp_sync = None, zp_primarycache = None,
     zp_logbias = None\<rparr>"

definition create_args :: "string \<Rightarrow> int \<Rightarrow> bool \<Rightarrow> int \<Rightarrow> zvol_props \<Rightarrow> string list" where
  "create_args zvol sz thin blk p =
     [''zfs'', ''create''] @ (if thin then [''-s''] else []) @
     [''-o'', ''volblocksize='' @ str_int blk] @
     opt_arg ''copies'' (zp_copies p) @ opt_arg ''compression'' (zp_compression p) @
     opt_arg ''sync'' (zp_sync p) @ opt_arg ''primarycache'' (zp_primarycache p) @
     opt_arg ''logbias'' (zp_logbias p) @
     [''-V'', str_int sz, zvol]"

definition has_extra_props :: "zvol_props \<Rightarrow> bool" where
  "has_extra_props p \<longleftrightarrow> list_ex (\<lambda>v. v \<noteq> None)
     [zp_copies p, zp_compression p, zp_sync p, zp_primarycache p, zp_logbias p]"

definition set_refreservation :: "'w env \<Rightarrow> string \<Rightarrow> int \<Rightarrow> ('w, unit) prog" where
  "set_refreservation E vol bytes =
     run_unit_retry E [''zfs'', ''set'', ''refreservation='' @ str_int bytes, vol]"

definition create_zvol :: "'w env \<Rightarrow> string \<Rightarrow> int \<Rightarrow> bool \<Rightarrow> int \<Rightarrow> zvol_props \<Rightarrow> ('w, unit) prog" where
  "create_zvol E zvol sz thin blk p =
     bind (if thin \<and> \<not> has_extra_props p then create_zvol_available E else ret False) (\<lambda>lzc.
       if lzc then
         bind (create_zvol_with_retry E zvol sz blk) (\<lambda>rc.
           if rc = 0 then ret () else raise (lzc_error E (''lzc_create('' @ zvol @ '')'') rc))
       else
         andthen (run_unit_retry E (create_args zvol sz thin blk p))
           (only_if (\<not> thin)
             (bind (case zp_copies p of
                      Some c \<Rightarrow> parse_int c
                    | None \<Rightarrow> bind (vol_get_property E zvol ''copies'') parse_int)
                (\<lambda>copies_val. set_refreservation E zvol (sz * copies_val)))))"

definition destroy_zvol :: "'w env \<Rightarrow> string \<Rightarrow> ('w, unit) prog" where
  "destroy_zvol E zvol =
     bind (available E) (\<lambda>lzc.
       if lzc then
         bind (destroy_with_retry E zvol) (\<lambda>rc.
           if rc = 0 then ret () else raise (lzc_error E (''lzc_destroy('' @ zvol @ '')'') rc))
       else run_unit_retry E [''zfs'', ''destroy'', zvol])"

definition promote_clone :: "'w env \<Rightarrow> string \<Rightarrow> ('w, unit) prog" where
  "promote_clone E zvol = run_unit_retry E [''zfs'', ''promote'', zvol]"

definition resize_zvol :: "'w env \<Rightarrow> string \<Rightarrow> int \<Rightarrow> ('w, unit) prog" where
  "resize_zvol E vol new_size = run_unit_retry E [''zfs'', ''set'', ''volsize='' @ str_int new_size, vol]"

definition take_snapshot :: "'w env \<Rightarrow> string \<Rightarrow> ('w, unit) prog" where
  "take_snapshot E snap =
     bind (snapshot_available E) (\<lambda>lzc.
       if lzc then
         bind (snapshot_with_retry E snap) (\<lambda>rc.
           if rc = 0 then ret () else raise (lzc_error E (''lzc_snapshot('' @ snap @ '')'') rc))
       else run_unit_retry E [''zfs'', ''snapshot'', snap])"

definition clone_snapshot :: "'w env \<Rightarrow> string \<Rightarrow> string \<Rightarrow> ('w, unit) prog" where
  "clone_snapshot E snap clone =
     bind (clone_available E) (\<lambda>lzc.
       if lzc then
         bind (clone_with_retry E clone snap) (\<lambda>rc.
           if rc = 0 then ret ()
           else raise (lzc_error E (''lzc_clone('' @ clone @ '' from '' @ snap @ '')'') rc))
       else run_unit_retry E [''zfs'', ''clone'', snap, clone])"

text \<open>The pipeline of two processes: the sender's exit code is looked at first.\<close>

definition vol_send_receive :: "'w env \<Rightarrow> string \<Rightarrow> string \<Rightarrow> ('w, unit) prog" where
  "vol_send_receive E src_snap dest =
     (let send_cmd = [''zfs'', ''send'', ''-c'', src_snap]; recv_cmd = [''zfs'', ''receive'', dest] in
      bind (perform (Pipeline send_cmd recv_cmd) (\<lambda>(s, r). if s \<noteq> 0 then s else r)
              (e_pipeline E send_cmd recv_cmd))
        (\<lambda>(send_rc, recv_rc).
           if send_rc \<noteq> 0 then raise (CalledProcessError send_rc send_cmd)
           else if recv_rc \<noteq> 0 then raise (CalledProcessError recv_rc recv_cmd)
           else ret ()))"

text \<open>A stream to and from a file, and a raw copy of the device. No handler uses them.\<close>

definition vol_send :: "'w env \<Rightarrow> string \<Rightarrow> string \<Rightarrow> string option \<Rightarrow> ('w, unit) prog" where
  "vol_send E zvol_path output_file base_snap =
     (let cmd = (case base_snap of
            Some b \<Rightarrow> if b \<noteq> [] then [''zfs'', ''send'', ''-i'', b, zvol_path] else [''zfs'', ''send'', zvol_path]
          | None \<Rightarrow> [''zfs'', ''send'', zvol_path]) in
      andthen (fs_do E (OpenFor output_file True))
        (bind (redirected E cmd output_file) (\<lambda>(_, rc).
           only_if (rc \<noteq> 0) (raise (InternalError ''zfs send failed'')))))"

definition vol_receive :: "'w env \<Rightarrow> string \<Rightarrow> string \<Rightarrow> ('w, unit) prog" where
  "vol_receive E pool input_file =
     andthen (fs_do E (OpenFor input_file False))
       (bind (redirected E [''zfs'', ''receive'', ''-F'', pool] input_file) (\<lambda>(_, rc).
          only_if (rc \<noteq> 0) (raise (InternalError ''zfs receive failed''))))"

definition vol_copy_raw :: "'w env \<Rightarrow> string \<Rightarrow> string \<Rightarrow> int \<Rightarrow> ('w, unit) prog" where
  "vol_copy_raw E src_zvol_path dest_file block_size =
     bind (popen E [''dd'', ''if=/dev/zvol/'' @ src_zvol_path, ''of='' @ dest_file, ''bs='' @ str_int block_size, ''conv=sparse''])
       (\<lambda>(_, _, rc). only_if (rc \<noteq> 0) (raise (InternalError ''dd copy failed'')))"

definition vol_set_property :: "'w env \<Rightarrow> string \<Rightarrow> string \<Rightarrow> string \<Rightarrow> ('w, unit) prog" where
  "vol_set_property E vol prop v = run_unit_retry E [''zfs'', ''set'', prop @ ''='' @ v, vol]"

definition vol_inherit_property :: "'w env \<Rightarrow> string \<Rightarrow> string \<Rightarrow> ('w, unit) prog" where
  "vol_inherit_property E vol prop = run_unit_retry E [''zfs'', ''inherit'', prop, vol]"

definition vol_sync_thick_refreservation :: "'w env \<Rightarrow> string \<Rightarrow> ('w, unit) prog" where
  "vol_sync_thick_refreservation E vol =
     bind (vol_get_refreservation E vol) (\<lambda>refres.
       only_if (refres > 0)
         (bind (get_zvol_size_bytes E vol) (\<lambda>volsize.
          bind (bind (vol_get_property E vol ''copies'') parse_int) (\<lambda>copies.
            only_if (volsize * copies \<noteq> refres) (set_refreservation E vol (volsize * copies))))))"

definition vol_set_thick_refreservation :: "'w env \<Rightarrow> string \<Rightarrow> ('w, unit) prog" where
  "vol_set_thick_refreservation E vol =
     bind (get_zvol_size_bytes E vol) (\<lambda>volsize.
     bind (bind (vol_get_property E vol ''copies'') parse_int) (\<lambda>copies.
       set_refreservation E vol (volsize * copies)))"

text \<open>\<^verbatim>\<open>recover_vdi_vsize\<close>: the volume as the caller sees it afterwards.\<close>

definition recover_vdi_vsize :: "'w env \<Rightarrow> string \<Rightarrow> string \<Rightarrow> vdi \<Rightarrow> ('w, vdi) prog" where
  "recover_vdi_vsize E opq pool v =
     (case v_vsize (vd_volume v) of
        Some _ \<Rightarrow> ret v
      | None \<Rightarrow>
          bind (get_zvol_size_bytes E (format_zvol_name pool (vd_uuid v))) (\<lambda>sz.
          andthen (db_unit E opq (UpdateVsize (v_id (vd_volume v)) (Some sz)))
            (ret (v\<lparr>vd_volume := (vd_volume v)\<lparr>v_vsize := Some sz\<rparr>\<rparr>))))"

section \<open>Calls that change something\<close>

definition query_cmd :: "string list \<Rightarrow> bool" where
  "query_cmd cmd \<longleftrightarrow> cmd = [''zpool'', ''import''] \<or>
     (hd cmd = ''zfs'' \<or> hd cmd = ''zpool'') \<and> (hd (tl cmd) = ''list'' \<or> hd (tl cmd) = ''get'')"

definition db_changes :: "dbcall \<Rightarrow> bool" where
  "db_changes c = (case c of GetVdi _ \<Rightarrow> False | GetVdiForVolume _ \<Rightarrow> False | GetAllVdis \<Rightarrow> False
     | GetAllCustomKeys \<Rightarrow> False | GetCustomKeys _ \<Rightarrow> False | _ \<Rightarrow> True)"

definition fs_changes :: "fscall \<Rightarrow> bool" where
  "fs_changes c = (case c of Exists _ \<Rightarrow> False | Access _ \<Rightarrow> False | IsDir _ \<Rightarrow> False | ListDir _ \<Rightarrow> False
     | ReadFile _ \<Rightarrow> False | Glob _ \<Rightarrow> False | OpenFor _ writing \<Rightarrow> writing | _ \<Rightarrow> True)"

definition changes :: "call \<Rightarrow> bool" where
  "changes c = (case c of
       Popen cmd \<Rightarrow> \<not> query_cmd cmd
     | CheckCall cmd \<Rightarrow> \<not> query_cmd cmd \<and> hd cmd \<noteq> ''fuser''
     | CheckOutput _ \<Rightarrow> True
     | PopenInput _ _ \<Rightarrow> True
     | Exec _ _ \<Rightarrow> True
     | Stdout _ \<Rightarrow> True
     | Pipeline _ _ \<Rightarrow> True
     | Redirected _ _ \<Rightarrow> True
     | LzcDestroy _ \<Rightarrow> True
     | LzcSnapshot _ \<Rightarrow> True
     | LzcClone _ _ \<Rightarrow> True
     | LzcCreate _ _ _ \<Rightarrow> True
     | UpdateSrMetadata _ _ \<Rightarrow> True
     | Db _ c \<Rightarrow> db_changes c
     | VolumeDestroyCb _ _ \<Rightarrow> True
     | CreateDatabase _ \<Rightarrow> True
     | Fs f \<Rightarrow> fs_changes f
     | Kill _ sig \<Rightarrow> sig \<noteq> 0
     | Qmp _ _ _ \<Rightarrow> True
     | Listen _ \<Rightarrow> True
     | Fork _ _ \<Rightarrow> True
     | Os _ _ \<Rightarrow> True
     | RecvMsg _ \<Rightarrow> True
     | ConnectUnix _ \<Rightarrow> True
     | Relaying _ _ \<Rightarrow> True
     | _ \<Rightarrow> False)"

definition quiet :: "event \<Rightarrow> bool" where
  "quiet e \<longleftrightarrow> \<not> changes (fst e)"

lemmas quiet_simps = quiet_def changes_def query_cmd_def db_changes_def fs_changes_def

text \<open>Entering and leaving contexts changes nothing by itself; the rest only inspects.\<close>

definition admin :: "event \<Rightarrow> bool" where
  "admin e = (case fst e of CtxEnter _ _ \<Rightarrow> True | CtxExit _ _ \<Rightarrow> True | LockEnter _ _ \<Rightarrow> True
     | LockExit _ _ \<Rightarrow> True | DbEnter _ \<Rightarrow> True | DbExit _ _ \<Rightarrow> True | _ \<Rightarrow> False)"

lemma admin_quiet: "admin e \<Longrightarrow> quiet e"
  by (cases "fst e") (auto simp: admin_def quiet_simps)

definition inspects :: "event \<Rightarrow> bool" where
  "inspects e \<longleftrightarrow> quiet e \<and> \<not> admin e"

lemma inspects_quiet: "inspects e \<Longrightarrow> quiet e"
  by (simp add: inspects_def)

lemma emits_inspects_quiet: "emits inspects m \<Longrightarrow> emits quiet m"
  by (erule emits_mono) (rule inspects_quiet)

lemmas inspects_simps = inspects_def admin_def quiet_simps

text \<open>The queries are quiet.\<close>

lemma emits_lift_sum [emits_intros]: "emits A (lift_sum r)"
  by (cases r) (auto simp: lift_sum_def intro: emits_intros)

lemma emits_available [emits_intros]:
  "emits A (available E)" "emits A (op_available E op ex)" "emits A (snapshot_available E)"
  "emits A (clone_available E)" "emits A (create_zvol_available E)"
  unfolding gate_defs emits_def by (auto intro: spec_intros)

named_theorems query_defs "definitions of the queries"

lemmas [query_defs] = succeeds_def int_cmd_def vol_exists_def find_snapshot_by_uuid_def
  list_zvol_snapshots_def find_snapshot_clones_def get_dataset_mountpoint_def pool_is_imported_def
  dataset_exists_def dataset_is_mounted_def get_bytes_def dataset_get_used_def
  dataset_get_available_def dataset_get_quota_def dataset_get_refquota_def
  dataset_get_sr_marker_def dataset_is_sr_def dataset_list_children_def names_of_def
  dataset_list_zvols_def dataset_list_snapshots_def pool_get_ashift_def get_pool_total_bytes_def
  get_pool_free_bytes_def get_zvol_used_bytes_def get_zvol_size_bytes_def vol_get_property_def
  vol_get_property_with_source_def vol_get_refreservation_def vol_get_properties_batch_def
  vol_get_zfs_properties_dict_def

lemma queries_inspect [emits_intros]:
  "emits inspects (vol_exists E a)"
  "emits inspects (find_snapshot_by_uuid E a b)"
  "emits inspects (list_zvol_snapshots E a)"
  "emits inspects (find_snapshot_clones E a)"
  "emits inspects (get_dataset_mountpoint E a)"
  "emits inspects (pool_is_imported E a)"
  "emits inspects (dataset_exists E a)"
  "emits inspects (dataset_is_mounted E a)"
  "emits inspects (dataset_get_used E a)"
  "emits inspects (dataset_get_available E a)"
  "emits inspects (dataset_get_quota E a)"
  "emits inspects (dataset_get_refquota E a)"
  "emits inspects (dataset_get_sr_marker E a)"
  "emits inspects (dataset_is_sr E a)"
  "emits inspects (dataset_list_children E a)"
  "emits inspects (dataset_list_zvols E a)"
  "emits inspects (dataset_list_snapshots E a)"
  "emits inspects (pool_get_ashift E a)"
  "emits inspects (get_pool_total_bytes E a)"
  "emits inspects (get_pool_free_bytes E a)"
  "emits inspects (get_zvol_used_bytes E a)"
  "emits inspects (get_zvol_size_bytes E a)"
  "emits inspects (vol_get_property E a b)"
  "emits inspects (vol_get_property_with_source E a b)"
  "emits inspects (vol_get_refreservation E a)"
  "emits inspects (vol_get_properties_batch E a ps)"
  "emits inspects (vol_get_zfs_properties_dict E a)"
  unfolding query_defs Let_def by (intro emits_intros; simp add: inspects_simps)+

lemmas queries_quiet [emits_intros] = queries_inspect [THEN emits_inspects_quiet]

lemma child_srs_quiet [emits_intros]: "emits quiet (child_srs_in E pre dss)"
  by (induction dss) (auto intro!: emits_intros)

lemma find_child_srs_quiet [emits_intros]: "emits quiet (dataset_find_child_srs E pool path)"
  unfolding dataset_find_child_srs_def by (intro emits_intros; simp add: quiet_simps)

lemma pool_exists_quiet [emits_intros]: "emits quiet (pool_exists E pool)"
  unfolding pool_exists_def
  by (intro emits_intros emits_run_zfs_command; simp add: quiet_simps)

section \<open>The footprint of a changing operation\<close>

text \<open>
  \<open>tried A t\<close>: only calls in \<open>A\<close> and pauses were made; \<open>acted A t\<close>: and the last of them is
  a call in \<open>A\<close> that succeeded.
\<close>

definition is_sleep :: "call \<Rightarrow> bool" where
  "is_sleep c = (case c of Sleep _ \<Rightarrow> True | _ \<Rightarrow> False)"

definition tried :: "(call \<Rightarrow> bool) \<Rightarrow> event list \<Rightarrow> bool" where
  "tried A t \<longleftrightarrow> (\<forall>e \<in> set t. A (fst e) \<or> is_sleep (fst e))"

definition acted :: "(call \<Rightarrow> bool) \<Rightarrow> event list \<Rightarrow> bool" where
  "acted A t \<longleftrightarrow> tried A t \<and> (\<exists>u c. t = u @ [(c, Some 0)] \<and> A c)"

lemma acted_tried: "acted A t \<Longrightarrow> tried A t"
  by (simp add: acted_def)

lemma acted_one: "A c \<Longrightarrow> acted A [(c, Some 0)]"
  by (simp add: acted_def tried_def)

lemma tried_Nil [simp]: "tried A []"
  by (simp add: tried_def)

lemma tried_append [simp]: "tried A (t @ u) \<longleftrightarrow> tried A t \<and> tried A u"
  by (auto simp: tried_def)

lemma tried_Cons [simp]: "tried A (e # u) \<longleftrightarrow> (A (fst e) \<or> is_sleep (fst e)) \<and> tried A u"
  by (auto simp: tried_def)

lemma attempts_tried: "attempts c ok d n fin t \<Longrightarrow> A c \<Longrightarrow> tried A t"
  unfolding tried_def is_sleep_def by (auto dest: attempts_events)

lemma interrupted_tried: "interrupted c ok d n t \<Longrightarrow> A c \<Longrightarrow> tried A t"
  unfolding tried_def is_sleep_def by (auto dest: interrupted_events)

lemma attempts_acted: "attempts c ok d n (\<lambda>r. r = Some 0) t \<Longrightarrow> A c \<Longrightarrow> acted A t"
  unfolding acted_def using attempts_tried [of c ok d n "\<lambda>r. r = Some 0" t A]
  by (auto elim: attemptsE)

lemma spec_zfs_cmd_retry:
  "A (Popen cmd) \<Longrightarrow> spec (zfs_cmd_retry E cmd) (\<lambda>_ t. acted A t) (\<lambda>_ t. tried A t)"
  unfolding zfs_cmd_retry_def run_zfs_command_with_retry_def
proof (rule spec_bind, rule spec_mono [OF spec_run_zfs_command])
  fix x t
  assume "A (Popen cmd)"
    and "attempts (Popen cmd) (\<lambda>rc. rc \<noteq> 0 \<and> rc \<noteq> 2) (1 / 10) 10 (\<lambda>r. r = Some 0) t"
  then have "acted A t" by (simp add: attempts_acted)
  then show "spec (simple_out x) (\<lambda>_ u. acted A (t @ u)) (\<lambda>_ u. tried A (t @ u))"
    by (cases x) (auto simp: simple_out_def acted_tried intro!: spec_intros)
qed (auto intro: attempts_tried interrupted_tried)

lemma spec_run_unit_retry:
  "A (Popen cmd) \<Longrightarrow> spec (run_unit_retry E cmd) (\<lambda>_ t. acted A t) (\<lambda>_ t. tried A t)"
  unfolding run_unit_retry_def
  by (rule spec_andthen, rule spec_mono [OF spec_zfs_cmd_retry]) (auto intro!: spec_intros)

lemma spec_run_unit:
  "A (Popen cmd) \<Longrightarrow> spec (run_unit E cmd) (\<lambda>_ t. acted A t) (\<lambda>_ t. tried A t)"
  unfolding run_unit_def by (auto intro!: spec_intros acted_one)

lemma emits_run_unit [emits_intros]: "(\<And>r. A (Popen cmd, r)) \<Longrightarrow> emits A (run_unit E cmd)"
  unfolding run_unit_def by (intro emits_intros)

lemma emits_run_unit_retry [emits_intros]:
  "(\<And>r. A (Popen cmd, r)) \<Longrightarrow> (\<And>r. A (Sleep (1 / 10), r)) \<Longrightarrow> emits A (run_unit_retry E cmd)"
  unfolding run_unit_retry_def by (intro emits_intros)

text \<open>The pattern gate, libzfs_core call, fallback.\<close>

lemma spec_lzc_or_cli:
  assumes gate: "spec gate (\<lambda>_ t. t = []) (\<lambda>_ _. False)"
    and m: "spec m (\<lambda>rc t. attempts c (\<lambda>rc. rc \<in> RETRYABLE_ERRNOS) d n (\<lambda>x. x = Some rc) t \<and> P rc t)
              (\<lambda>_ t. \<forall>e \<in> set t. fst e = c \<or> fst e = Sleep d)"
    and "A c" and "A (Popen cmd)"
  shows "spec (bind gate (\<lambda>lzc.
       if lzc then bind m (\<lambda>rc. if rc = 0 then ret () else raise (f rc))
       else run_unit_retry E cmd))
     (\<lambda>_ t. acted A t) (\<lambda>_ t. tried A t)"
proof (rule spec_bind, rule spec_mono [OF gate])
  fix b :: bool and t :: "event list"
  assume t: "t = []"
  have "spec (bind m (\<lambda>rc. if rc = 0 then ret () else raise (f rc))) (\<lambda>_ t. acted A t) (\<lambda>_ t. tried A t)"
  proof (rule spec_bind, rule spec_mono [OF m])
    fix rc t
    assume "attempts c (\<lambda>rc. rc \<in> RETRYABLE_ERRNOS) d n (\<lambda>x. x = Some rc) t \<and> P rc t"
    with assms(3) show "spec (if rc = 0 then ret () else raise (f rc))
        (\<lambda>_ u. acted A (t @ u)) (\<lambda>_ u. tried A (t @ u))"
      by (auto intro!: spec_intros intro: attempts_acted attempts_tried)
  qed (use assms(3) in \<open>auto simp: tried_def is_sleep_def\<close>)
  with t show "spec (if b then bind m (\<lambda>rc. if rc = 0 then ret () else raise (f rc))
       else run_unit_retry E cmd) (\<lambda>_ u. acted A (t @ u)) (\<lambda>_ u. tried A (t @ u))"
    by (auto intro: spec_run_unit_retry [where A = A, OF assms(4)])
qed simp

text \<open>Which calls destroy, snapshot, clone, promote.\<close>

definition at_destroy :: "string \<Rightarrow> call \<Rightarrow> bool" where
  "at_destroy z c \<longleftrightarrow> c = LzcDestroy z \<or> c = Popen [''zfs'', ''destroy'', z]"

definition at_snapshot :: "string \<Rightarrow> call \<Rightarrow> bool" where
  "at_snapshot sn c \<longleftrightarrow> c = LzcSnapshot sn \<or> c = Popen [''zfs'', ''snapshot'', sn]"

definition at_clone :: "string \<Rightarrow> string \<Rightarrow> call \<Rightarrow> bool" where
  "at_clone sn cl c \<longleftrightarrow> c = LzcClone cl sn \<or> c = Popen [''zfs'', ''clone'', sn, cl]"

lemma spec_destroy_zvol:
  "spec (destroy_zvol E z) (\<lambda>_ t. acted (at_destroy z) t) (\<lambda>_ t. tried (at_destroy z) t)"
  unfolding destroy_zvol_def destroy_with_retry_def
  by (rule spec_lzc_or_cli [OF spec_gates(1) destroying.with_retry_spec]) (auto simp: at_destroy_def)

lemma spec_take_snapshot:
  "spec (take_snapshot E sn) (\<lambda>_ t. acted (at_snapshot sn) t) (\<lambda>_ t. tried (at_snapshot sn) t)"
  unfolding take_snapshot_def snapshot_with_retry_def
  by (rule spec_lzc_or_cli [OF spec_gates(2) snapshotting.with_retry_spec]) (auto simp: at_snapshot_def)

lemma spec_clone_snapshot:
  "spec (clone_snapshot E sn cl) (\<lambda>_ t. acted (at_clone sn cl) t) (\<lambda>_ t. tried (at_clone sn cl) t)"
  unfolding clone_snapshot_def clone_with_retry_def
  by (rule spec_lzc_or_cli [OF spec_gates(3) cloning.with_retry_spec]) (auto simp: at_clone_def)

end
