(* ===== verification/VolumeBase.thy ===== *)
theory VolumeBase
  imports ZfsChange
begin

text \<open>
  What the volume operations share: the image formats of
  \<^verbatim>\<open>src/src/volume/libcow/imageformat.py\<close>, the callbacks of \<^verbatim>\<open>src/src/volume/zfs_live.py\<close>,
  reading the dataset of an SR from its metadata, and the record of a volume as XAPI gets it.
\<close>

section \<open>Image formats\<close>

definition IMAGE_RAW_QDISK :: int where "IMAGE_RAW_QDISK = 3"
definition RAW_QDISK_PREFIX :: string where "RAW_QDISK_PREFIX = ''raw+qdisk://''"

text \<open>A format is its URI prefix; the base class knows the others.\<close>

definition get_format :: "'w env \<Rightarrow> int \<Rightarrow> ('w, string) prog" where
  "get_format E image_type =
     (if image_type = IMAGE_RAW_QDISK then ret RAW_QDISK_PREFIX
      else of_option PyValueError (e_base_formats E image_type))"

definition get_format_by_uri :: "'w env \<Rightarrow> string \<Rightarrow> ('w, string) prog" where
  "get_format_by_uri E uri =
     (if startswith uri RAW_QDISK_PREFIX then ret RAW_QDISK_PREFIX
      else of_option PyValueError
        (List.find (\<lambda>pre. startswith uri pre)
          (List.map_filter (e_base_formats E) [e_image_raw E, e_image_vhd E, e_image_qcow2 E])))"

definition is_raw_qdisk :: "int \<Rightarrow> bool" where
  "is_raw_qdisk image_type \<longleftrightarrow> image_type = IMAGE_RAW_QDISK"

definition image_type_for :: "'w env \<Rightarrow> pyval \<Rightarrow> int" where
  "image_type_for E datapath = (if datapath = PStr ''tapdisk'' then e_image_raw E else IMAGE_RAW_QDISK)"

section \<open>SR metadata and callbacks\<close>

text \<open>\<^verbatim>\<open>dataset_path(meta["zpool"], meta["dataset"])\<close>; the metadata holds strings or null.\<close>

definition key_of :: "pydict \<Rightarrow> string \<Rightarrow> ('w, pyval) prog" where
  "key_of d k = of_option (PyKeyError k) (dget d k)"

definition as_opt_str :: "pyval \<Rightarrow> ('w, string option) prog" where
  "as_opt_str v = (case v of PStr s \<Rightarrow> ret (Some s) | PNone \<Rightarrow> ret None | _ \<Rightarrow> raise PyTypeError)"

definition sr_dataset_of :: "pydict \<Rightarrow> ('w, string) prog" where
  "sr_dataset_of meta =
     bind (bind (key_of meta ''zpool'') as_str) (\<lambda>pool.
     bind (bind (key_of meta ''dataset'') as_opt_str) (\<lambda>ds. ret (dataset_path pool ds)))"

definition file_uri :: "string \<Rightarrow> string" where
  "file_uri sr = ''file://'' @ sr"

definition getVolumeUriPrefix :: "'w env \<Rightarrow> string \<Rightarrow> ('w, string) prog" where
  "getVolumeUriPrefix E opq =
     bind (get_sr_metadata E (file_uri opq)) (\<lambda>meta.
     bind (sr_dataset_of meta) (\<lambda>ds. ret (''zfs-live//dev/zvol/'' @ ds @ ''/'')))"

definition volumeGetPath :: "'w env \<Rightarrow> string \<Rightarrow> string \<Rightarrow> ('w, string) prog" where
  "volumeGetPath E opq name =
     bind (get_sr_metadata E (file_uri opq)) (\<lambda>meta.
     bind (sr_dataset_of meta) (\<lambda>ds. ret (''/dev/zvol/'' @ ds @ ''/'' @ name)))"

section \<open>What XAPI gets\<close>

text \<open>\<^verbatim>\<open>uuid\<close> and \<^verbatim>\<open>key\<close> are the same string in every answer, \<^verbatim>\<open>uri\<close> a list of one.\<close>

record volume_info =
  vi_key :: string
  vi_name :: string
  vi_description :: string
  vi_read_write :: bool
  vi_virtual_size :: "int option"
  vi_physical_utilisation :: int
  vi_uri :: string
  vi_sharable :: bool
  vi_keys :: pydict

definition storage_error :: "string \<Rightarrow> string list \<Rightarrow> exn" where
  "storage_error code msgs = StorageError code msgs"

text \<open>The write context of an SR with its lock and a database transaction.\<close>

definition with_locked_db :: "'w env \<Rightarrow> string \<Rightarrow> ('w, 'a) prog \<Rightarrow> ('w, 'a) prog" where
  "with_locked_db E opq body = with_poll_lock E opq ''gl'' (with_db E opq body)"

definition the_vdi :: "'w env \<Rightarrow> string \<Rightarrow> string \<Rightarrow> ('w, vdi) prog" where
  "the_vdi E opq key = bind (get_vdi_by_id E opq key) (of_option PyAttributeError)"

text \<open>\<^verbatim>\<open>log_pool_tree\<close> runs its listing for the log; a failure of it is the caller's.\<close>

definition log_pool_tree :: "'w env \<Rightarrow> string \<Rightarrow> ('w, unit) prog" where
  "log_pool_tree E pool =
     run_unit E [''zfs'', ''list'', ''-t'', ''all'', ''-Hp'', ''-r'', ''-o'', ''name,origin'', pool]"

section \<open>Their footprint\<close>

lemma spec_key_of [spec_intros]:
  "(\<And>v. Q v []) \<Longrightarrow> R (PyKeyError k) [] \<Longrightarrow> spec (key_of d k) Q R"
  unfolding key_of_def by (rule spec_of_option)

lemma spec_as_opt_str [spec_intros]:
  "(\<And>v. Q v []) \<Longrightarrow> R PyTypeError [] \<Longrightarrow> spec (as_opt_str v) Q R"
  by (cases v) (auto simp: as_opt_str_def intro: spec_ret spec_raise)

lemma spec_sr_dataset_of [spec_intros]:
  "(\<And>ds. Q ds []) \<Longrightarrow> (\<And>e. R e []) \<Longrightarrow> spec (sr_dataset_of meta) Q R"
  unfolding sr_dataset_of_def by (auto intro!: spec_intros)

lemma spec_get_format [spec_intros]:
  "(\<And>f. Q f []) \<Longrightarrow> R PyValueError [] \<Longrightarrow> spec (get_format E it) Q R"
  unfolding get_format_def by (auto intro!: spec_intros)

lemma spec_get_sr_metadata [spec_intros]:
  "(\<And>m. Q m [(GetSrMetadata uri, Some 0)]) \<Longrightarrow> (\<And>e. R e [(GetSrMetadata uri, None)]) \<Longrightarrow>
   spec (get_sr_metadata E uri) Q R"
  unfolding get_sr_metadata_def by (rule spec_call0) auto

lemma emits_pure [emits_intros]:
  "emits A (key_of d k)" "emits A (as_opt_str v)" "emits A (sr_dataset_of meta)" "emits A (get_format E it)"
  unfolding emits_def by (auto intro!: spec_intros)

lemma reads_inspect [emits_intros]:
  "emits inspects (get_sr_metadata E uri)"
  "emits inspects (getVolumeUriPrefix E opq)"
  "emits inspects (uuid4 E)"
  "emits inspects (get_vdi_by_id E opq key)"
  "emits inspects (the_vdi E opq key)"
  "emits inspects (log_pool_tree E pool)"
  unfolding get_sr_metadata_def getVolumeUriPrefix_def uuid4_def get_vdi_by_id_def the_vdi_def
    log_pool_tree_def get_sr_metadata_def
  by (intro emits_intros; simp add: inspects_simps)+

lemmas quiet_reads [emits_intros] = reads_inspect [THEN emits_inspects_quiet]

lemma emits_contexts [emits_intros]:
  "(\<And>e. admin e \<Longrightarrow> A e) \<Longrightarrow> (\<And>o'. emits A (f o')) \<Longrightarrow> emits A (with_volume_context E sr mode f)"
  "(\<And>e. admin e \<Longrightarrow> A e) \<Longrightarrow> emits A m \<Longrightarrow> emits A (with_poll_lock E opq name m)"
  "(\<And>e. admin e \<Longrightarrow> A e) \<Longrightarrow> emits A m \<Longrightarrow> emits A (with_db E opq m)"
  "(\<And>e. admin e \<Longrightarrow> A e) \<Longrightarrow> emits A m \<Longrightarrow> emits A (with_locked_db E opq m)"
  unfolding with_locked_db_def spec_ctx_defs
  by (intro emits_intros; simp add: admin_def)+

end
