(* ===== verification/Order.thy ===== *)
theory Order
  imports VolumeBase
begin

text \<open>
  Ordering properties of traces: a call is made only after others have succeeded. Stated on
  every prefix of the trace, so they hold of runs that raise and of runs cut short as well.
\<close>

section \<open>Calls that need something before them\<close>

text \<open>\<open>guards G P t\<close>: before every event of \<open>t\<close> that satisfies \<open>P\<close>, the trace satisfies \<open>G\<close>.\<close>

definition guards_from :: "event list \<Rightarrow> (event list \<Rightarrow> bool) \<Rightarrow> (event \<Rightarrow> bool) \<Rightarrow> event list \<Rightarrow> bool" where
  "guards_from t G P u \<longleftrightarrow> (\<forall>a e b. u = a @ e # b \<longrightarrow> P e \<longrightarrow> G (t @ a))"

definition guards :: "(event list \<Rightarrow> bool) \<Rightarrow> (event \<Rightarrow> bool) \<Rightarrow> event list \<Rightarrow> bool" where
  "guards G P t \<longleftrightarrow> guards_from [] G P t"

definition lasting :: "(event list \<Rightarrow> bool) \<Rightarrow> bool" where
  "lasting G \<longleftrightarrow> (\<forall>t u. G t \<longrightarrow> G (t @ u))"

lemma guards_from_Nil [simp]: "guards_from t G P []"
  by (simp add: guards_from_def)

lemma guards_from_Cons [simp]:
  "guards_from t G P (e # u) \<longleftrightarrow> (P e \<longrightarrow> G t) \<and> guards_from (t @ [e]) G P u"
proof
  assume l: "guards_from t G P (e # u)"
  have "P e \<longrightarrow> G t" using l unfolding guards_from_def by (metis append_Nil append_Nil2)
  moreover have "guards_from (t @ [e]) G P u"
    unfolding guards_from_def
  proof (intro allI impI)
    fix a e' b assume "u = a @ e' # b" "P e'"
    with l show "G ((t @ [e]) @ a)" unfolding guards_from_def
      by (metis append.assoc append_Cons append_Nil)
  qed
  ultimately show "(P e \<longrightarrow> G t) \<and> guards_from (t @ [e]) G P u" by blast
next
  assume r: "(P e \<longrightarrow> G t) \<and> guards_from (t @ [e]) G P u"
  show "guards_from t G P (e # u)"
    unfolding guards_from_def
  proof (intro allI impI)
    fix a e' b assume s: "e # u = a @ e' # b" "P e'"
    show "G (t @ a)"
    proof (cases a)
      case Nil
      with s r show ?thesis by simp
    next
      case (Cons x a')
      with s have "x = e" "u = a' @ e' # b" by auto
      with r s(2) have "G ((t @ [e]) @ a')" unfolding guards_from_def by blast
      with Cons \<open>x = e\<close> show ?thesis by simp
    qed
  qed
qed

lemma guards_from_append [simp]:
  "guards_from t G P (u @ v) \<longleftrightarrow> guards_from t G P u \<and> guards_from (t @ u) G P v"
  by (induction u arbitrary: t) auto

lemma guards_append: "guards G P (u @ v) \<longleftrightarrow> guards G P u \<and> guards_from u G P v"
  by (simp add: guards_def)

lemma guards_from_none: "\<forall>e \<in> set u. \<not> P e \<Longrightarrow> guards_from t G P u"
  by (induction u arbitrary: t) auto

lemma guards_none: "\<forall>e \<in> set u. \<not> P e \<Longrightarrow> guards G P u"
  by (simp add: guards_def guards_from_none)

lemma guards_from_ready: "lasting G \<Longrightarrow> G t \<Longrightarrow> guards_from t G P u"
  by (induction u arbitrary: t) (auto simp: lasting_def)

lemma guards_from_guards: "(\<And>a. G a \<Longrightarrow> G (t @ a)) \<Longrightarrow> guards G P u \<Longrightarrow> guards_from t G P u"
  by (auto simp: guards_def guards_from_def)

lemma lasting_ex: "(\<And>x. lasting (G x)) \<Longrightarrow> lasting (\<lambda>t. \<exists>x. G x t)"
  by (auto simp: lasting_def)

lemma lasting_mem: "lasting (\<lambda>t. \<exists>e \<in> set t. P e)"
  by (auto simp: lasting_def)

lemma lasting_conj: "lasting G \<Longrightarrow> lasting H \<Longrightarrow> lasting (\<lambda>t. G t \<and> H t)"
  by (auto simp: lasting_def)

lemma lasting_disj: "lasting G \<Longrightarrow> lasting H \<Longrightarrow> lasting (\<lambda>t. G t \<or> H t)"
  by (auto simp: lasting_def)

section \<open>Calls that have succeeded, in order\<close>

text \<open>\<open>did Cs t\<close>: \<open>t\<close> has a successful call for each of \<open>Cs\<close>, one after the other.\<close>

definition did :: "(call \<Rightarrow> bool) list \<Rightarrow> event list \<Rightarrow> bool" where
  "did Cs t \<longleftrightarrow> (\<exists>cs. list_all2 (\<lambda>C c. C c) Cs cs \<and> subseq (map (\<lambda>c. (c, Some 0)) cs) t)"

lemma did_append: "did Cs t \<Longrightarrow> did Ds u \<Longrightarrow> did (Cs @ Ds) (t @ u)"
proof -
  assume "did Cs t" "did Ds u"
  then obtain cs ds where "list_all2 (\<lambda>C c. C c) Cs cs" "subseq (map (\<lambda>c. (c, Some 0)) cs) t"
    and "list_all2 (\<lambda>C c. C c) Ds ds" "subseq (map (\<lambda>c. (c, Some 0)) ds) u"
    unfolding did_def by blast
  then show ?thesis
    unfolding did_def
    by (intro exI [of _ "cs @ ds"]) (simp add: list_all2_appendI list_emb_append_mono)
qed

lemma did_one: "C c \<Longrightarrow> (c, Some 0) \<in> set t \<Longrightarrow> did [C] t"
  unfolding did_def by (intro exI [of _ "[c]"]) (simp add: subseq_singleton_left)

lemma did_oneE: assumes "did [C] t" obtains c where "C c" "(c, Some 0) \<in> set t"
  using assms by (auto simp: did_def list_all2_Cons1 subseq_singleton_left)

lemma did_acted: "acted C t \<Longrightarrow> did [C] t"
  by (auto simp: acted_def intro: did_one)

lemma did_Cons: "acted C t \<Longrightarrow> did Cs u \<Longrightarrow> did (C # Cs) (t @ u)"
  using did_append [of "[C]" t Cs u] by (simp add: did_acted)

lemma did_before: "did Cs t \<Longrightarrow> did Cs (u @ t)"
  using did_append [of "[]" u Cs t] by (simp add: did_def)

lemma did_after: "did Cs t \<Longrightarrow> did Cs (t @ u)"
  using did_append [of Cs t "[]" u] by (simp add: did_def)

lemma did_Cons_event: "did Cs t \<Longrightarrow> did Cs (e # t)"
  using did_before [of Cs t "[e]"] by simp

lemma lasting_did: "lasting (\<lambda>t. did Cs t)"
  by (simp add: lasting_def did_after)

section \<open>Composition\<close>

text \<open>Programs whose runs only extend the trace.\<close>

abbreviation extends :: "('w, 'a) prog \<Rightarrow> bool" where
  "extends m \<equiv> emits (\<lambda>_. True) m"

definition never :: "(event \<Rightarrow> bool) \<Rightarrow> ('w, 'a) prog \<Rightarrow> bool" where
  "never P m \<longleftrightarrow> emits (\<lambda>e. \<not> P e) m"

lemma spec_emits_conj:
  "spec m Q R \<Longrightarrow> emits A m \<Longrightarrow>
   spec m (\<lambda>x t. Q x t \<and> (\<forall>e \<in> set t. A e)) (\<lambda>e t. R e t \<and> (\<forall>e \<in> set t. A e))"
  unfolding emits_def by (rule spec_conj)

text \<open>What a run returned or raised is something the program can return or raise.\<close>

lemma spec_reached:
  assumes "spec m Q R"
  shows "spec m (\<lambda>x t. Q x t \<and> (\<exists>s. fst (m s) = Inr x)) (\<lambda>e t. R e t \<and> (\<exists>s. fst (m s) = Inl e))"
proof (rule specI)
  fix s
  from assms obtain t where "trace (snd (m s)) = trace s @ t"
    and "case fst (m s) of Inr x \<Rightarrow> Q x t | Inl e \<Rightarrow> R e t" by (rule specE)
  then show "\<exists>t. trace (snd (m s)) = trace s @ t \<and>
      (case fst (m s) of Inr x \<Rightarrow> Q x t \<and> (\<exists>s. fst (m s) = Inr x) | Inl e \<Rightarrow> R e t \<and> (\<exists>s. fst (m s) = Inl e))"
    by (auto split: sum.splits)
qed

text \<open>First a part without the guarded calls that establishes the guard, then anything.\<close>

lemma guards_bind:
  assumes "lasting G"
    and "spec m (\<lambda>_ t. G t \<and> (\<forall>e \<in> set t. \<not> P e)) (\<lambda>_ t. \<forall>e \<in> set t. \<not> P e)"
    and "\<And>x. extends (f x)"
  shows "spec (bind m f) (\<lambda>_ t. guards G P t) (\<lambda>_ t. guards G P t)"
proof (rule spec_bind, rule spec_mono [OF assms(2)])
  fix x t
  assume "G t \<and> (\<forall>e \<in> set t. \<not> P e)"
  then have "guards G P (t @ u)" for u
    using assms(1) by (simp add: guards_append guards_none guards_from_ready)
  then show "spec (f x) (\<lambda>_ u. guards G P (t @ u)) (\<lambda>_ u. guards G P (t @ u))"
    by (intro spec_mono [OF assms(3) [unfolded emits_def]]) auto
qed (auto intro: guards_none)

text \<open>First a part without the guarded calls, then a part that respects the guard by itself.\<close>

lemma guards_bind_later:
  assumes "\<And>t a. G a \<Longrightarrow> G (t @ a)"
    and "never P m"
    and "\<And>x. spec (f x) (\<lambda>_ t. guards G P t) (\<lambda>_ t. guards G P t)"
  shows "spec (bind m f) (\<lambda>_ t. guards G P t) (\<lambda>_ t. guards G P t)"
proof (rule spec_bind, rule spec_mono [OF assms(2) [unfolded never_def emits_def]])
  fix x t
  assume "\<forall>e \<in> set t. \<not> P e"
  then show "spec (f x) (\<lambda>_ u. guards G P (t @ u)) (\<lambda>_ u. guards G P (t @ u))"
    by (intro spec_mono [OF assms(3)]) (auto simp: guards_append intro: guards_none guards_from_guards assms(1))
qed (auto intro: guards_none)

text \<open>The same, with a fact about the value the first part returns.\<close>

lemma guards_bind_value:
  assumes "spec m (\<lambda>x t. V x \<and> (\<forall>e \<in> set t. \<not> P e)) (\<lambda>_ t. \<forall>e \<in> set t. \<not> P e)"
    and "\<And>t a. G a \<Longrightarrow> G (t @ a)"
    and "\<And>x. V x \<Longrightarrow> spec (f x) (\<lambda>_ t. guards G P t) (\<lambda>_ t. guards G P t)"
  shows "spec (bind m f) (\<lambda>_ t. guards G P t) (\<lambda>_ t. guards G P t)"
proof (rule spec_bind, rule spec_mono [OF assms(1)])
  fix x t
  assume x: "V x \<and> (\<forall>e \<in> set t. \<not> P e)"
  then show "spec (f x) (\<lambda>_ u. guards G P (t @ u)) (\<lambda>_ u. guards G P (t @ u))"
    by (intro spec_mono [OF assms(3)]) (auto simp: guards_append intro: guards_none guards_from_guards assms(2))
qed (auto intro: guards_none)

text \<open>A part that respects the guard, then one without the guarded calls.\<close>

lemma guards_bind_end:
  assumes "spec m (\<lambda>_ t. guards G P t) (\<lambda>_ t. guards G P t)"
    and "\<And>x. never P (f x)"
  shows "spec (bind m f) (\<lambda>_ t. guards G P t) (\<lambda>_ t. guards G P t)"
proof (rule spec_bind, rule spec_mono [OF assms(1)])
  fix x t
  assume "guards G P t"
  then show "spec (f x) (\<lambda>_ u. guards G P (t @ u)) (\<lambda>_ u. guards G P (t @ u))"
    by (intro spec_mono [OF assms(2) [unfolded never_def emits_def]])
      (auto simp: guards_append intro: guards_from_none)
qed

lemma guards_ctx:
  assumes "\<And>t a. G a \<Longrightarrow> G (t @ a)"
    and "never P enter" and "\<And>c ok. never P (leave c ok)"
    and "\<And>c. spec (body c) (\<lambda>_ t. guards G P t) (\<lambda>_ t. guards G P t)"
  shows "spec (with_ctx enter leave body) (\<lambda>_ t. guards G P t) (\<lambda>_ t. guards G P t)"
proof (rule spec_with_ctx, rule spec_mono [OF assms(2) [unfolded never_def emits_def]])
  fix c t
  assume t: "\<forall>e \<in> set t. \<not> P e"
  have after: "spec (leave c ok) (\<lambda>_ v. guards G P (t @ u @ v)) (\<lambda>_ v. guards G P (t @ u @ v))"
    if "guards G P u" for ok u
    using that t
    by (intro spec_mono [OF assms(3) [unfolded never_def emits_def]])
      (auto simp: guards_append intro: guards_none guards_from_none guards_from_guards assms(1))
  show "spec (body c)
      (\<lambda>_ u. spec (leave c True) (\<lambda>_ v. guards G P (t @ u @ v)) (\<lambda>_ v. guards G P (t @ u @ v)))
      (\<lambda>_ u. spec (leave c False) (\<lambda>_ v. guards G P (t @ u @ v)) (\<lambda>_ v. guards G P (t @ u @ v)))"
    by (rule spec_mono [OF assms(4)]) (auto intro: after)
qed (auto intro: guards_none)

text \<open>A body between two calls, on each of the three ways out.\<close>

lemma spec_bracket:
  assumes "\<And>c. spec (body c) (Q c) (R c)"
  shows "spec (with_ctx (call0 cin fin) (\<lambda>c ok. call0 (cout c ok) (fout c ok)) body)
     (\<lambda>x t. \<exists>c u. t = (cin, Some 0) # u @ [(cout c True, Some 0)] \<and> Q c x u)
     (\<lambda>_ t. t = [(cin, None)] \<or>
        (\<exists>c u r e. t = (cin, Some 0) # u @ [(cout c False, r)] \<and> R c e u) \<or>
        (\<exists>c u x. t = (cin, Some 0) # u @ [(cout c True, None)] \<and> Q c x u))"
proof (rule spec_with_ctx, rule spec_call0)
  fix c
  show "spec (body c)
     (\<lambda>x u. spec (call0 (cout c True) (fout c True))
        (\<lambda>_ v. \<exists>c' w. [(cin, Some 0)] @ u @ v = (cin, Some 0) # w @ [(cout c' True, Some 0)] \<and> Q c' x w)
        (\<lambda>_ v. [(cin, Some 0)] @ u @ v = [(cin, None)] \<or>
           (\<exists>c' w r e. [(cin, Some 0)] @ u @ v = (cin, Some 0) # w @ [(cout c' False, r)] \<and> R c' e w) \<or>
           (\<exists>c' w x. [(cin, Some 0)] @ u @ v = (cin, Some 0) # w @ [(cout c' True, None)] \<and> Q c' x w)))
     (\<lambda>e u. spec (call0 (cout c False) (fout c False))
        (\<lambda>_ v. [(cin, Some 0)] @ u @ v = [(cin, None)] \<or>
           (\<exists>c' w r e. [(cin, Some 0)] @ u @ v = (cin, Some 0) # w @ [(cout c' False, r)] \<and> R c' e w) \<or>
           (\<exists>c' w x. [(cin, Some 0)] @ u @ v = (cin, Some 0) # w @ [(cout c' True, None)] \<and> Q c' x w))
        (\<lambda>_ v. [(cin, Some 0)] @ u @ v = [(cin, None)] \<or>
           (\<exists>c' w r e. [(cin, Some 0)] @ u @ v = (cin, Some 0) # w @ [(cout c' False, r)] \<and> R c' e w) \<or>
           (\<exists>c' w x. [(cin, Some 0)] @ u @ v = (cin, Some 0) # w @ [(cout c' True, None)] \<and> Q c' x w)))"
    by (rule spec_mono [OF assms]; rule spec_call0; fastforce)
qed simp

lemma spec_with_db:
  assumes "spec m Q R"
  shows "spec (with_db E opq m)
     (\<lambda>x t. \<exists>u. t = (DbEnter opq, Some 0) # u @ [(DbExit opq True, Some 0)] \<and> Q x u)
     (\<lambda>_ t. t = [(DbEnter opq, None)] \<or>
        (\<exists>u r e. t = (DbEnter opq, Some 0) # u @ [(DbExit opq False, r)] \<and> R e u) \<or>
        (\<exists>u x. t = (DbEnter opq, Some 0) # u @ [(DbExit opq True, None)] \<and> Q x u))"
  unfolding with_db_def
  by (rule spec_mono [OF spec_bracket [where Q = "\<lambda>_. Q" and R = "\<lambda>_. R", OF assms]]) auto

lemma spec_with_poll_lock:
  assumes "spec m Q R"
  shows "spec (with_poll_lock E opq name m)
     (\<lambda>x t. \<exists>u. t = (LockEnter opq name, Some 0) # u @ [(LockExit opq True, Some 0)] \<and> Q x u)
     (\<lambda>_ t. t = [(LockEnter opq name, None)] \<or>
        (\<exists>u r e. t = (LockEnter opq name, Some 0) # u @ [(LockExit opq False, r)] \<and> R e u) \<or>
        (\<exists>u x. t = (LockEnter opq name, Some 0) # u @ [(LockExit opq True, None)] \<and> Q x u))"
  unfolding with_poll_lock_def
  by (rule spec_mono [OF spec_bracket [where Q = "\<lambda>_. Q" and R = "\<lambda>_. R", OF assms]]) auto

text \<open>The contexts respect a guard that does not speak of them.\<close>

lemma guards_contexts:
  assumes "\<And>t a. G a \<Longrightarrow> G (t @ a)" and "\<And>e. P e \<Longrightarrow> \<not> admin e"
  shows "(\<And>o'. spec (f o') (\<lambda>_ t. guards G P t) (\<lambda>_ t. guards G P t)) \<Longrightarrow>
      spec (with_volume_context E sr mode f) (\<lambda>_ t. guards G P t) (\<lambda>_ t. guards G P t)"
    and "spec m (\<lambda>_ t. guards G P t) (\<lambda>_ t. guards G P t) \<Longrightarrow>
      spec (with_poll_lock E opq name m) (\<lambda>_ t. guards G P t) (\<lambda>_ t. guards G P t)"
    and "spec m (\<lambda>_ t. guards G P t) (\<lambda>_ t. guards G P t) \<Longrightarrow>
      spec (with_db E opq m) (\<lambda>_ t. guards G P t) (\<lambda>_ t. guards G P t)"
proof -
  have no: "\<And>e. admin e \<Longrightarrow> \<not> P e" using assms(2) by blast
  show "(\<And>o'. spec (f o') (\<lambda>_ t. guards G P t) (\<lambda>_ t. guards G P t)) \<Longrightarrow>
      spec (with_volume_context E sr mode f) (\<lambda>_ t. guards G P t) (\<lambda>_ t. guards G P t)"
    and "spec m (\<lambda>_ t. guards G P t) (\<lambda>_ t. guards G P t) \<Longrightarrow>
      spec (with_poll_lock E opq name m) (\<lambda>_ t. guards G P t) (\<lambda>_ t. guards G P t)"
    and "spec m (\<lambda>_ t. guards G P t) (\<lambda>_ t. guards G P t) \<Longrightarrow>
      spec (with_db E opq m) (\<lambda>_ t. guards G P t) (\<lambda>_ t. guards G P t)"
    unfolding spec_ctx_defs never_def
    by (intro guards_ctx assms(1); (unfold never_def)?; (assumption | rule emits_call0 no)+; simp add: admin_def)+
qed

lemma guards_locked_db:
  assumes "\<And>t a. G a \<Longrightarrow> G (t @ a)" and "\<And>e. P e \<Longrightarrow> \<not> admin e"
    and "spec m (\<lambda>_ t. guards G P t) (\<lambda>_ t. guards G P t)"
  shows "spec (with_locked_db E opq m) (\<lambda>_ t. guards G P t) (\<lambda>_ t. guards G P t)"
  unfolding with_locked_db_def by (intro guards_contexts assms)

section \<open>Programs that get calls done\<close>

text \<open>
  \<open>achieves P Cs m\<close>: when \<open>m\<close> returns, calls \<open>Cs\<close> have succeeded in this order, and \<open>m\<close> makes no
  call of \<open>P\<close>, however it ends.
\<close>

abbreviation none :: "(event \<Rightarrow> bool) \<Rightarrow> event list \<Rightarrow> bool" where
  "none P t \<equiv> \<forall>e \<in> set t. \<not> P e"

definition achieves :: "(event \<Rightarrow> bool) \<Rightarrow> (call \<Rightarrow> bool) list \<Rightarrow> ('w, 'a) prog \<Rightarrow> bool" where
  "achieves P Cs m \<longleftrightarrow> spec m (\<lambda>_ t. did Cs t \<and> none P t) (\<lambda>_ t. none P t)"

lemma achieves_never: "never P m \<Longrightarrow> achieves P [] m"
  unfolding never_def emits_def achieves_def by (erule spec_mono) (auto simp: did_def)

lemma tried_none:
  assumes "tried C t" and "\<And>c r. C c \<Longrightarrow> \<not> P (c, r)" and "\<And>d r. \<not> P (Sleep d, r)"
  shows "none P t"
proof
  fix e assume "e \<in> set t"
  with assms(1) have "C (fst e) \<or> is_sleep (fst e)" by (simp add: tried_def)
  with assms(2,3) show "\<not> P e" by (cases e) (auto simp: is_sleep_def split: call.splits)
qed

lemma achieves_act:
  assumes "spec m (\<lambda>_ t. acted C t) (\<lambda>_ t. tried C t)"
    and "\<And>c r. C c \<Longrightarrow> \<not> P (c, r)" and "\<And>d r. \<not> P (Sleep d, r)"
  shows "achieves P [C] m"
  unfolding achieves_def
proof (rule spec_mono [OF assms(1)])
  have no: "none P t" if "tried C t" for t
    using that assms(2,3) by (rule tried_none)
  show "acted C t \<Longrightarrow> did [C] t \<and> none P t" for t
    by (intro conjI did_acted no acted_tried)
  show "tried C t \<Longrightarrow> none P t" for t by (rule no)
qed

lemma achieves_call0:
  "C c \<Longrightarrow> (\<And>r. \<not> P (c, r)) \<Longrightarrow> achieves P [C] (call0 c f)"
  unfolding achieves_def by (rule spec_call0) (auto intro: did_one)

lemma achieves_bind:
  assumes "achieves P Cs m" and "\<And>x. achieves P Ds (f x)"
  shows "achieves P (Cs @ Ds) (bind m f)"
  unfolding achieves_def
proof (rule spec_bind, rule spec_mono [OF assms(1) [unfolded achieves_def]])
  fix x t
  assume "did Cs t \<and> none P t"
  then show "spec (f x) (\<lambda>_ u. did (Cs @ Ds) (t @ u) \<and> none P (t @ u)) (\<lambda>_ u. none P (t @ u))"
    by (intro spec_mono [OF assms(2) [unfolded achieves_def]]) (auto intro: did_append)
qed simp

lemma achieves_andthen: "achieves P Cs m \<Longrightarrow> achieves P Ds n \<Longrightarrow> achieves P (Cs @ Ds) (andthen m n)"
  unfolding andthen_def by (rule achieves_bind)

lemma achieves_before: "never P m \<Longrightarrow> (\<And>x. achieves P Cs (f x)) \<Longrightarrow> achieves P Cs (bind m f)"
  using achieves_bind [OF achieves_never, of P m Cs f] by simp

lemma achieves_after: "achieves P Cs m \<Longrightarrow> (\<And>x. never P (f x)) \<Longrightarrow> achieves P Cs (bind m f)"
  using achieves_bind [of P Cs m "[]" f] by (simp add: achieves_never)

lemma achieves_raise: "achieves P Cs (raise e)"
  by (simp add: achieves_def spec_raise)

lemma achieves_none: "achieves P Cs m \<Longrightarrow> never P m"
  unfolding achieves_def never_def emits_def by (erule spec_mono) auto

lemma achieves_catch:
  assumes "achieves P Cs m" and "\<And>e. spec (h e) (\<lambda>_ _. False) (\<lambda>_ t. none P t)"
  shows "achieves P Cs (catch m h)"
  unfolding achieves_def
proof (rule spec_catch, rule spec_mono [OF assms(1) [unfolded achieves_def]])
  fix e t
  assume "none P t"
  then show "spec (h e) (\<lambda>_ u. did Cs (t @ u) \<and> none P (t @ u)) (\<lambda>_ u. none P (t @ u))"
    by (intro spec_mono [OF assms(2)]) auto
qed

text \<open>Programs that always raise, without a call of \<open>P\<close>: the handlers that clean up.\<close>

definition fails :: "(event \<Rightarrow> bool) \<Rightarrow> ('w, 'a) prog \<Rightarrow> bool" where
  "fails P m \<longleftrightarrow> spec m (\<lambda>_ _. False) (\<lambda>_ t. none P t)"

lemma fails_raise: "fails P (raise e)"
  by (simp add: fails_def spec_raise)

lemma fails_bind: "never P m \<Longrightarrow> (\<And>x. fails P (f x)) \<Longrightarrow> fails P (bind m f)"
  unfolding never_def emits_def fails_def
proof (rule spec_bind, erule spec_mono)
  fix x t
  assume "\<And>x. spec (f x) (\<lambda>_ _. False) (\<lambda>_ t. none P t)" and t: "\<forall>e \<in> set t. \<not> P e"
  from this(1) show "spec (f x) (\<lambda>_ _. False) (\<lambda>_ u. none P (t @ u))"
    by (rule spec_mono) (use t in auto)
qed simp

lemma achieves_catch_fails:
  "achieves P Cs m \<Longrightarrow> (\<And>e. fails P (h e)) \<Longrightarrow> achieves P Cs (catch m h)"
  unfolding fails_def by (rule achieves_catch)

lemma guards_achieves:
  assumes "achieves P Cs m" and "\<And>t. did Cs t \<Longrightarrow> G t" and "lasting G" and "\<And>x. extends (f x)"
  shows "spec (bind m f) (\<lambda>_ t. guards G P t) (\<lambda>_ t. guards G P t)"
  by (rule guards_bind [OF assms(3) spec_mono [OF assms(1) [unfolded achieves_def]] assms(4)])
    (auto intro: assms(2))

named_theorems never_intros "composition rules for calls a program never makes"

lemma never_ret [never_intros]: "never P (ret x)"
  by (simp add: never_def emits_ret)

lemma never_raise [never_intros]: "never P (raise e)"
  by (simp add: never_def emits_raise)

lemma never_bind [never_intros]: "never P m \<Longrightarrow> (\<And>x. never P (f x)) \<Longrightarrow> never P (bind m f)"
  unfolding never_def by (rule emits_bind)

lemma never_andthen [never_intros]: "never P m \<Longrightarrow> never P n \<Longrightarrow> never P (andthen m n)"
  unfolding never_def by (rule emits_andthen)

lemma never_only_if [never_intros]: "(b \<Longrightarrow> never P m) \<Longrightarrow> never P (only_if b m)"
  unfolding never_def by (rule emits_only_if)

lemma never_catch [never_intros]: "never P m \<Longrightarrow> (\<And>e. never P (h e)) \<Longrightarrow> never P (catch m h)"
  unfolding never_def by (rule emits_catch)

lemma never_swallow [never_intros]: "never P m \<Longrightarrow> never P (swallow m)"
  unfolding never_def by (rule emits_swallow)

lemma never_option_case [never_intros]:
  "(\<And>y. x = Some y \<Longrightarrow> never P (f y)) \<Longrightarrow> (x = None \<Longrightarrow> never P n) \<Longrightarrow>
   never P (case x of None \<Rightarrow> n | Some y \<Rightarrow> f y)"
  unfolding never_def by (rule emits_option_case)

lemma never_list_case [never_intros]:
  "(xs = [] \<Longrightarrow> never P n) \<Longrightarrow> (\<And>y ys. xs = y # ys \<Longrightarrow> never P (f y ys)) \<Longrightarrow>
   never P (case xs of [] \<Rightarrow> n | y # ys \<Rightarrow> f y ys)"
  by (cases xs) simp_all

lemma never_if [never_intros]:
  "(b \<Longrightarrow> never P m) \<Longrightarrow> (\<not> b \<Longrightarrow> never P n) \<Longrightarrow> never P (if b then m else n)"
  by simp

lemma never_quiet: "emits quiet m \<Longrightarrow> (\<And>e. P e \<Longrightarrow> \<not> quiet e) \<Longrightarrow> never P m"
  unfolding never_def by (erule emits_mono) blast

lemma never_inspects: "emits inspects m \<Longrightarrow> (\<And>e. inspects e \<Longrightarrow> \<not> P e) \<Longrightarrow> never P m"
  unfolding never_def by (rule emits_mono)

section \<open>Runs with a known answer, and refusals\<close>

text \<open>A program that returns the same value from every state; runs that end in an exception and change nothing.\<close>

definition returns :: "('w, 'a) prog \<Rightarrow> 'a \<Rightarrow> bool" where
  "returns m x \<longleftrightarrow> (\<forall>s. fst (m s) = Inr x)"

abbreviation refused :: "('w, 'a) prog \<Rightarrow> bool" where
  "refused m \<equiv> spec m (\<lambda>_ _. False) (\<lambda>_ t. \<forall>e \<in> set t. quiet e)"

lemma spec_returns: "returns m x \<Longrightarrow> spec m Q R \<Longrightarrow> spec m (\<lambda>y t. y = x \<and> Q y t) (\<lambda>_ _. False)"
  unfolding spec_def returns_def by fastforce

lemma refused_bind:
  assumes "returns m x" and "emits quiet m" and "refused (f x)"
  shows "refused (bind m f)"
proof (rule spec_bind, rule spec_mono [OF spec_returns [OF assms(1) assms(2) [unfolded emits_def]]])
  fix y t
  assume "y = x \<and> (\<forall>e \<in> set t. quiet e)"
  then show "spec (f y) (\<lambda>_ _. False) (\<lambda>_ u. \<forall>e \<in> set (t @ u). quiet e)"
    using assms(3) by (auto elim: spec_mono)
qed simp

lemma refused_andthen: "refused m \<Longrightarrow> refused (andthen m n)"
  by (rule spec_andthen, erule spec_mono) auto

lemma refused_after: "emits quiet m \<Longrightarrow> (\<And>x. refused (f x)) \<Longrightarrow> refused (bind m f)"
proof (unfold emits_def, rule spec_bind, erule spec_mono)
  fix x t
  assume "\<And>x. refused (f x)" and t: "\<forall>e \<in> set t. quiet e"
  from this(1) show "spec (f x) (\<lambda>_ _. False) (\<lambda>_ u. \<forall>e \<in> set (t @ u). quiet e)"
    by (rule spec_mono) (use t in auto)
qed simp

lemma refused_raise: "refused (raise e)"
  by (simp add: spec_raise)

lemma returns_ret: "returns (ret x) x"
  by (simp add: returns_def ret_def)

lemma returns_bind: "returns m x \<Longrightarrow> returns (f x) y \<Longrightarrow> returns (bind m f) y"
  unfolding returns_def bind_def by (auto split: sum.splits prod.splits) (metis fst_conv sum.distinct(1) sum.inject(2))+

lemma returns_catch: "returns m x \<Longrightarrow> returns (catch m h) x"
  unfolding returns_def catch_def by (auto split: sum.splits prod.splits) (metis fst_conv sum.distinct(1) sum.inject(2))+

lemma returns_perform: "(\<And>w. fst (f w) = Inr x) \<Longrightarrow> returns (perform c code f) x"
  by (simp add: returns_def perform_def case_prod_beta)

lemma returns_popen: "(\<And>w. fst (e_popen E cmd w) = Inr r) \<Longrightarrow> returns (popen E cmd) r"
  by (simp add: returns_def popen_def perform_def case_prod_beta)

lemma returns_zfs_cmd:
  assumes "\<And>w. fst (e_popen E cmd w) = Inr (out, err, 0)"
  shows "returns (zfs_cmd E cmd) out"
  unfolding zfs_cmd_def One_nat_def run_zfs_command.simps
  by (rule returns_bind [where x = "Simple out"], rule returns_bind [OF returns_popen [OF assms]])
    (simp_all add: simple_out_def returns_ret)

end
