(* ===== verification/QemuDisk.thy ===== *)
theory QemuDisk
  imports Effects
begin

text \<open>
  \<^verbatim>\<open>src/src/datapath/qemudisk_raw.py\<close>: the handle of a qemu instance, the mirror jobs, the
  dirty-bitmap operations it sends over QMP, the export and re-creation of a bitmap, and the
  files in which the driver keeps the state of a daemon and of its bitmaps. One connection to
  a monitor is \<open>qmp_exchange\<close>, over the connection of QmpClient.
\<close>

section \<open>The handle\<close>

definition BLOCK_NODE_NAME :: string where "BLOCK_NODE_NAME = ''raw_block_node''"
definition METADATA_FILE :: string where "METADATA_FILE = ''qemu-dp-raw.pickle''"
definition DRIVER_METADATA_DIRNAME :: string where "DRIVER_METADATA_DIRNAME = ''.zfs-live''"
definition CBT_METADATA_SUBDIR :: string where "CBT_METADATA_SUBDIR = ''cbt''"
definition DEFAULT_GRANULARITY :: pyval where "DEFAULT_GRANULARITY = PInt 65536"

record qemu_disk =
  qd_pid :: pyval
  qd_qmp_sock :: string
  qd_key :: pyval
  qd_device_path :: pyval
  qd_nbd_unix_sock :: string
  qd_nbd_server_running :: bool
  qd_block_node_name :: string
  qd_scm_proxy_pid :: pyval
  qd_scm_sock_path :: pyval

text \<open>\<^verbatim>\<open>"qemu-nbd.{}".format(key)\<close> for the keys the callers pass.\<close>

definition show_key :: "pyval \<Rightarrow> string" where
  "show_key k = (case k of PStr s \<Rightarrow> s | PInt i \<Rightarrow> str_int i | _ \<Rightarrow> ''None'')"

definition default_nbd_sock :: "string \<Rightarrow> pyval \<Rightarrow> string" where
  "default_nbd_sock qmp_sock key = path_join (path_dirname qmp_sock) (''qemu-nbd.'' @ show_key key)"

definition or_str :: "string option \<Rightarrow> string \<Rightarrow> string" where
  "or_str v d = (case v of None \<Rightarrow> d | Some s \<Rightarrow> if s = [] then d else s)"

definition QemuDiskRaw ::
  "pyval \<Rightarrow> string \<Rightarrow> pyval \<Rightarrow> pyval \<Rightarrow> string option \<Rightarrow> bool \<Rightarrow> string option \<Rightarrow> pyval \<Rightarrow> pyval \<Rightarrow> qemu_disk" where
  "QemuDiskRaw pid qmp_sock key dev nbd running node scm_pid scm_sock =
     \<lparr>qd_pid = pid, qd_qmp_sock = qmp_sock, qd_key = key, qd_device_path = dev,
      qd_nbd_unix_sock = or_str nbd (default_nbd_sock qmp_sock key),
      qd_nbd_server_running = running,
      qd_block_node_name = or_str node BLOCK_NODE_NAME,
      qd_scm_proxy_pid = scm_pid, qd_scm_sock_path = scm_sock\<rparr>"

definition qmp_command :: "'w env \<Rightarrow> qemu_disk \<Rightarrow> string \<Rightarrow> pydict \<Rightarrow> ('w, pyval) prog" where
  "qmp_command E qd cmd args = qmp E (qd_qmp_sock qd) cmd args"

definition qmp_do :: "'w env \<Rightarrow> qemu_disk \<Rightarrow> string \<Rightarrow> pydict \<Rightarrow> ('w, unit) prog" where
  "qmp_do E qd cmd args = andthen (qmp_command E qd cmd args) (ret ())"

definition is_QMPError :: "exn \<Rightarrow> bool" where
  "is_QMPError e = (case e of QMPError _ \<Rightarrow> True | _ \<Rightarrow> False)"

section \<open>Finding the block node of a running instance\<close>

text \<open>What the first loop looks at in one entry: a node whose file is the device.\<close>

definition node_of :: "pydict \<Rightarrow> pyval" where
  "node_of inserted = dget_or inserted ''node-name'' PNone"

definition file_matches :: "'w env \<Rightarrow> string \<Rightarrow> pyval \<Rightarrow> exn + bool" where
  "file_matches E dev f =
     (if \<not> py_truth f then Inr False
      else case f of
             PStr p \<Rightarrow> Inr (p = dev \<or> p = e_realpath E dev \<or> e_realpath E p = e_realpath E dev)
           | _ \<Rightarrow> Inl PyTypeError)"

fun match_by_path :: "'w env \<Rightarrow> string \<Rightarrow> pyval list \<Rightarrow> ('w, pyval option) prog" where
  "match_by_path E dev [] = ret None"
| "match_by_path E dev (b # bs) =
     bind (as_dict b) (\<lambda>block.
     bind (as_dict (dget_or block ''inserted'' (PDict []))) (\<lambda>inserted.
       if \<not> py_truth (node_of inserted) then match_by_path E dev bs
       else case file_matches E dev (dget_or inserted ''file'' PNone) of
              Inl e \<Rightarrow> raise e
            | Inr True \<Rightarrow> ret (Some (node_of inserted))
            | Inr False \<Rightarrow> match_by_path E dev bs))"

fun match_by_bitmaps :: "pyval list \<Rightarrow> ('w, pyval option) prog" where
  "match_by_bitmaps [] = ret None"
| "match_by_bitmaps (b # bs) =
     bind (as_dict b) (\<lambda>block.
     bind (as_dict (dget_or block ''inserted'' (PDict []))) (\<lambda>inserted.
       if py_truth (node_of inserted) \<and> py_truth (dget_or inserted ''dirty-bitmaps'' PNone)
       then ret (Some (node_of inserted))
       else match_by_bitmaps bs))"

definition detect_block_node :: "'w env \<Rightarrow> string \<Rightarrow> string option \<Rightarrow> ('w, pyval) prog" where
  "detect_block_node E sock dev =
     bind (bind (qmp E sock ''query-block'' []) py_iter) (\<lambda>blocks.
     bind (case dev of None \<Rightarrow> ret None
           | Some d \<Rightarrow> if d = [] then ret None else match_by_path E d blocks) (\<lambda>hit.
       case hit of
         Some node \<Rightarrow> ret node
       | None \<Rightarrow> bind (match_by_bitmaps blocks) (\<lambda>hit2.
           of_option (QMPError ''Cannot determine block node name from query-block'') hit2)))"

definition connect_existing ::
  "'w env \<Rightarrow> string \<Rightarrow> string option \<Rightarrow> string option \<Rightarrow> ('w, qemu_disk) prog" where
  "connect_existing E sock dev nbd =
     bind (path_exists E sock) (\<lambda>ex.
       if \<not> ex then raise (QMPError (''QMP socket not found: '' @ sock))
       else bind (bind (detect_block_node E sock dev) as_str) (\<lambda>node.
         ret (QemuDiskRaw PNone sock PNone (case dev of None \<Rightarrow> PNone | Some d \<Rightarrow> PStr d)
                nbd False (Some node) PNone PNone)))"

section \<open>Mirror jobs\<close>

definition mirror_node :: "string \<Rightarrow> string \<Rightarrow> string" where
  "mirror_node pre job_id = pre @ map (\<lambda>c. if c = CHR ''-'' then CHR ''_'' else c) job_id"

definition start_mirror_job :: "'w env \<Rightarrow> qemu_disk \<Rightarrow> string \<Rightarrow> string \<Rightarrow> ('w, unit) prog" where
  "start_mirror_job E qd job_id target =
     qmp_do E qd ''blockdev-mirror''
       [(''job-id'', PStr job_id), (''device'', PStr (qd_block_node_name qd)),
        (''target'', PStr target), (''sync'', PStr ''full'')]"

definition mirror_start :: "'w env \<Rightarrow> qemu_disk \<Rightarrow> string \<Rightarrow> string \<Rightarrow> ('w, string) prog" where
  "mirror_start E qd target_dev job_id =
     (let target = mirror_node ''mirror_target_'' job_id in
      andthen (qmp_do E qd ''blockdev-add''
          [(''driver'', PStr ''host_device''), (''filename'', PStr target_dev),
           (''aio'', PStr ''native''), (''cache'', PDict [(''direct'', PBool True)]),
           (''node-name'', PStr target)])
        (andthen (start_mirror_job E qd job_id target) (ret job_id)))"

definition mirror_start_nbd ::
  "'w env \<Rightarrow> qemu_disk \<Rightarrow> string \<Rightarrow> string \<Rightarrow> string \<Rightarrow> string \<Rightarrow> ('w, string) prog" where
  "mirror_start_nbd E qd host port export_name job_id =
     (let target = mirror_node ''mirror_nbd_'' job_id in
      andthen (qmp_do E qd ''blockdev-add''
          [(''driver'', PStr ''nbd''),
           (''server'', PDict [(''type'', PStr ''inet''), (''host'', PStr host), (''port'', PStr port)]),
           (''export'', PStr export_name), (''node-name'', PStr target)])
        (andthen (start_mirror_job E qd job_id target) (ret job_id)))"

text \<open>
  Under Python 2 the progress ratio is an integer division; \<open>progress\<close> is its value for
  integer fields.
\<close>

definition mirror_progress :: "int \<Rightarrow> int \<Rightarrow> int" where
  "mirror_progress off len = (if len > 0 then off div len else 0)"

definition mirror_complete :: "'w env \<Rightarrow> qemu_disk \<Rightarrow> string \<Rightarrow> ('w, unit) prog" where
  "mirror_complete E qd job_id = qmp_do E qd ''block-job-complete'' [(''device'', PStr job_id)]"

definition mirror_cancel :: "'w env \<Rightarrow> qemu_disk \<Rightarrow> string \<Rightarrow> ('w, unit) prog" where
  "mirror_cancel E qd job_id =
     catch_if is_QMPError (qmp_do E qd ''block-job-cancel'' [(''device'', PStr job_id)]) (\<lambda>_. ret ())"

section \<open>Dirty bitmaps\<close>

definition on_bitmap :: "'w env \<Rightarrow> qemu_disk \<Rightarrow> string \<Rightarrow> string \<Rightarrow> ('w, unit) prog" where
  "on_bitmap E qd cmd name =
     qmp_do E qd cmd [(''node'', PStr (qd_block_node_name qd)), (''name'', PStr name)]"

definition cbt_bitmap_add :: "'w env \<Rightarrow> qemu_disk \<Rightarrow> string \<Rightarrow> pyval \<Rightarrow> ('w, unit) prog" where
  "cbt_bitmap_add E qd name granularity =
     qmp_do E qd ''block-dirty-bitmap-add''
       [(''node'', PStr (qd_block_node_name qd)), (''name'', PStr name), (''granularity'', granularity)]"

definition cbt_bitmap_remove :: "'w env \<Rightarrow> qemu_disk \<Rightarrow> string \<Rightarrow> ('w, unit) prog" where
  "cbt_bitmap_remove E qd name = on_bitmap E qd ''block-dirty-bitmap-remove'' name"

definition cbt_bitmap_clear :: "'w env \<Rightarrow> qemu_disk \<Rightarrow> string \<Rightarrow> ('w, unit) prog" where
  "cbt_bitmap_clear E qd name = on_bitmap E qd ''block-dirty-bitmap-clear'' name"

definition cbt_bitmap_enable :: "'w env \<Rightarrow> qemu_disk \<Rightarrow> string \<Rightarrow> ('w, unit) prog" where
  "cbt_bitmap_enable E qd name = on_bitmap E qd ''block-dirty-bitmap-enable'' name"

definition cbt_bitmap_disable :: "'w env \<Rightarrow> qemu_disk \<Rightarrow> string \<Rightarrow> ('w, unit) prog" where
  "cbt_bitmap_disable E qd name = on_bitmap E qd ''block-dirty-bitmap-disable'' name"

definition cbt_bitmap_merge :: "'w env \<Rightarrow> qemu_disk \<Rightarrow> string \<Rightarrow> string list \<Rightarrow> ('w, unit) prog" where
  "cbt_bitmap_merge E qd target sources =
     qmp_do E qd ''block-dirty-bitmap-merge''
       [(''node'', PStr (qd_block_node_name qd)), (''target'', PStr target),
        (''bitmaps'', PList (map (\<lambda>sname. PDict [(''node'', PStr (qd_block_node_name qd)),
                                                (''name'', PStr sname)]) sources))]"

fun bitmaps_of_node :: "string \<Rightarrow> pyval list \<Rightarrow> ('w, pyval list) prog" where
  "bitmaps_of_node name [] = ret []"
| "bitmaps_of_node name (n # ns) =
     bind (as_dict n) (\<lambda>node.
     bind (if dget_or node ''node-name'' PNone \<noteq> PStr name then ret []
           else py_iter (dget_or node ''dirty-bitmaps'' (PList []))) (\<lambda>here.
     bind (bitmaps_of_node name ns) (\<lambda>later. ret (here @ later))))"

definition cbt_list_bitmaps :: "'w env \<Rightarrow> qemu_disk \<Rightarrow> ('w, pyval list) prog" where
  "cbt_list_bitmaps E qd =
     bind (bind (qmp_command E qd ''query-named-block-nodes'' []) py_iter)
       (bitmaps_of_node (qd_block_node_name qd))"

text \<open>The first bitmap of the given name, as the loops over \<^verbatim>\<open>bm.get("name")\<close> find it.\<close>

fun find_bitmap :: "string \<Rightarrow> pyval list \<Rightarrow> ('w, pydict option) prog" where
  "find_bitmap name [] = ret None"
| "find_bitmap name (b # bs) =
     bind (as_dict b) (\<lambda>bm.
       if dget_or bm ''name'' PNone = PStr name then ret (Some bm) else find_bitmap name bs)"

definition cbt_snapshot_bitmap ::
  "'w env \<Rightarrow> qemu_disk \<Rightarrow> string \<Rightarrow> string \<Rightarrow> pyval option \<Rightarrow> ('w, unit) prog" where
  "cbt_snapshot_bitmap E qd current new granularity =
     bind (case granularity of
             Some g \<Rightarrow> ret g
           | None \<Rightarrow> bind (bind (cbt_list_bitmaps E qd) (find_bitmap current)) (\<lambda>bm.
               ret (case bm of None \<Rightarrow> DEFAULT_GRANULARITY
                    | Some d \<Rightarrow> dget_or d ''granularity'' DEFAULT_GRANULARITY)))
       (\<lambda>g. andthen (cbt_bitmap_disable E qd current) (cbt_bitmap_add E qd new g))"

definition already_running :: "exn \<Rightarrow> bool" where
  "already_running e = (case e of QMPError msg \<Rightarrow> contains ''already running'' (py_lower msg) | _ \<Rightarrow> False)"

definition ensure_nbd_server :: "'w env \<Rightarrow> qemu_disk \<Rightarrow> ('w, qemu_disk) prog" where
  "ensure_nbd_server E qd =
     (if qd_nbd_unix_sock qd = [] then raise (QMPError ''No NBD socket path configured.'')
      else if qd_nbd_server_running qd then ret qd
      else andthen
        (catch_if already_running
          (qmp_do E qd ''nbd-server-start''
            [(''addr'', PDict [(''type'', PStr ''unix''),
                              (''data'', PDict [(''path'', PStr (qd_nbd_unix_sock qd))])])])
          (\<lambda>_. ret ()))
        (ret (qd\<lparr>qd_nbd_server_running := True\<rparr>)))"

definition add_export :: "'w env \<Rightarrow> qemu_disk \<Rightarrow> string \<Rightarrow> ('w, pydict) prog" where
  "add_export E qd name =
     andthen (qmp_do E qd ''nbd-server-add''
         [(''device'', PStr (qd_block_node_name qd)), (''name'', PStr (''cbt_'' @ name)),
          (''writable'', PBool False), (''bitmap'', PStr name)])
       (ret [(''nbd_unix_sock'', PStr (qd_nbd_unix_sock qd)),
             (''export_name'', PStr (''cbt_'' @ name)),
             (''bitmap_context'', PStr (''qemu:dirty-bitmap:'' @ name))])"

definition cbt_export_bitmap :: "'w env \<Rightarrow> qemu_disk \<Rightarrow> string \<Rightarrow> ('w, pydict) prog" where
  "cbt_export_bitmap E qd name = bind (ensure_nbd_server E qd) (\<lambda>qd'. add_export E qd' name)"

text \<open>Freezing a bitmap and reading what \<^verbatim>\<open>query-named-block-nodes\<close> says of it.\<close>

definition frozen_info :: "'w env \<Rightarrow> qemu_disk \<Rightarrow> string \<Rightarrow> ('w, pydict) prog" where
  "frozen_info E qd name =
     andthen (cbt_bitmap_disable E qd name)
       (bind (bind (cbt_list_bitmaps E qd) (find_bitmap name))
         (of_option (QMPError (''export_bitmap: bitmap '' @ name @ '' not found''))))"

definition export_payload :: "string \<Rightarrow> pydict \<Rightarrow> pydict \<Rightarrow> pydict" where
  "export_payload name info nbd =
     [(''bitmap_name'', PStr name),
      (''granularity'', dget_or info ''granularity'' DEFAULT_GRANULARITY),
      (''dirty_count'', dget_or info ''count'' (PInt 0)),
      (''nbd_export'', PDict
         [(''socket'', dget_or nbd ''nbd_unix_sock'' PNone),
          (''export_name'', dget_or nbd ''export_name'' PNone),
          (''bitmap_context'', dget_or nbd ''bitmap_context'' PNone)])]"

definition export_bitmap :: "'w env \<Rightarrow> qemu_disk \<Rightarrow> string \<Rightarrow> ('w, pydict) prog" where
  "export_bitmap E qd name =
     bind (frozen_info E qd name) (\<lambda>info.
     bind (cbt_export_bitmap E qd name) (\<lambda>nbd. ret (export_payload name info nbd)))"

definition prepare_bitmap_from_payload :: "'w env \<Rightarrow> qemu_disk \<Rightarrow> string \<Rightarrow> pyval \<Rightarrow> ('w, unit) prog" where
  "prepare_bitmap_from_payload E qd name payload =
     (case payload of
        PDict p \<Rightarrow>
          (let g = dget_or p ''granularity'' DEFAULT_GRANULARITY in
           bind (bind (cbt_list_bitmaps E qd) (find_bitmap name)) (\<lambda>found.
             case found of
               None \<Rightarrow> cbt_bitmap_add E qd name g
             | Some bm \<Rightarrow>
                 if dget_or bm ''granularity'' PNone = g then ret ()
                 else andthen (cbt_bitmap_remove E qd name) (cbt_bitmap_add E qd name g)))
      | _ \<Rightarrow> raise (QMPError ''prepare_bitmap_from_payload: payload must be a dict''))"

definition cbt_remove_export :: "'w env \<Rightarrow> qemu_disk \<Rightarrow> string \<Rightarrow> ('w, unit) prog" where
  "cbt_remove_export E qd export_name = qmp_do E qd ''nbd-server-remove'' [(''name'', PStr export_name)]"

section \<open>Files\<close>

definition dp_metadata_root :: string where
  "dp_metadata_root = ''/var/run/nonpersistent/dp-raw-qdisk''"

definition metadata_dir :: "string \<Rightarrow> string" where
  "metadata_dir key = path_join dp_metadata_root key"

definition metadata_path :: "string \<Rightarrow> string" where
  "metadata_path key = path_join (metadata_dir key) METADATA_FILE"

text \<open>
  \<^verbatim>\<open>_mkdir_p\<close>: a directory that exists is not an error, so \<open>MakeDirs\<close> is the call that
  succeeds when the directory is there already.
\<close>

definition mkdir_p :: "'w env \<Rightarrow> string \<Rightarrow> ('w, unit) prog" where
  "mkdir_p E p = fs_do E (MakeDirs p)"

definition metadata_of :: "qemu_disk \<Rightarrow> pydict" where
  "metadata_of qd =
     [(''pid'', qd_pid qd), (''qmp_sock'', PStr (qd_qmp_sock qd)), (''key'', qd_key qd),
      (''device_path'', qd_device_path qd), (''nbd_unix_sock'', PStr (qd_nbd_unix_sock qd)),
      (''scm_proxy_pid'', qd_scm_proxy_pid qd), (''scm_sock_path'', qd_scm_sock_path qd)]"

definition save_metadata :: "'w env \<Rightarrow> string \<Rightarrow> qemu_disk \<Rightarrow> ('w, unit) prog" where
  "save_metadata E key qd =
     andthen (mkdir_p E (metadata_dir key))
       (fs_do E (WriteFile (metadata_path key) (PDict (metadata_of qd))))"

definition opt_str :: "pyval \<Rightarrow> string option" where
  "opt_str v = (case v of PStr s \<Rightarrow> Some s | _ \<Rightarrow> None)"

definition disk_of_metadata :: "pydict \<Rightarrow> exn + qemu_disk" where
  "disk_of_metadata d =
     (case (dget d ''pid'', dget d ''qmp_sock'', dget d ''key'') of
        (Some pid, Some (PStr sock), Some key) \<Rightarrow>
          Inr (QemuDiskRaw pid sock key (dget_or d ''device_path'' PNone)
                 (opt_str (dget_or d ''nbd_unix_sock'' PNone)) True None
                 (dget_or d ''scm_proxy_pid'' PNone) (dget_or d ''scm_sock_path'' PNone))
      | (None, _, _) \<Rightarrow> Inl (PyKeyError ''pid'')
      | (_, None, _) \<Rightarrow> Inl (PyKeyError ''qmp_sock'')
      | (_, _, None) \<Rightarrow> Inl (PyKeyError ''key'')
      | _ \<Rightarrow> Inl PyTypeError)"

definition load_metadata :: "'w env \<Rightarrow> string \<Rightarrow> ('w, qemu_disk option) prog" where
  "load_metadata E key =
     bind (path_exists E (metadata_path key)) (\<lambda>ex.
       if \<not> ex then ret None
       else bind (bind (read_pickle E (metadata_path key)) as_dict) (\<lambda>d.
         case disk_of_metadata d of Inl e \<Rightarrow> raise e | Inr qd \<Rightarrow> ret (Some qd)))"

definition remove_metadata :: "'w env \<Rightarrow> string \<Rightarrow> ('w, unit) prog" where
  "remove_metadata E key =
     andthen (bind (path_exists E (metadata_path key)) (\<lambda>ex.
                only_if ex (fs_do E (Unlink (metadata_path key)))))
       (catch_if (\<lambda>e. e = PyOSError) (fs_do E (RmDir (metadata_dir key))) (\<lambda>_. ret ()))"

definition sr_mount_from_uri :: "string \<Rightarrow> string" where
  "sr_mount_from_uri uri = (if startswith uri ''file://'' then drop 7 uri else uri)"

definition cbt_metadata_dir :: "string \<Rightarrow> string" where
  "cbt_metadata_dir uri =
     path_join (path_join (sr_mount_from_uri uri) DRIVER_METADATA_DIRNAME) CBT_METADATA_SUBDIR"

definition cbt_metadata_path :: "string \<Rightarrow> string \<Rightarrow> string" where
  "cbt_metadata_path uri key = path_join (cbt_metadata_dir uri) (key @ ''.pickle'')"

definition save_cbt_metadata :: "'w env \<Rightarrow> string \<Rightarrow> string \<Rightarrow> pyval \<Rightarrow> ('w, unit) prog" where
  "save_cbt_metadata E uri key cbt =
     (let f = cbt_metadata_path uri key in
      andthen (mkdir_p E (cbt_metadata_dir uri))
        (andthen (fs_do E (WriteFile (f @ ''.tmp'') cbt))
          (fs_do E (Rename (f @ ''.tmp'') f))))"

definition load_cbt_metadata :: "'w env \<Rightarrow> string \<Rightarrow> string \<Rightarrow> ('w, pyval) prog" where
  "load_cbt_metadata E uri key =
     (let f = cbt_metadata_path uri key in
      bind (path_exists E f) (\<lambda>ex. if \<not> ex then ret PNone else read_pickle E f))"

definition migrate_legacy_cbt_metadata :: "'w env \<Rightarrow> string \<Rightarrow> string \<Rightarrow> string \<Rightarrow> ('w, bool) prog" where
  "migrate_legacy_cbt_metadata E uri legacy_key new_key =
     (let old = cbt_metadata_path uri legacy_key; new = cbt_metadata_path uri new_key in
      bind (path_exists E old) (\<lambda>has_old.
        if \<not> has_old then ret False
        else bind (path_exists E new) (\<lambda>has_new.
          if \<not> has_new then andthen (fs_do E (Rename old new)) (ret True)
          else andthen (fs_do E (Unlink old)) (ret True))))"

definition remove_cbt_metadata :: "'w env \<Rightarrow> string \<Rightarrow> string \<Rightarrow> ('w, unit) prog" where
  "remove_cbt_metadata E uri key =
     andthen (bind (path_exists E (cbt_metadata_path uri key)) (\<lambda>ex.
                only_if ex (fs_do E (Unlink (cbt_metadata_path uri key)))))
       (catch_if (\<lambda>e. e = PyOSError) (fs_do E (RmDir (cbt_metadata_dir uri))) (\<lambda>_. ret ()))"

section \<open>Round trip of the daemon's record\<close>

text \<open>
  A record written for an instance the driver spawned (its node has the default name) is read
  back as that instance with its NBD server marked running; the node name is not stored.
\<close>

lemma metadata_roundtrip:
  assumes "qd_nbd_unix_sock qd \<noteq> []"
  shows "disk_of_metadata (metadata_of qd) =
     Inr (qd\<lparr>qd_nbd_server_running := True, qd_block_node_name := BLOCK_NODE_NAME\<rparr>)"
  using assms
  by (simp add: disk_of_metadata_def metadata_of_def dget_def dget_or_def opt_str_def
      QemuDiskRaw_def or_str_def)

lemma nbd_sock_nonempty:
  "qd_nbd_unix_sock (QemuDiskRaw pid sock key dev nbd running node scm scm_sock) \<noteq> []"
  by (auto simp: QemuDiskRaw_def or_str_def default_nbd_sock_def path_join_nonempty split: option.splits)

section \<open>What the bitmap operations send\<close>

lemma spec_qmp_do [spec_intros]:
  "Q () [(Qmp (qd_qmp_sock qd) cmd args, Some 0)] \<Longrightarrow>
   (\<And>e. R e [(Qmp (qd_qmp_sock qd) cmd args, None)]) \<Longrightarrow> spec (qmp_do E qd cmd args) Q R"
  unfolding qmp_do_def qmp_command_def qmp_def by (auto intro!: spec_intros)

lemma spec_qmp_command [spec_intros]:
  "(\<And>v. Q v [(Qmp (qd_qmp_sock qd) cmd args, Some 0)]) \<Longrightarrow>
   (\<And>e. R e [(Qmp (qd_qmp_sock qd) cmd args, None)]) \<Longrightarrow> spec (qmp_command E qd cmd args) Q R"
  unfolding qmp_command_def qmp_def by (auto intro!: spec_intros)

lemma spec_pure_of_bitmaps:
  "spec (bitmaps_of_node name ns) (\<lambda>_ t. t = []) (\<lambda>_ t. t = [])"
  by (induction ns) (auto intro!: spec_intros elim: spec_mono split: if_splits)

lemma spec_pure_find_bitmap:
  "spec (find_bitmap name bs) (\<lambda>_ t. t = []) (\<lambda>_ t. t = [])"
  by (induction bs) (auto intro!: spec_intros elim: spec_mono)

lemma spec_cbt_list_bitmaps:
  "spec (cbt_list_bitmaps E qd)
     (\<lambda>_ t. t = [(Qmp (qd_qmp_sock qd) ''query-named-block-nodes'' [], Some 0)])
     (\<lambda>_ t. \<exists>r. t = [(Qmp (qd_qmp_sock qd) ''query-named-block-nodes'' [], r)])"
  unfolding cbt_list_bitmaps_def
  by (intro spec_intros, rule spec_mono [OF spec_pure_of_bitmaps]) auto

end
