(* ===== verification/CbtCapture.thy ===== *)
theory CbtCapture
  imports QemuDisk "HOL-Library.Char_ord" "HOL-Library.List_Lexorder"
begin

text \<open>
  Freezing the tracking bitmap when a snapshot is taken: \<^verbatim>\<open>_cbt_capture_at_snapshot\<close> of
  \<^verbatim>\<open>src/src/volume/volume.py\<close> and the search for a qemu of a running domain in
  \<^verbatim>\<open>src/src/datapath/datapath.py\<close>. The five bitmap commands of the capture are one
  definition, so their order and what a failure in the middle leaves can be stated.
\<close>

section \<open>A qemu that has the device open\<close>

definition XEN_QMP_DIR :: string where "XEN_QMP_DIR = ''/var/run/xen''"
definition XEN_QMP_SOCKET_GLOB :: string where "XEN_QMP_SOCKET_GLOB = ''qmp-libxl-*''"
definition DRIVER_NBD_SCRATCH_DIR :: string where "DRIVER_NBD_SCRATCH_DIR = ''/var/run/zfs-live''"

definition domid_from_qmp_socket :: "string \<Rightarrow> string option" where
  "domid_from_qmp_socket sock =
     (let base = path_basename sock in
      if startswith base ''qmp-libxl-'' then Some (drop (length ''qmp-libxl-'') base) else None)"

definition nbd_scratch :: "string \<Rightarrow> string option" where
  "nbd_scratch sock = (case domid_from_qmp_socket sock of None \<Rightarrow> None
     | Some d \<Rightarrow> if d = [] then None
                else Some (path_join DRIVER_NBD_SCRATCH_DIR (''qmp-libxl-'' @ d @ ''.nbd'')))"

definition try_socket :: "'w env \<Rightarrow> string \<Rightarrow> string \<Rightarrow> ('w, qemu_disk option) prog" where
  "try_socket E dev sock =
     catch
       (andthen
          (catch_if (\<lambda>e. e = PyOSError) (fs_do E (MakeDirs DRIVER_NBD_SCRATCH_DIR))
            (\<lambda>e. bind (is_dir E DRIVER_NBD_SCRATCH_DIR) (\<lambda>d. if d then ret () else raise e)))
          (bind (connect_existing E sock (Some dev) (nbd_scratch sock)) (\<lambda>qd. ret (Some qd))))
       (\<lambda>_. ret None)"

fun first_socket :: "'w env \<Rightarrow> string \<Rightarrow> string list \<Rightarrow> ('w, qemu_disk option) prog" where
  "first_socket E dev [] = ret None"
| "first_socket E dev (sock # rest) =
     bind (try_socket E dev sock) (\<lambda>hit.
       case hit of Some qd \<Rightarrow> ret (Some qd) | None \<Rightarrow> first_socket E dev rest)"

definition find_xenopsd_qemu_for_device :: "'w env \<Rightarrow> string \<Rightarrow> ('w, qemu_disk option) prog" where
  "find_xenopsd_qemu_for_device E dev =
     bind (is_dir E XEN_QMP_DIR) (\<lambda>d.
       if \<not> d then ret None
       else bind (glob E (path_join XEN_QMP_DIR XEN_QMP_SOCKET_GLOB)) (\<lambda>socks. first_socket E dev (sort socks)))"

section \<open>The capture\<close>

definition CBT_ACTIVE_BITMAP :: string where "CBT_ACTIVE_BITMAP = ''cbt-active''"
definition CBT_SNAPSHOT_BITMAP_PREFIX :: string where "CBT_SNAPSHOT_BITMAP_PREFIX = ''cbt-snap-''"

definition device_key :: "'w env \<Rightarrow> string \<Rightarrow> string" where
  "device_key E dev = take 16 (e_sha256 E dev)"

definition freeze_bitmap :: "'w env \<Rightarrow> qemu_disk \<Rightarrow> string \<Rightarrow> pyval \<Rightarrow> ('w, unit) prog" where
  "freeze_bitmap E qd frozen granularity =
     andthen (cbt_bitmap_disable E qd CBT_ACTIVE_BITMAP)
       (andthen (cbt_bitmap_add E qd frozen granularity)
         (andthen (cbt_bitmap_merge E qd frozen [CBT_ACTIVE_BITMAP])
           (andthen (cbt_bitmap_clear E qd CBT_ACTIVE_BITMAP)
             (cbt_bitmap_enable E qd CBT_ACTIVE_BITMAP))))"

definition cbt_capture_at_snapshot :: "'w env \<Rightarrow> string \<Rightarrow> string \<Rightarrow> string \<Rightarrow> string \<Rightarrow> ('w, unit) prog" where
  "cbt_capture_at_snapshot E sr sr_dataset parent_uuid snap_uuid =
     (if \<not> e_has_qemudisk E then ret ()
      else
        let dev = ''/dev/zvol/'' @ sr_dataset @ ''/'' @ parent_uuid in
        bind (bind (load_metadata E (device_key E dev)) (\<lambda>qd.
                case qd of Some q \<Rightarrow> ret (Some q)
                | None \<Rightarrow> if e_has_datapath E then find_xenopsd_qemu_for_device E dev else ret None))
          (\<lambda>qd. case qd of
             None \<Rightarrow> ret ()
           | Some q \<Rightarrow>
               bind (bind (cbt_list_bitmaps E q) (find_bitmap CBT_ACTIVE_BITMAP)) (\<lambda>active.
                 case active of
                   None \<Rightarrow> ret ()
                 | Some bm \<Rightarrow>
                     let frozen = CBT_SNAPSHOT_BITMAP_PREFIX @ snap_uuid in
                     andthen (freeze_bitmap E q frozen (dget_or bm ''granularity'' DEFAULT_GRANULARITY))
                       (bind (export_bitmap E q frozen) (\<lambda>payload.
                          save_cbt_metadata E (''file://'' @ sr) snap_uuid
                            (PDict [(frozen, PDict payload)]))))))"

section \<open>The order of the capture\<close>

definition bitmap_call :: "qemu_disk \<Rightarrow> string \<Rightarrow> string \<Rightarrow> call" where
  "bitmap_call qd cmd name =
     Qmp (qd_qmp_sock qd) cmd [(''node'', PStr (qd_block_node_name qd)), (''name'', PStr name)]"

definition add_call :: "qemu_disk \<Rightarrow> string \<Rightarrow> pyval \<Rightarrow> call" where
  "add_call qd name g =
     Qmp (qd_qmp_sock qd) ''block-dirty-bitmap-add''
       [(''node'', PStr (qd_block_node_name qd)), (''name'', PStr name), (''granularity'', g)]"

definition merge_call :: "qemu_disk \<Rightarrow> string \<Rightarrow> string \<Rightarrow> call" where
  "merge_call qd target source =
     Qmp (qd_qmp_sock qd) ''block-dirty-bitmap-merge''
       [(''node'', PStr (qd_block_node_name qd)), (''target'', PStr target),
        (''bitmaps'', PList [PDict [(''node'', PStr (qd_block_node_name qd)), (''name'', PStr source)]])]"

definition freeze_calls :: "qemu_disk \<Rightarrow> string \<Rightarrow> pyval \<Rightarrow> call list" where
  "freeze_calls qd frozen g =
     [bitmap_call qd ''block-dirty-bitmap-disable'' CBT_ACTIVE_BITMAP,
      add_call qd frozen g,
      merge_call qd frozen CBT_ACTIVE_BITMAP,
      bitmap_call qd ''block-dirty-bitmap-clear'' CBT_ACTIVE_BITMAP,
      bitmap_call qd ''block-dirty-bitmap-enable'' CBT_ACTIVE_BITMAP]"

text \<open>
  A run that returns made the five calls, in order, all successful. A run that raises stopped
  at the first that failed: after a failure in the middle the tracking bitmap is disabled and
  no call enables it again.
\<close>

lemma spec_freeze_bitmap:
  "spec (freeze_bitmap E qd frozen g)
     (\<lambda>_ t. t = map (\<lambda>c. (c, Some 0)) (freeze_calls qd frozen g))
     (\<lambda>_ t. \<exists>k < 5. t = map (\<lambda>c. (c, Some 0)) (take k (freeze_calls qd frozen g)) @
                      [(freeze_calls qd frozen g ! k, None)])"
  unfolding freeze_bitmap_def cbt_bitmap_disable_def cbt_bitmap_add_def cbt_bitmap_merge_def
    cbt_bitmap_clear_def cbt_bitmap_enable_def on_bitmap_def freeze_calls_def bitmap_call_def
    add_call_def merge_call_def
  apply (intro spec_intros)
       apply simp
  subgoal by (intro exI [of _ 4]) simp
  subgoal by (intro exI [of _ 3]) simp
  subgoal by (intro exI [of _ 2]) simp
  subgoal by (intro exI [of _ 1]) simp
  subgoal by (intro exI [of _ 0]) simp
  done

end
