(* ===== verification/Volume.thy ===== *)
theory Volume
  imports VolumeBase CbtCapture
begin

text \<open>
  \<^verbatim>\<open>class Implementation\<close> of \<^verbatim>\<open>src/src/volume/volume.py\<close>: creating, registering, destroying,
  resizing, describing, snapshotting, cloning and copying a volume, and setting and unsetting
  its properties. Each operation is the whole handler; error texts are kept to their code and
  the data they carry.
\<close>

section \<open>Creating and registering\<close>

definition vdi_defaults_of :: "pydict \<Rightarrow> ('w, pydict) prog" where
  "vdi_defaults_of meta = as_dict (dget_or meta ''vdi_defaults'' (PDict []))"

definition volblocksize_of :: "string \<Rightarrow> int" where
  "volblocksize_of s = (case dget VALID_VOLBLOCKSIZE (py_upper s) of None \<Rightarrow> 8192 | Some b \<Rightarrow> b)"

definition effective_copies :: "'w env \<Rightarrow> string \<Rightarrow> ('w, int) prog" where
  "effective_copies E ds = catch (bind (vol_get_property E ds ''copies'') parse_int) (\<lambda>_. ret 1)"

definition check_thick_space :: "'w env \<Rightarrow> string \<Rightarrow> int \<Rightarrow> ('w, unit) prog" where
  "check_thick_space E ds sz =
     bind (effective_copies E ds) (\<lambda>copies.
     bind (dataset_get_available E ds) (\<lambda>avail.
       if sz * copies > avail
       then raise (storage_error ''SR_BACKEND_FAILURE_109''
              [''Insufficient space for thick provisioning'', str_int (sz * copies), str_int avail])
       else ret ()))"

definition create_body :: "'w env \<Rightarrow> string \<Rightarrow> string \<Rightarrow> string \<Rightarrow> string \<Rightarrow> string \<Rightarrow> int \<Rightarrow> bool \<Rightarrow> bool \<Rightarrow> int \<Rightarrow> int
    \<Rightarrow> ('w, int) prog" where
  "create_body E opq ds uuid name desc sz sharable thin blk image_type =
     bind (insert_new_volume E opq sz image_type) (\<lambda>vol.
     andthen (db_unit E opq (InsertVdi name desc uuid (v_id vol) sharable))
       (andthen (create_zvol E (format_zvol_name ds uuid) sz thin blk no_props)
         (bind (get_zvol_size_bytes E (format_zvol_name ds uuid)) (\<lambda>vsize.
          andthen (db_unit E opq (UpdateVsize (v_id vol) (Some vsize))) (ret vsize)))))"

definition create :: "'w env \<Rightarrow> string \<Rightarrow> string \<Rightarrow> string \<Rightarrow> int \<Rightarrow> bool \<Rightarrow> ('w, volume_info) prog" where
  "create E sr name desc sz sharable =
     bind (get_sr_metadata E (file_uri sr)) (\<lambda>meta.
     bind (sr_dataset_of meta) (\<lambda>ds.
     bind (vdi_defaults_of meta) (\<lambda>defaults.
     bind (as_str (dget_or defaults ''volblocksize'' (PStr ''8K''))) (\<lambda>blk_str.
     let blk = volblocksize_of blk_str;
         thin = (dget_or defaults ''provisioning'' (PStr ''thin'') = PStr ''thin'') in
     andthen (only_if (\<not> thin) (check_thick_space E ds sz))
       (bind (with_volume_context E sr ''w'' (\<lambda>opq.
          let image_type = image_type_for E (dget_or meta ''datapath'' (PStr ''raw-qdisk'')) in
          bind (get_format E image_type) (\<lambda>fmt.
          bind (uuid4 E) (\<lambda>uuid.
          bind (with_locked_db E opq (create_body E opq ds uuid name desc sz sharable thin blk image_type)) (\<lambda>vsize.
          bind (getVolumeUriPrefix E opq) (\<lambda>pre.
            ret (uuid, vsize, fmt @ pre @ uuid)))))))
        (\<lambda>(uuid, vsize, uri).
        bind (get_zvol_used_bytes E (format_zvol_name ds uuid)) (\<lambda>used.
          ret \<lparr>vi_key = uuid, vi_name = name, vi_description = desc, vi_read_write = True,
               vi_virtual_size = Some vsize, vi_physical_utilisation = used, vi_uri = uri,
               vi_sharable = False, vi_keys = []\<rparr>)))))))"

definition import_existing ::
  "'w env \<Rightarrow> string \<Rightarrow> string \<Rightarrow> string \<Rightarrow> string \<Rightarrow> int \<Rightarrow> bool \<Rightarrow> ('w, volume_info) prog" where
  "import_existing E sr key name desc sz sharable =
     bind (get_sr_metadata E (file_uri sr)) (\<lambda>meta.
     bind (sr_dataset_of meta) (\<lambda>ds.
     let vol_name = format_zvol_name ds key in
     bind (vol_exists E vol_name) (\<lambda>ex.
     if \<not> ex then raise (storage_error ''SR_BACKEND_FAILURE_109''
                       [''Cannot import_existing -- zvol does not exist'', vol_name])
     else
       bind (with_volume_context E sr ''w'' (\<lambda>opq.
          let image_type = image_type_for E (dget_or meta ''datapath'' (PStr ''raw-qdisk'')) in
          bind (get_format E image_type) (\<lambda>fmt.
          bind (with_locked_db E opq
            (bind (insert_new_volume E opq sz image_type) (\<lambda>vol.
             andthen (db_unit E opq (InsertVdi name desc key (v_id vol) sharable))
               (bind (get_zvol_size_bytes E vol_name) (\<lambda>vsize.
                andthen (db_unit E opq (UpdateVsize (v_id vol) (Some vsize))) (ret vsize)))))) (\<lambda>vsize.
          bind (getVolumeUriPrefix E opq) (\<lambda>pre. ret (vsize, fmt @ pre @ key))))))
       (\<lambda>(vsize, uri).
       bind (get_zvol_used_bytes E vol_name) (\<lambda>used.
         ret \<lparr>vi_key = key, vi_name = name, vi_description = desc, vi_read_write = True,
              vi_virtual_size = Some vsize, vi_physical_utilisation = used, vi_uri = uri,
              vi_sharable = False, vi_keys = []\<rparr>)))))"

section \<open>Destroying\<close>

definition destroy_snapshot :: "'w env \<Rightarrow> string \<Rightarrow> string \<Rightarrow> ('w, unit) prog" where
  "destroy_snapshot E ds uuid =
     bind (find_snapshot_by_uuid E ds uuid) (\<lambda>found.
     andthen (log_pool_tree E ds)
       (case found of
          None \<Rightarrow> raise (storage_error ''SR_BACKEND_FAILURE_110'' [''Snapshot not found'', ds, uuid])
        | Some snap_name \<Rightarrow>
            let clone_path = format_zvol_name ds uuid in
            bind (find_snapshot_clones E snap_name) (\<lambda>deps.
            let external_deps = filter (\<lambda>dep. dep \<noteq> clone_path) deps in
            if external_deps \<noteq> []
            then raise (storage_error ''SR_BACKEND_FAILURE_111''
                   (''Snapshot has dependents'' # snap_name # external_deps))
            else bind (vol_exists E clone_path) (\<lambda>ex.
                 andthen (only_if ex (destroy_zvol E clone_path)) (destroy_zvol E snap_name)))))"

text \<open>One clone per snapshot: the first that exists, else one made for the purpose.\<close>

definition dependency_of :: "'w env \<Rightarrow> string \<Rightarrow> string \<Rightarrow> vdi \<Rightarrow> string \<Rightarrow> ('w, string) prog" where
  "dependency_of E opq ds v snap =
     bind (find_snapshot_clones E snap) (\<lambda>deps.
       case deps of
         dep # _ \<Rightarrow> ret dep
       | [] \<Rightarrow>
           bind (insert_child_volume E opq (Some (v_id (vd_volume v))) (v_vsize (vd_volume v)) False) (\<lambda>vol.
           bind (uuid4 E) (\<lambda>clone_uuid.
           andthen (db_unit E opq (InsertVdi ''clone'' [] clone_uuid (v_id vol) False))
             (let clone_path = format_zvol_name ds clone_uuid in
              andthen (clone_snapshot E snap clone_path) (ret clone_path)))))"

definition destroy_volume :: "'w env \<Rightarrow> string \<Rightarrow> string \<Rightarrow> vdi \<Rightarrow> ('w, unit) prog" where
  "destroy_volume E opq ds v =
     (let vol_name = format_zvol_name ds (vd_uuid v) in
      andthen (log_pool_tree E ds)
        (bind (list_zvol_snapshots E vol_name) (\<lambda>snaps.
         bind (map_prog (dependency_of E opq ds v) snaps) (\<lambda>deps.
         andthen (only_if (deps \<noteq> [])
                   (andthen (for_each (promote_clone E) deps) (log_pool_tree E ds)))
           (destroy_zvol E vol_name)))))"

definition cbt_cleanup :: "'w env \<Rightarrow> string \<Rightarrow> string \<Rightarrow> string \<Rightarrow> ('w, unit) prog" where
  "cbt_cleanup E sr ds key =
     only_if (e_has_qemudisk E)
       (andthen (remove_cbt_metadata E (file_uri sr) key)
         (catch (remove_cbt_metadata E (file_uri sr)
                   (take 16 (e_sha256 E (''/dev/zvol/'' @ ds @ ''/'' @ key))))
            (\<lambda>_. ret ())))"

definition destroy :: "'w env \<Rightarrow> string \<Rightarrow> string \<Rightarrow> ('w, unit) prog" where
  "destroy E sr key =
     bind (get_sr_metadata E (file_uri sr)) (\<lambda>meta.
     bind (sr_dataset_of meta) (\<lambda>ds.
     andthen
       (with_volume_context E sr ''w'' (\<lambda>opq. with_locked_db E opq
         (bind (the_vdi E opq key) (\<lambda>v0.
          bind (recover_vdi_vsize E opq ds v0) (\<lambda>v.
          andthen (if v_snap (vd_volume v) \<noteq> 0 then destroy_snapshot E ds (vd_uuid v)
                   else destroy_volume E opq ds v)
            (andthen (db_unit E opq (DeleteVdi key))
              (andthen (volume_destroy_cb E opq (str_int (v_id (vd_volume v))))
                (db_unit E opq (DeleteVolume (v_id (vd_volume v))))))))))
       ) (cbt_cleanup E sr ds key)))"

section \<open>Resizing\<close>

text \<open>\<^verbatim>\<open>new_size < vdi.volume.vsize\<close>: no number is less than \<^verbatim>\<open>None\<close> in Python 2.\<close>

definition shrinks :: "int \<Rightarrow> vdi \<Rightarrow> bool" where
  "shrinks new_size v \<longleftrightarrow> (case v_vsize (vd_volume v) of None \<Rightarrow> False | Some old \<Rightarrow> new_size < old)"

definition resize_check :: "'w env \<Rightarrow> string \<Rightarrow> string \<Rightarrow> string \<Rightarrow> int \<Rightarrow> ('w, vdi) prog" where
  "resize_check E opq ds key new_size =
     bind (the_vdi E opq key) (\<lambda>v0.
     bind (recover_vdi_vsize E opq ds v0) (\<lambda>v.
     if shrinks new_size v
     then raise (storage_error ''SR_BACKEND_FAILURE_79'' [''VDI Invalid size'', ''shrinking not allowed''])
     else andthen (db_unit E opq (UpdateVsize (v_id (vd_volume v)) None)) (ret v)))"

definition resize_apply :: "'w env \<Rightarrow> string \<Rightarrow> string \<Rightarrow> vdi \<Rightarrow> int \<Rightarrow> ('w, unit) prog" where
  "resize_apply E opq ds v new_size =
     (let vol_name = format_zvol_name ds (vd_uuid v) in
      andthen (resize_zvol E vol_name new_size)
        (bind (get_zvol_size_bytes E vol_name) (\<lambda>vsize.
         andthen (db_unit E opq (UpdateVsize (v_id (vd_volume v)) (Some vsize)))
           (vol_sync_thick_refreservation E vol_name))))"

definition resize :: "'w env \<Rightarrow> string \<Rightarrow> string \<Rightarrow> int \<Rightarrow> ('w, unit) prog" where
  "resize E sr key new_size =
     bind (get_sr_metadata E (file_uri sr)) (\<lambda>meta.
     bind (sr_dataset_of meta) (\<lambda>ds.
     with_volume_context E sr ''r'' (\<lambda>opq.
       bind (with_db E opq (resize_check E opq ds key new_size)) (\<lambda>v.
         with_db E opq (resize_apply E opq ds v new_size)))))"

section \<open>Describing\<close>

definition stat :: "'w env \<Rightarrow> string \<Rightarrow> string \<Rightarrow> ('w, volume_info) prog" where
  "stat E sr key =
     bind (get_sr_metadata E (file_uri sr)) (\<lambda>meta.
     bind (sr_dataset_of meta) (\<lambda>ds.
     bind (with_volume_context E sr ''r'' (\<lambda>opq.
        bind (with_db E opq
          (bind (the_vdi E opq key) (\<lambda>v0.
           bind (recover_vdi_vsize E opq ds v0) (\<lambda>v.
           bind (get_format E (vd_image_type v)) (\<lambda>fmt.
           bind (if v_snap (vd_volume v) \<noteq> 0
                 then bind (find_snapshot_by_uuid E ds (vd_uuid v))
                   (of_option (storage_error ''SR_BACKEND_FAILURE_110'' [''Snapshot not found'', vd_uuid v]))
                 else ret (format_zvol_name ds (vd_uuid v))) (\<lambda>vol_name.
           bind (get_vdi_custom_keys E opq (vd_uuid v)) (\<lambda>custom.
             ret (v, fmt, vol_name, custom))))))))
        (\<lambda>(v, fmt, vol_name, custom).
        bind (getVolumeUriPrefix E opq) (\<lambda>pre.
          ret (v, fmt @ pre @ vd_uuid v, vol_name, custom)))))
     (\<lambda>(v, uri, vol_name, custom).
     bind (vol_get_zfs_properties_dict E vol_name) (\<lambda>zfs_keys.
     bind (get_zvol_used_bytes E vol_name) (\<lambda>used.
       ret \<lparr>vi_key = vd_uuid v, vi_name = vd_name v, vi_description = vd_description v,
            vi_read_write = (v_snap (vd_volume v) = 0),
            vi_virtual_size = v_vsize (vd_volume v), vi_physical_utilisation = used,
            vi_uri = uri, vi_sharable = False,
            vi_keys = dupdate (dupdate [] (map (\<lambda>(k, x). (k, PStr x)) zfs_keys)) custom\<rparr>)))))"

definition similar_content :: "'w env \<Rightarrow> string \<Rightarrow> string \<Rightarrow> ('w, volume_info list) prog" where
  "similar_content E sr key = ret []"

section \<open>Snapshot and clone\<close>

definition info_of :: "vdi \<Rightarrow> string \<Rightarrow> bool \<Rightarrow> int \<Rightarrow> string \<Rightarrow> volume_info" where
  "info_of v key rw used uri =
     \<lparr>vi_key = key, vi_name = vd_name v, vi_description = vd_description v, vi_read_write = rw,
      vi_virtual_size = v_vsize (vd_volume v), vi_physical_utilisation = used, vi_uri = uri,
      vi_sharable = False, vi_keys = []\<rparr>"

text \<open>The VDI and volume a new snapshot hangs off: the volume itself, or a snapshot's parent.\<close>

definition snapshot_parent :: "'w env \<Rightarrow> string \<Rightarrow> vdi \<Rightarrow> ('w, string \<times> int option) prog" where
  "snapshot_parent E opq v =
     (if v_snap (vd_volume v) = 0 then ret (vd_uuid v, Some (v_id (vd_volume v)))
      else bind (get_vdi_for_volume E opq (v_parent_id (vd_volume v))) (\<lambda>p.
        ret (case p of None \<Rightarrow> vd_uuid v | Some pv \<Rightarrow> vd_uuid pv, v_parent_id (vd_volume v))))"

definition snapshot_body ::
  "'w env \<Rightarrow> string \<Rightarrow> string \<Rightarrow> string \<Rightarrow> string \<Rightarrow> ('w, vdi \<times> string \<times> string \<times> string) prog" where
  "snapshot_body E opq ds key snap_uuid =
     bind (the_vdi E opq key) (\<lambda>v0.
     bind (recover_vdi_vsize E opq ds v0) (\<lambda>v.
     bind (get_format E (vd_image_type v)) (\<lambda>fmt.
     bind (snapshot_parent E opq v) (\<lambda>(parent_uuid, vol_id).
     bind (insert_child_volume E opq vol_id (v_vsize (vd_volume v)) True) (\<lambda>snap_vol.
     let snap_name = format_snap_name ds parent_uuid snap_uuid;
         clone_path = format_zvol_name ds snap_uuid in
     andthen (take_snapshot E snap_name)
       (andthen (clone_snapshot E snap_name clone_path)
         (andthen (vol_set_property E clone_path ''readonly'' ''on'')
           (andthen (db_unit E opq (InsertVdi (vd_name v) (vd_description v) snap_uuid
                       (v_id snap_vol) (vd_sharable v)))
             (ret (v, fmt, parent_uuid, snap_name))))))))))"

definition snapshot :: "'w env \<Rightarrow> string \<Rightarrow> string \<Rightarrow> ('w, volume_info) prog" where
  "snapshot E sr key =
     bind (get_sr_metadata E (file_uri sr)) (\<lambda>meta.
     bind (sr_dataset_of meta) (\<lambda>ds.
     bind (uuid4 E) (\<lambda>snap_uuid.
     bind (with_volume_context E sr ''w'' (\<lambda>opq.
        bind (with_locked_db E opq (snapshot_body E opq ds key snap_uuid)) (\<lambda>(v, fmt, parent_uuid, snap_name).
        andthen (catch (cbt_capture_at_snapshot E sr ds parent_uuid snap_uuid) (\<lambda>_. ret ()))
          (bind (getVolumeUriPrefix E opq) (\<lambda>pre. ret (v, fmt @ pre @ snap_uuid, snap_name))))))
     (\<lambda>(v, uri, snap_name).
     bind (get_zvol_used_bytes E snap_name) (\<lambda>used. ret (info_of v snap_uuid False used uri))))))"

text \<open>
  The snapshot to clone from: an existing one, which may be missing from the pool, or a new
  one. A missing name reaches \<^verbatim>\<open>clone_snapshot\<close> as \<^verbatim>\<open>None\<close>, which no argument list accepts.
\<close>

definition clone_source :: "'w env \<Rightarrow> string \<Rightarrow> string \<Rightarrow> vdi \<Rightarrow> ('w, string option \<times> int) prog" where
  "clone_source E opq ds v =
     (if v_snap (vd_volume v) \<noteq> 0
      then bind (find_snapshot_by_uuid E ds (vd_uuid v)) (\<lambda>found. ret (found, v_id (vd_volume v)))
      else
        bind (uuid4 E) (\<lambda>auto_uuid.
        bind (insert_child_volume E opq (Some (v_id (vd_volume v))) (v_vsize (vd_volume v)) True) (\<lambda>auto_snap.
        let snap_name = format_snap_name ds (vd_uuid v) auto_uuid in
        andthen (take_snapshot E snap_name) (ret (Some snap_name, v_id auto_snap)))))"

definition clone_body ::
  "'w env \<Rightarrow> string \<Rightarrow> string \<Rightarrow> string \<Rightarrow> string \<Rightarrow> ('w, vdi \<times> string \<times> string) prog" where
  "clone_body E opq ds key clone_uuid =
     bind (the_vdi E opq key) (\<lambda>v0.
     bind (recover_vdi_vsize E opq ds v0) (\<lambda>v.
     bind (get_format E (vd_image_type v)) (\<lambda>fmt.
     bind (clone_source E opq ds v) (\<lambda>(source, parent_id).
     bind (insert_child_volume E opq (Some parent_id) (v_vsize (vd_volume v)) False) (\<lambda>vol.
     bind (of_option PyTypeError source) (\<lambda>snap_name.
     let clone_path = format_zvol_name ds clone_uuid in
     andthen (clone_snapshot E snap_name clone_path)
       (bind (vol_get_refreservation E (hd (split_on CHR ''@'' snap_name))) (\<lambda>refres.
        andthen (only_if (refres > 0) (vol_set_thick_refreservation E clone_path))
          (andthen (db_unit E opq (InsertVdi (vd_name v) (vd_description v) clone_uuid
                      (v_id vol) (vd_sharable v)))
            (ret (v, fmt, snap_name)))))))))))"

definition clone :: "'w env \<Rightarrow> string \<Rightarrow> string \<Rightarrow> ('w, volume_info) prog" where
  "clone E sr key =
     bind (get_sr_metadata E (file_uri sr)) (\<lambda>meta.
     bind (sr_dataset_of meta) (\<lambda>ds.
     bind (uuid4 E) (\<lambda>clone_uuid.
     bind (with_volume_context E sr ''w'' (\<lambda>opq.
        bind (with_locked_db E opq (clone_body E opq ds key clone_uuid)) (\<lambda>(v, fmt, snap_name).
        bind (getVolumeUriPrefix E opq) (\<lambda>pre. ret (v, fmt @ pre @ clone_uuid, snap_name)))))
     (\<lambda>(v, uri, snap_name).
     bind (get_zvol_used_bytes E snap_name) (\<lambda>used. ret (info_of v clone_uuid True used uri))))))"

section \<open>Copy\<close>

text \<open>The destination's metadata; what is not a zfs-live SR is declined.\<close>

definition copy_dest :: "'w env \<Rightarrow> string \<Rightarrow> ('w, pydict) prog" where
  "copy_dest E dest_sr =
     bind (catch (get_sr_metadata E (file_uri dest_sr)) (\<lambda>_. raise (Unimplemented ''Volume.copy''))) (\<lambda>meta.
       if dget meta ''zpool'' = None \<or> dget meta ''dataset'' = None
       then raise (Unimplemented ''Volume.copy'') else ret meta)"

text \<open>Phase 1: the source row, and the snapshot, under the source's lock.\<close>

definition copy_source :: "'w env \<Rightarrow> string \<Rightarrow> string \<Rightarrow> string \<Rightarrow> string \<Rightarrow> ('w, vdi) prog" where
  "copy_source E sr ds key snap_name =
     with_volume_context E sr ''w'' (\<lambda>opq. with_poll_lock E opq ''gl''
       (bind (with_db E opq (bind (the_vdi E opq key) (recover_vdi_vsize E opq ds))) (\<lambda>v.
          andthen (take_snapshot E snap_name) (ret v))))"

definition drop_if_exists :: "'w env \<Rightarrow> string \<Rightarrow> string \<Rightarrow> ('w, unit) prog" where
  "drop_if_exists E probe victim =
     bind (vol_exists E probe) (\<lambda>ex. only_if ex (destroy_zvol E victim))"

text \<open>Phase 2: replicate, or undo and raise.\<close>

definition copy_replicate :: "'w env \<Rightarrow> bool \<Rightarrow> string \<Rightarrow> string \<Rightarrow> bool \<Rightarrow> ('w, unit) prog" where
  "copy_replicate E same_pool snap_name dest_vol thick =
     catch
       (andthen (if same_pool then clone_snapshot E snap_name dest_vol
                 else vol_send_receive E snap_name dest_vol)
         (only_if thick (vol_set_thick_refreservation E dest_vol)))
       (\<lambda>e. bind (swallow (drop_if_exists E dest_vol dest_vol)) (\<lambda>r1.
            bind (swallow (destroy_zvol E snap_name)) (\<lambda>r2.
              raise (last_caught e [r1, r2]))))"

text \<open>Phase 3, between pools: both transient snapshots go, or the destination goes.\<close>

definition copy_cleanup :: "'w env \<Rightarrow> string \<Rightarrow> string \<Rightarrow> string \<Rightarrow> ('w, unit) prog" where
  "copy_cleanup E snap_name recv_snap dest_vol =
     catch (andthen (destroy_zvol E snap_name) (destroy_zvol E recv_snap))
       (\<lambda>e. bind (swallow (drop_if_exists E dest_vol dest_vol)) (\<lambda>r1.
            bind (swallow (drop_if_exists E (hd (split_on CHR ''@'' snap_name)) snap_name)) (\<lambda>r2.
            bind (swallow (drop_if_exists E (hd (split_on CHR ''@'' recv_snap)) recv_snap)) (\<lambda>r3.
              raise (last_caught e [r1, r2, r3])))))"

text \<open>Phase 4: the row of the copy, under the destination's lock. The size is known: phase 1 recovered it.\<close>

definition copy_register :: "'w env \<Rightarrow> string \<Rightarrow> vdi \<Rightarrow> string \<Rightarrow> ('w, string) prog" where
  "copy_register E dest_sr v dest_uuid =
     with_volume_context E dest_sr ''w'' (\<lambda>opq.
       andthen (with_locked_db E opq
         (bind (of_option PyTypeError (v_vsize (vd_volume v))) (\<lambda>vsize.
          bind (insert_new_volume E opq vsize (vd_image_type v)) (\<lambda>vol.
          andthen (db_unit E opq (InsertVdi (vd_name v) (vd_description v) dest_uuid (v_id vol) (vd_sharable v)))
            (db_unit E opq (UpdateVsize (v_id vol) (Some vsize)))))))
         (bind (getVolumeUriPrefix E opq) (\<lambda>pre. ret (pre @ dest_uuid))))"

definition copy :: "'w env \<Rightarrow> string \<Rightarrow> string \<Rightarrow> string \<Rightarrow> ('w, volume_info) prog" where
  "copy E sr key dest_sr =
     bind (get_sr_metadata E (file_uri sr)) (\<lambda>src_meta.
     bind (sr_dataset_of src_meta) (\<lambda>src_ds.
     bind (copy_dest E dest_sr) (\<lambda>dest_meta.
     bind (sr_dataset_of dest_meta) (\<lambda>dest_ds.
     let same_pool = (dget src_meta ''zpool'' = dget dest_meta ''zpool'') in
     bind (uuid4 E) (\<lambda>dest_uuid.
     bind (uuid4 E) (\<lambda>snap_token.
     let src_vol = format_zvol_name src_ds key;
         dest_vol = format_zvol_name dest_ds dest_uuid;
         snap_name = format_snap_name src_ds key snap_token in
     bind (copy_source E sr src_ds key snap_name) (\<lambda>v.
     bind (vol_get_refreservation E src_vol) (\<lambda>refres.
     andthen (copy_replicate E same_pool snap_name dest_vol (refres > 0))
       (andthen (only_if (\<not> same_pool) (copy_cleanup E snap_name (dest_vol @ ''@'' @ snap_token) dest_vol))
         (bind (copy_register E dest_sr v dest_uuid) (\<lambda>dest_uri.
          bind (get_format E (vd_image_type v)) (\<lambda>fmt.
          bind (get_zvol_used_bytes E dest_vol) (\<lambda>used.
            ret (info_of v dest_uuid True used (fmt @ dest_uri)))))))))))))))"

section \<open>Properties of a volume\<close>

definition SM_CONFIG_PREFIX :: string where "SM_CONFIG_PREFIX = ''_sm_config_''"

definition strip_sm_config :: "string \<Rightarrow> string" where
  "strip_sm_config k = (if startswith k SM_CONFIG_PREFIX then drop (length SM_CONFIG_PREFIX) k else k)"

definition valid_value :: "string \<Rightarrow> string \<Rightarrow> bool" where
  "valid_value k v =
     (case dget VALID_MUTABLE_VALUES k of
        None \<Rightarrow> True
      | Some valid \<Rightarrow> (if k \<noteq> ''copies'' then py_lower v else v) \<in> set valid)"

text \<open>The refusal of an immutable property reads its current value for the message.\<close>

definition refuse_immutable :: "'w env \<Rightarrow> string \<Rightarrow> string \<Rightarrow> ('w, unit) prog" where
  "refuse_immutable E vol_name k =
     bind (if k = ''volblocksize''
           then bind (vol_get_property E vol_name ''volblocksize'') (\<lambda>b. lift_sum (format_volblocksize b))
           else if k = ''provisioning''
           then bind (vol_get_refreservation E vol_name) (\<lambda>r. ret (if r > 0 then ''thick'' else ''thin''))
           else ret ''unknown'') (\<lambda>current.
       raise (storage_error ''SR_BACKEND_FAILURE_109'' [''Immutable property'', k, current]))"

definition set_property :: "'w env \<Rightarrow> string \<Rightarrow> string \<Rightarrow> string \<Rightarrow> string \<Rightarrow> ('w, unit) prog" where
  "set_property E sr key k0 v =
     (let k = strip_sm_config k0 in
      bind (get_sr_metadata E (file_uri sr)) (\<lambda>meta.
      bind (sr_dataset_of meta) (\<lambda>ds.
      let vol_name = format_zvol_name ds key in
      andthen
        (if k \<in> set MUTABLE_ZFS_PROPERTIES then
           if \<not> valid_value k v
           then raise (storage_error ''SR_BACKEND_FAILURE_109'' [''Invalid property value'', k, v])
           else andthen (vol_set_property E vol_name k v)
                  (only_if (k = ''copies'') (vol_sync_thick_refreservation E vol_name))
         else if k \<in> set IMMUTABLE_ZFS_PROPERTIES then refuse_immutable E vol_name k
         else ret ())
        (with_volume_context E sr ''w'' (\<lambda>opq.
           with_locked_db E opq (db_unit E opq (SetCustomKey key k v)))))))"

definition unset_property :: "'w env \<Rightarrow> string \<Rightarrow> string \<Rightarrow> string \<Rightarrow> ('w, unit) prog" where
  "unset_property E sr key k0 =
     (let k = strip_sm_config k0 in
      bind (get_sr_metadata E (file_uri sr)) (\<lambda>meta.
      bind (sr_dataset_of meta) (\<lambda>ds.
      let vol_name = format_zvol_name ds key in
      andthen
        (if k \<in> set MUTABLE_ZFS_PROPERTIES then
           andthen (vol_inherit_property E vol_name k)
             (only_if (k = ''copies'') (vol_sync_thick_refreservation E vol_name))
         else if k \<in> set IMMUTABLE_ZFS_PROPERTIES then refuse_immutable E vol_name k
         else ret ())
        (with_volume_context E sr ''w'' (\<lambda>opq.
           with_locked_db E opq (db_unit E opq (DeleteCustomKey key k)))))))"

end
