(* ===== verification/Footprint.thy ===== *)
theory Footprint
  imports Order Volume
begin

text \<open>
  Which calls each changing operation can make, as introduction rules for \<open>emits\<close>: a
  predicate that admits the operation's own calls, the pauses between attempts and the quiet
  calls admits everything the operation does.
\<close>

lemma is_sleepD: "is_sleep c \<Longrightarrow> \<exists>d. c = Sleep d"
  by (cases c) (simp_all add: is_sleep_def)

lemma emits_of_tried:
  assumes "spec m (\<lambda>_ t. acted C t) (\<lambda>_ t. tried C t)"
    and "\<And>c r. C c \<Longrightarrow> A (c, r)" and "\<And>d r. A (Sleep d, r)"
  shows "emits A m"
  unfolding emits_def
proof (rule spec_mono [OF assms(1)])
  have ok: "A e" if "tried C t" "e \<in> set t" for t e
  proof -
    from that have "C (fst e) \<or> is_sleep (fst e)" by (simp add: tried_def)
    then show ?thesis using assms(2,3) is_sleepD by (metis prod.collapse)
  qed
  show "acted C t \<Longrightarrow> \<forall>e \<in> set t. A e" for t using ok by (blast dest: acted_tried)
  show "tried C t \<Longrightarrow> \<forall>e \<in> set t. A e" for t using ok by blast
qed

lemma emits_inspects_mono: "emits inspects m \<Longrightarrow> (\<And>e. inspects e \<Longrightarrow> A e) \<Longrightarrow> emits A m"
  by (rule emits_mono)

lemma quiet_query: "query_cmd cmd \<Longrightarrow> quiet (Popen cmd, r)"
  by (simp add: quiet_def changes_def)

lemma inspects_sleep: "inspects (Sleep d, r)"
  by (simp add: inspects_simps)

lemma emits_destroy_zvol [emits_intros]:
  "(\<And>c r. at_destroy z c \<Longrightarrow> A (c, r)) \<Longrightarrow> (\<And>e. inspects e \<Longrightarrow> A e) \<Longrightarrow> emits A (destroy_zvol E z)"
  by (rule emits_of_tried [OF spec_destroy_zvol]; simp add: inspects_sleep)

lemma emits_take_snapshot [emits_intros]:
  "(\<And>c r. at_snapshot sn c \<Longrightarrow> A (c, r)) \<Longrightarrow> (\<And>e. inspects e \<Longrightarrow> A e) \<Longrightarrow> emits A (take_snapshot E sn)"
  by (rule emits_of_tried [OF spec_take_snapshot]; simp add: inspects_sleep)

lemma emits_clone_snapshot [emits_intros]:
  "(\<And>c r. at_clone sn cl c \<Longrightarrow> A (c, r)) \<Longrightarrow> (\<And>e. inspects e \<Longrightarrow> A e) \<Longrightarrow> emits A (clone_snapshot E sn cl)"
  by (rule emits_of_tried [OF spec_clone_snapshot]; simp add: inspects_sleep)

definition at_set :: "string \<Rightarrow> string \<Rightarrow> call \<Rightarrow> bool" where
  "at_set vol prop c \<longleftrightarrow> (\<exists>v. c = Popen [''zfs'', ''set'', prop @ ''='' @ v, vol])"

lemma emits_cmd_retry [emits_intros]:
  "(\<And>r. A (Popen [''zfs'', ''promote'', vol], r)) \<Longrightarrow> (\<And>e. inspects e \<Longrightarrow> A e) \<Longrightarrow> emits A (promote_clone E vol)"
  "(\<And>c r. at_set vol ''volsize'' c \<Longrightarrow> A (c, r)) \<Longrightarrow> (\<And>e. inspects e \<Longrightarrow> A e) \<Longrightarrow> emits A (resize_zvol E vol n)"
  "(\<And>c r. at_set vol p c \<Longrightarrow> A (c, r)) \<Longrightarrow> (\<And>e. inspects e \<Longrightarrow> A e) \<Longrightarrow> emits A (vol_set_property E vol p v)"
  "(\<And>r. A (Popen [''zfs'', ''inherit'', p, vol], r)) \<Longrightarrow> (\<And>e. inspects e \<Longrightarrow> A e) \<Longrightarrow>
   emits A (vol_inherit_property E vol p)"
  "(\<And>c r. at_set vol ''refreservation'' c \<Longrightarrow> A (c, r)) \<Longrightarrow> (\<And>e. inspects e \<Longrightarrow> A e) \<Longrightarrow>
   emits A (set_refreservation E vol n)"
  unfolding promote_clone_def resize_zvol_def vol_set_property_def vol_inherit_property_def
    set_refreservation_def
  by (rule emits_run_unit_retry; simp add: at_set_def inspects_sleep)+

lemma emits_thick [emits_intros]:
  assumes "\<And>c r. at_set vol ''refreservation'' c \<Longrightarrow> A (c, r)" and "\<And>e. inspects e \<Longrightarrow> A e"
  shows "emits A (vol_sync_thick_refreservation E vol)" "emits A (vol_set_thick_refreservation E vol)"
  unfolding vol_sync_thick_refreservation_def vol_set_thick_refreservation_def
  by (intro emits_bind emits_only_if emits_parse_int emits_cmd_retry(5) assms; assumption?;
      rule emits_inspects_mono [OF _ assms(2)]; (rule queries_inspect | assumption))+

definition at_create :: "string \<Rightarrow> call \<Rightarrow> bool" where
  "at_create z c \<longleftrightarrow> (\<exists>n b. c = LzcCreate z n b) \<or> (\<exists>sz thin b p. c = Popen (create_args z sz thin b p))"

lemma emits_send_receive [emits_intros]:
  "(\<And>a b r. A (Pipeline a b, r)) \<Longrightarrow> emits A (vol_send_receive E sn dest)"
  unfolding vol_send_receive_def Let_def by (intro emits_intros emits_perform; assumption)

lemma emits_db [emits_intros]:
  "(\<And>r. A (Db opq c, r)) \<Longrightarrow> emits A (db_unit E opq c)"
  "(\<And>r. A (Db opq (InsertNewVolume n it), r)) \<Longrightarrow> emits A (insert_new_volume E opq n it)"
  "(\<And>r. A (Db opq (InsertChildVolume p vs sn), r)) \<Longrightarrow> emits A (insert_child_volume E opq p vs sn)"
  "(\<And>r. A (VolumeDestroyCb opq vol, r)) \<Longrightarrow> emits A (volume_destroy_cb E opq vol)"
  unfolding spec_ext_defs by (intro emits_intros; assumption)+

lemma inspect_db_reads [emits_intros]:
  "emits inspects (get_vdi_for_volume E opq vol)"
  "emits inspects (get_vdi_custom_keys E opq uuid)"
  unfolding spec_ext_defs by (intro emits_intros; simp add: inspects_simps)+

lemmas quiet_db_reads [emits_intros] = inspect_db_reads [THEN emits_inspects_quiet]

lemma emits_recover [emits_intros]:
  assumes "\<And>i sz r. A (Db opq (UpdateVsize i (Some sz)), r)" and "\<And>e. inspects e \<Longrightarrow> A e"
  shows "emits A (recover_vdi_vsize E opq ds v)"
  unfolding recover_vdi_vsize_def
  by (intro emits_option_case emits_ret emits_bind emits_andthen emits_db(1) assms(1)
      emits_inspects_mono [OF queries_inspect(22) assms(2)])

lemmas inspect_mono_intros =
  emits_inspects_mono [OF queries_inspect(1)] emits_inspects_mono [OF queries_inspect(2)]
  emits_inspects_mono [OF queries_inspect(3)] emits_inspects_mono [OF queries_inspect(4)]
  emits_inspects_mono [OF queries_inspect(8)] emits_inspects_mono [OF queries_inspect(10)]
  emits_inspects_mono [OF queries_inspect(21)] emits_inspects_mono [OF queries_inspect(22)]
  emits_inspects_mono [OF queries_inspect(23)] emits_inspects_mono [OF queries_inspect(25)]
  emits_inspects_mono [OF queries_inspect(27)]
  emits_inspects_mono [OF reads_inspect(1)] emits_inspects_mono [OF reads_inspect(2)]
  emits_inspects_mono [OF reads_inspect(3)] emits_inspects_mono [OF reads_inspect(4)]
  emits_inspects_mono [OF reads_inspect(5)] emits_inspects_mono [OF reads_inspect(6)]
  emits_inspects_mono [OF inspect_db_reads(1)] emits_inspects_mono [OF inspect_db_reads(2)]

section \<open>The commands of the volume handlers\<close>

lemma emits_refuse [emits_intros]: "emits quiet (refuse_immutable E vol k)"
  unfolding refuse_immutable_def by (intro emits_intros)

lemma emits_drop [emits_intros]:
  "(\<And>c r. at_destroy z c \<Longrightarrow> A (c, r)) \<Longrightarrow> (\<And>e. inspects e \<Longrightarrow> A e) \<Longrightarrow> emits A (drop_if_exists E p z)"
  unfolding drop_if_exists_def by (intro emits_intros inspect_mono_intros)

text \<open>The capture of bitmaps talks to qemu and to files.\<close>

definition cbt_event :: "event \<Rightarrow> bool" where
  "cbt_event e = (case fst e of Qmp _ _ _ \<Rightarrow> True | Fs _ \<Rightarrow> True | _ \<Rightarrow> False)"

lemma emits_pure_qemu [emits_intros]:
  "emits A (match_by_path E dev bs)" "emits A (match_by_bitmaps bs)"
  "emits A (bitmaps_of_node n bs)" "emits A (find_bitmap n bs)"
proof -
  show "emits A (match_by_path E dev bs)"
    by (induction bs) (auto intro!: emits_intros split: sum.splits bool.splits)
  show "emits A (match_by_bitmaps bs)" by (induction bs) (auto intro!: emits_intros)
  show "emits A (bitmaps_of_node n bs)" by (induction bs) (auto intro!: emits_intros)
  show "emits A (find_bitmap n bs)" by (induction bs) (auto intro!: emits_intros)
qed

lemma emits_fs [emits_intros]:
  "(\<And>r. A (Fs c, r)) \<Longrightarrow> emits A (fs_do E c)"
  "(\<And>r. A (Fs (Glob p), r)) \<Longrightarrow> emits A (glob E p)"
  "(\<And>r. A (Fs (ReadFile p), r)) \<Longrightarrow> emits A (read_pickle E p)"
  "(\<And>r. A (Qmp sock cmd args, r)) \<Longrightarrow> emits A (qmp E sock cmd args)"
  unfolding fs_do_def glob_def read_pickle_def qmp_def by (rule emits_call0; assumption)+

lemma cbt_events [simp]: "cbt_event (Fs c, r)" "cbt_event (Qmp sock cmd args, r)"
  by (simp_all add: cbt_event_def)

lemmas qemu_op_defs = qmp_do_def qmp_command_def on_bitmap_def cbt_bitmap_add_def cbt_bitmap_remove_def
  cbt_bitmap_clear_def cbt_bitmap_enable_def cbt_bitmap_disable_def cbt_bitmap_merge_def
  cbt_list_bitmaps_def ensure_nbd_server_def cbt_export_bitmap_def add_export_def frozen_info_def export_bitmap_def
  detect_block_node_def connect_existing_def load_metadata_def remove_cbt_metadata_def
  save_cbt_metadata_def mkdir_p_def freeze_bitmap_def try_socket_def find_xenopsd_qemu_for_device_def

lemma emits_sum_case [emits_intros]:
  "(\<And>e. r = Inl e \<Longrightarrow> emits A (f e)) \<Longrightarrow> (\<And>x. r = Inr x \<Longrightarrow> emits A (g x)) \<Longrightarrow>
   emits A (case r of Inl e \<Rightarrow> f e | Inr x \<Rightarrow> g x)"
  by (cases r) auto

lemma cbt_first_socket [emits_intros]: "emits cbt_event (first_socket E dev socks)"
  by (induction socks) (auto simp: qemu_op_defs intro!: emits_intros)

lemma cbt_capture_events: "emits cbt_event (cbt_capture_at_snapshot E sr ds p u)"
  unfolding cbt_capture_at_snapshot_def qemu_op_defs Let_def
  by (intro emits_intros; simp)

lemma cbt_cleanup_events: "emits cbt_event (cbt_cleanup E sr ds key)"
  unfolding cbt_cleanup_def qemu_op_defs Let_def
  by (intro emits_intros; simp)

end
