(* ===== verification/Samples.thy ===== *)
theory Samples
  imports Effects
begin

text \<open>
  A concrete environment for evaluating the model on an input: its world is the unit type,
  no library can be loaded and every operation raises OSError. A witness updates the fields
  its run uses.
\<close>

definition failing :: "('w, 'a) ext" where
  "failing w = (Inl PyOSError, w)"

definition returning :: "'a \<Rightarrow> ('w, 'a) ext" where
  "returning x w = (Inr x, w)"

definition any_env :: "'w env" where
  "any_env = \<lparr>
     e_popen = \<lambda>_. failing, e_check_call = \<lambda>_. failing, e_check_output = \<lambda>_. failing,
     e_popen_input = \<lambda>_ _. failing, e_execv = \<lambda>_ _. returning (), e_print = \<lambda>_. returning (),
     e_json_loads = \<lambda>_. None, e_pipeline = \<lambda>_ _. failing, e_redirected = \<lambda>_ _. failing,
     e_dlopen = \<lambda>_. None, e_find_library = \<lambda>_. None, e_core_init = 0,
     e_lzc_exists = \<lambda>_. failing, e_lzc_destroy = \<lambda>_. failing, e_lzc_snapshot = \<lambda>_. failing,
     e_lzc_clone = \<lambda>_ _. failing, e_lzc_create = \<lambda>_ _ _. failing,
     e_strerror = \<lambda>_. '''', e_sleep = \<lambda>_. returning (), e_uuid4 = failing, e_now = returning 0,
     e_sha256 = \<lambda>_. '''', e_get_sr_metadata = \<lambda>_. failing, e_update_sr_metadata = \<lambda>_ _. failing,
     e_ctx_enter = \<lambda>sr _. returning sr, e_ctx_exit = \<lambda>_ _. returning (),
     e_lock_enter = \<lambda>_ _. returning (), e_lock_exit = \<lambda>_ _. returning (),
     e_db_enter = \<lambda>_. returning (), e_db_exit = \<lambda>_ _. returning (),
     e_insert_new_volume = \<lambda>_ _ _. failing, e_insert_child_volume = \<lambda>_ _ _ _. failing,
     e_get_vdi = \<lambda>_ _. failing, e_get_vdi_for_volume = \<lambda>_ _. failing,
     e_get_all_vdis = \<lambda>_. failing, e_get_all_custom_keys = \<lambda>_. failing,
     e_get_custom_keys = \<lambda>_ _. failing, e_db_unit = \<lambda>_ _. failing,
     e_volume_destroy_cb = \<lambda>_ _. failing, e_create_database = \<lambda>_. failing,
     e_base_formats = \<lambda>_. None, e_image_raw = 0, e_image_vhd = 1, e_image_qcow2 = 2, e_has_datapath = False, e_fs_bool = \<lambda>_. failing,
     e_fs_list = \<lambda>_. failing, e_fs_unit = \<lambda>_. failing, e_fs_read = \<lambda>_. failing,
     e_realpath = \<lambda>p. p, e_has_qemudisk = False, e_nbd_connect = \<lambda>_. failing,
     e_kill = \<lambda>_ _. failing, e_qmp = \<lambda>_ _ _ w. ([], w),
     e_free_port = failing, e_listen = \<lambda>_. failing, e_fork = \<lambda>_ _. failing,
     e_os = \<lambda>_ _. returning 0, e_has_recvmsg = False, e_recvmsg = \<lambda>_. failing, e_connect_unix = \<lambda>_. failing\<rparr>"

definition bare_env :: "unit env" where
  "bare_env = any_env"

definition no_libs :: lib_state where
  "no_libs = \<lparr>lib_core = None, lib_nvpair = None, lib_init_done = False\<rparr>"

definition start_state :: "unit st" where
  "start_state = \<lparr>world = (), libs = no_libs, trace = []\<rparr>"

end
