(* ===== verification/VolumeProps.thy ===== *)
theory VolumeProps
  imports Footprint Samples
begin

text \<open>
  What the volume handlers promise: refusals change nothing, a resize first commits that the
  size is unknown, rows follow the storage they describe, and a copy is registered only when
  it is complete.
\<close>

section \<open>Setting a property\<close>

definition refused_property :: "string \<Rightarrow> string \<Rightarrow> bool" where
  "refused_property k v \<longleftrightarrow>
     (k \<in> set MUTABLE_ZFS_PROPERTIES \<and> \<not> valid_value k v) \<or>
     (k \<notin> set MUTABLE_ZFS_PROPERTIES \<and> k \<in> set IMMUTABLE_ZFS_PROPERTIES)"

lemma spec_never_returns: "spec m (\<lambda>_ _. False) (\<lambda>_ t. \<forall>e \<in> set t. quiet e) \<Longrightarrow>
    spec (andthen m n) (\<lambda>_ _. False) (\<lambda>_ t. \<forall>e \<in> set t. quiet e)"
  by (rule spec_andthen, erule spec_mono) auto

lemma spec_refuse: "spec (refuse_immutable E vol k) (\<lambda>_ _. False) (\<lambda>_ t. \<forall>e \<in> set t. quiet e)"
proof -
  have "emits quiet (if k = ''volblocksize''
           then bind (vol_get_property E vol ''volblocksize'') (\<lambda>b. lift_sum (format_volblocksize b))
           else if k = ''provisioning''
           then bind (vol_get_refreservation E vol) (\<lambda>r. ret (if r > 0 then ''thick'' else ''thin''))
           else ret ''unknown'')"
    by (intro emits_intros)
  then show ?thesis
    unfolding refuse_immutable_def emits_def
    by (intro spec_bind, elim spec_mono) (auto intro: spec_raise)
qed

text \<open>
  Volume.set refuses an invalid value of a mutable property and any value of an immutable one:
  it raises and changes nothing.
\<close>

theorem set_property_refuses:
  assumes "refused_property (strip_sm_config k) v"
  shows "spec (set_property E sr key k v) (\<lambda>_ _. False) (\<lambda>_ t. \<forall>e \<in> set t. quiet e)"
proof -
  let ?k = "strip_sm_config k"
  have body: "spec (if ?k \<in> set MUTABLE_ZFS_PROPERTIES then
           if \<not> valid_value ?k v
           then raise (storage_error ''SR_BACKEND_FAILURE_109'' [''Invalid property value'', ?k, v])
           else andthen (vol_set_property E vol ?k v)
                  (only_if (?k = ''copies'') (vol_sync_thick_refreservation E vol))
         else if ?k \<in> set IMMUTABLE_ZFS_PROPERTIES then refuse_immutable E vol ?k
         else ret ()) (\<lambda>_ _. False) (\<lambda>_ t. \<forall>e \<in> set t. quiet e)" for vol
    using assms by (auto simp: refused_property_def intro: spec_raise spec_refuse)
  show ?thesis
    unfolding set_property_def Let_def
    by (intro spec_bind spec_get_sr_metadata spec_sr_dataset_of spec_mono [OF spec_never_returns [OF body]])
      (auto simp: quiet_simps)
qed

theorem set_property_refuses_witness:
  "spec (set_property bare_env ''sr'' ''vdi'' ''_sm_config_compression'' ''bogus'')
     (\<lambda>_ _. False) (\<lambda>_ t. \<forall>e \<in> set t. quiet e)"
proof (rule set_property_refuses)
  show "refused_property (strip_sm_config ''_sm_config_compression'') ''bogus''"
    by code_simp
qed

section \<open>Resizing\<close>

text \<open>What every row that the database may answer satisfies.\<close>

lemma spec_row_known:
  assumes "\<And>w v. fst (e_get_vdi E opq key w) = Inr (Some v) \<Longrightarrow> ok v"
  shows "spec (the_vdi E opq key) (\<lambda>v t. ok v \<and> (\<forall>e \<in> set t. quiet e)) (\<lambda>_ t. \<forall>e \<in> set t. quiet e)"
proof -
  have a: "spec (the_vdi E opq key) (\<lambda>v _. ok v) (\<lambda>_ _. True)"
    using assms unfolding spec_def the_vdi_def get_vdi_by_id_def
    by (auto simp: bind_def perform_def of_option_def ret_def raise_def
        split: prod.splits sum.splits option.splits) (metis fst_conv)+
  show ?thesis
    by (rule spec_mono [OF spec_conj [OF a quiet_reads(5) [unfolded emits_def]]]) auto
qed

lemma spec_resize_check_shrink:
  fixes E :: "'w env"
  assumes "\<And>w v. fst (e_get_vdi E opq key w) = Inr (Some v) \<Longrightarrow> shrinks new_size v"
  shows "spec (resize_check E opq ds key new_size) (\<lambda>_ _. False) (\<lambda>_ t. \<forall>e \<in> set t. quiet e)"
  unfolding resize_check_def
proof (rule spec_bind, rule spec_mono [OF spec_row_known [where ok = "shrinks new_size"]])
  show "\<And>w v. fst (e_get_vdi E opq key w) = Inr (Some v) \<Longrightarrow> shrinks new_size v" by (rule assms)
next
  fix v t
  assume v: "shrinks new_size v \<and> (\<forall>e \<in> set t. quiet e)"
  then have "recover_vdi_vsize E opq ds v = ret v"
    by (auto simp: recover_vdi_vsize_def shrinks_def split: option.splits)
  with v show "spec (bind (recover_vdi_vsize E opq ds v) (\<lambda>v. if shrinks new_size v
       then raise (storage_error ''SR_BACKEND_FAILURE_79'' [''VDI Invalid size'', ''shrinking not allowed''])
       else andthen (db_unit E opq (UpdateVsize (v_id (vd_volume v)) None)) (ret v)))
      (\<lambda>_ _. False) (\<lambda>_ u. \<forall>e \<in> set (t @ u). quiet e)"
    by (auto simp: ret_bind intro: spec_raise)
qed simp

lemma spec_in_context_quiet:
  assumes "\<And>c. spec (body c) (\<lambda>_ _. False) (\<lambda>_ t. \<forall>e \<in> set t. quiet e)"
    and "emits quiet enter" and "\<And>c ok. emits quiet (leave c ok)"
  shows "spec (with_ctx enter leave body) (\<lambda>_ _. False) (\<lambda>_ t. \<forall>e \<in> set t. quiet e)"
proof (rule spec_with_ctx, rule spec_mono [OF assms(2) [unfolded emits_def]])
  fix c t
  assume t: "\<forall>e \<in> set t. quiet e"
  show "spec (body c)
      (\<lambda>_ u. spec (leave c True) (\<lambda>_ v. False) (\<lambda>_ v. \<forall>e \<in> set (t @ u @ v). quiet e))
      (\<lambda>_ u. spec (leave c False) (\<lambda>_ v. \<forall>e \<in> set (t @ u @ v). quiet e) (\<lambda>_ v. \<forall>e \<in> set (t @ u @ v). quiet e))"
    by (rule spec_mono [OF assms(1)]) (use t in \<open>auto intro!: spec_mono [OF assms(3) [unfolded emits_def]]\<close>)
qed auto

text \<open>
  C16. Volume.resize to a size below the recorded one raises, and no call it makes changes the
  pool, the database or a file.
\<close>

theorem resize_refuses_shrink:
  assumes "\<And>opq w v. fst (e_get_vdi E opq key w) = Inr (Some v) \<Longrightarrow>
    \<exists>old. v_vsize (vd_volume v) = Some old \<and> new_size < old"
  shows "spec (resize E sr key new_size) (\<lambda>_ _. False) (\<lambda>_ t. \<forall>e \<in> set t. quiet e)"
proof -
  have shrinking: "shrinks new_size v" if "fst (e_get_vdi E opq key w) = Inr (Some v)" for opq w v
    using assms [OF that] by (auto simp: shrinks_def)
  have check: "spec (with_db E opq (resize_check E opq ds key new_size)) (\<lambda>_ _. False)
      (\<lambda>_ t. \<forall>e \<in> set t. quiet e)" for opq ds
    unfolding with_db_def
    by (rule spec_in_context_quiet [OF spec_resize_check_shrink [OF shrinking]];
        assumption?; intro emits_intros; simp add: quiet_simps)
  have inner: "spec (bind (with_db E opq (resize_check E opq ds key new_size)) f) (\<lambda>_ _. False)
      (\<lambda>_ t. \<forall>e \<in> set t. quiet e)" for opq ds f
    by (rule spec_bind, rule spec_mono [OF check]) auto
  have ctx: "spec (with_volume_context E sr ''r'' (\<lambda>opq.
       bind (with_db E opq (resize_check E opq ds key new_size)) (\<lambda>v.
         with_db E opq (resize_apply E opq ds v new_size)))) (\<lambda>_ _. False) (\<lambda>_ t. \<forall>e \<in> set t. quiet e)" for ds
    unfolding with_volume_context_def
    by (rule spec_in_context_quiet [OF inner]; intro emits_intros; simp add: quiet_simps)
  show ?thesis
    unfolding resize_def
    by (intro spec_bind spec_get_sr_metadata spec_sr_dataset_of spec_mono [OF ctx])
      (auto simp: quiet_simps)
qed

definition sample_vdi :: vdi where
  "sample_vdi = \<lparr>vd_uuid = ''u'', vd_name = ''n'', vd_description = [], vd_image_type = 3,
     vd_sharable = False,
     vd_volume = \<lparr>v_id = 1, v_parent_id = None, v_snap = 0, v_vsize = Some 1000\<rparr>\<rparr>"

theorem resize_refuses_shrink_witness:
  "spec (resize (bare_env\<lparr>e_get_vdi := \<lambda>_ _. returning (Some sample_vdi)\<rparr>) ''sr'' ''u'' 999)
     (\<lambda>_ _. False) (\<lambda>_ t. \<forall>e \<in> set t. quiet e)"
  by (rule resize_refuses_shrink) (auto simp: returning_def sample_vdi_def)

text \<open>The state a crash leaves: the committed row says that the size is unknown.\<close>

definition size_unknown_committed :: "event list \<Rightarrow> bool" where
  "size_unknown_committed t \<longleftrightarrow>
     (\<exists>opq i. did [\<lambda>c. c = Db opq (UpdateVsize i None), \<lambda>c. c = DbExit opq True] t)"

definition sets_size :: "event \<Rightarrow> bool" where
  "sets_size e \<longleftrightarrow> (\<exists>vol. at_set vol ''volsize'' (fst e))"

lemma sets_size_not_quiet: "sets_size e \<Longrightarrow> \<not> quiet e"
  by (auto simp: sets_size_def at_set_def quiet_simps)

lemma sets_size_simps [simp]:
  "\<not> sets_size (DbEnter opq, r)" "\<not> sets_size (DbExit opq ok, r)" "\<not> sets_size (Db opq c, r)"
  by (auto simp: sets_size_def at_set_def)

lemma lasting_size_unknown: "lasting size_unknown_committed"
  unfolding size_unknown_committed_def by (intro lasting_ex lasting_did)

lemma size_unknown_earlier: "size_unknown_committed a \<Longrightarrow> size_unknown_committed (t @ a)"
  unfolding size_unknown_committed_def by (blast intro: did_before)

lemma spec_resize_check:
  "spec (resize_check E opq ds key new_size)
     (\<lambda>v t. (\<exists>i. did [\<lambda>c. c = Db opq (UpdateVsize i None)] t) \<and> none sets_size t) (\<lambda>_ t. none sets_size t)"
proof -
  have a: "never sets_size (the_vdi E opq key)"
    by (rule never_quiet [OF quiet_reads(5) sets_size_not_quiet])
  have b: "never sets_size (recover_vdi_vsize E opq ds v)" for v
    unfolding never_def by (rule emits_recover) (auto dest: sets_size_not_quiet inspects_quiet)
  show ?thesis
    unfolding resize_check_def
  proof (rule spec_bind, rule spec_mono [OF a [unfolded never_def emits_def]], rule spec_bind,
      rule spec_mono [OF b [unfolded never_def emits_def]])
    fix v0 v :: vdi and t u :: "event list"
    assume "none sets_size t" "none sets_size u"
    then show "spec (if shrinks new_size v
           then raise (storage_error ''SR_BACKEND_FAILURE_79'' [''VDI Invalid size'', ''shrinking not allowed''])
           else andthen (db_unit E opq (UpdateVsize (v_id (vd_volume v)) None)) (ret v))
         (\<lambda>v w. (\<exists>i. did [\<lambda>c. c = Db opq (UpdateVsize i None)] (t @ u @ w)) \<and> none sets_size (t @ u @ w))
         (\<lambda>_ w. none sets_size (t @ u @ w))"
      unfolding spec_ext_defs
      by (intro spec_intros) (auto intro!: exI did_before did_one)
  qed auto
qed

lemma extends_resize_apply: "extends (resize_apply E opq ds v n)"
  unfolding resize_apply_def Let_def by (intro emits_intros inspect_mono_intros TrueI)

lemma extends_with_db: "extends m \<Longrightarrow> extends (with_db E opq m)"
  by (intro emits_contexts TrueI)

lemma spec_resize_check_committed:
  "spec (with_db E opq (resize_check E opq ds key n))
     (\<lambda>_ t. size_unknown_committed t \<and> none sets_size t) (\<lambda>_ t. none sets_size t)"
proof (rule spec_mono [OF spec_with_db [OF spec_resize_check]], elim exE conjE)
  fix t u :: "event list" and i
  assume t: "t = (DbEnter opq, Some 0) # u @ [(DbExit opq True, Some 0)]"
    and i: "did [\<lambda>c. c = Db opq (UpdateVsize i None)] u" and u: "none sets_size u"
  from did_append [OF i did_one] have "did [\<lambda>c. c = Db opq (UpdateVsize i None), \<lambda>c. c = DbExit opq True]
      (u @ [(DbExit opq True, Some 0)])" by simp
  with t u show "size_unknown_committed t \<and> none sets_size t"
    by (auto simp: size_unknown_committed_def intro: did_Cons_event)
qed auto

text \<open>
  C12. Volume.resize sets the size of the zvol only after a committed transaction has recorded
  that the size is unknown, so that a crash in between is repaired by recover_vdi_vsize.
\<close>

theorem resize_commits_unknown_first:
  "spec (resize E sr key new_size)
     (\<lambda>_ t. guards size_unknown_committed sets_size t) (\<lambda>_ t. guards size_unknown_committed sets_size t)"
proof -
  have body: "spec (bind (with_db E opq (resize_check E opq ds key new_size)) (\<lambda>v.
         with_db E opq (resize_apply E opq ds v new_size)))
      (\<lambda>_ t. guards size_unknown_committed sets_size t) (\<lambda>_ t. guards size_unknown_committed sets_size t)" for opq ds
    by (rule guards_bind [OF lasting_size_unknown spec_resize_check_committed])
      (intro extends_with_db extends_resize_apply)
  show ?thesis
    unfolding resize_def
    by (intro guards_bind_later size_unknown_earlier guards_contexts body
          never_quiet [OF quiet_reads(1)] never_quiet [OF emits_pure(3)])
      (auto dest: sets_size_not_quiet admin_quiet)
qed

section \<open>Snapshot\<close>

text \<open>The row of the snapshot comes after the storage: snapshot, clone, read-only mark.\<close>

definition inserts_vdi :: "event \<Rightarrow> bool" where
  "inserts_vdi e \<longleftrightarrow> (\<exists>opq n d u i sh. fst e = Db opq (InsertVdi n d u i sh))"

definition snapshot_stored :: "event list \<Rightarrow> bool" where
  "snapshot_stored t \<longleftrightarrow> (\<exists>sn cl. did [at_snapshot sn, at_clone sn cl,
     \<lambda>c. c = Popen [''zfs'', ''set'', ''readonly=on'', cl]] t)"

lemma lasting_snapshot_stored: "lasting snapshot_stored"
  unfolding snapshot_stored_def by (intro lasting_ex lasting_did)

lemma snapshot_stored_later: "snapshot_stored a \<Longrightarrow> snapshot_stored (t @ a)"
  unfolding snapshot_stored_def by (blast intro: did_before)

lemma inserts_vdi_not_quiet: "inserts_vdi e \<Longrightarrow> \<not> quiet e"
  by (auto simp: inserts_vdi_def quiet_simps)

lemma inserts_vdi_simps [simp]:
  "at_snapshot sn c \<Longrightarrow> \<not> inserts_vdi (c, r)" "at_clone sn cl c \<Longrightarrow> \<not> inserts_vdi (c, r)"
  "at_destroy z c \<Longrightarrow> \<not> inserts_vdi (c, r)" "at_set z p c \<Longrightarrow> \<not> inserts_vdi (c, r)"
  "\<not> inserts_vdi (Popen cmd, r)" "\<not> inserts_vdi (Sleep d, r)" "\<not> inserts_vdi (Pipeline x y, r)"
  "\<not> inserts_vdi (Db opq (UpdateVsize i s'), r)" "\<not> inserts_vdi (Db opq (InsertNewVolume n it), r)"
  "\<not> inserts_vdi (Db opq (InsertChildVolume p' v' b'), r)"
  by (auto simp: inserts_vdi_def at_snapshot_def at_clone_def at_destroy_def at_set_def)

lemma spec_vol_set_property:
  "spec (vol_set_property E vol p v)
     (\<lambda>_ t. acted (\<lambda>c. c = Popen [''zfs'', ''set'', p @ ''='' @ v, vol]) t)
     (\<lambda>_ t. tried (\<lambda>c. c = Popen [''zfs'', ''set'', p @ ''='' @ v, vol]) t)"
  unfolding vol_set_property_def by (rule spec_run_unit_retry) simp

lemma cbt_no_insert: "cbt_event e \<Longrightarrow> \<not> inserts_vdi e"
  by (auto simp: cbt_event_def inserts_vdi_def)

lemma admin_no_insert: "inserts_vdi e \<Longrightarrow> \<not> admin e"
  using admin_quiet inserts_vdi_not_quiet by blast

lemma never_insert_reads:
  "never inserts_vdi (get_sr_metadata E uri)" "never inserts_vdi (getVolumeUriPrefix E opq)"
  "never inserts_vdi (uuid4 E)" "never inserts_vdi (the_vdi E opq key)"
  "never inserts_vdi (recover_vdi_vsize E opq ds v)" "never inserts_vdi (get_format E it)"
  "never inserts_vdi (sr_dataset_of meta)" "never inserts_vdi (snapshot_parent E opq v)"
  "never inserts_vdi (insert_child_volume E opq p vs sn)"
  "never inserts_vdi (insert_new_volume E opq n it)"
  "never inserts_vdi (get_zvol_used_bytes E vol)"
  "never inserts_vdi (vol_get_refreservation E vol)"
  "never inserts_vdi (of_option e x)"
  "never inserts_vdi (catch (cbt_capture_at_snapshot E sr ds pu u) (\<lambda>_. ret ()))"
  unfolding never_def snapshot_parent_def
  by (intro emits_intros inspect_mono_intros emits_mono [OF cbt_capture_events cbt_no_insert];
      auto dest: inserts_vdi_not_quiet inspects_quiet)+

lemma acts:
  "achieves inserts_vdi [at_snapshot sn] (take_snapshot E sn)"
  "achieves inserts_vdi [at_clone sn cl] (clone_snapshot E sn cl)"
  "achieves inserts_vdi [at_destroy z] (destroy_zvol E z)"
  "achieves inserts_vdi [\<lambda>c. c = Popen [''zfs'', ''set'', p @ ''='' @ v, vol]] (vol_set_property E vol p v)"
  by (rule achieves_act [OF spec_take_snapshot]; simp)
    (rule achieves_act [OF spec_clone_snapshot] achieves_act [OF spec_destroy_zvol]
      achieves_act [OF spec_vol_set_property]; simp; fail)+

lemma store_achieves:
  "achieves inserts_vdi [at_snapshot sn, at_clone sn cl, \<lambda>c. c = Popen [''zfs'', ''set'', ''readonly=on'', cl]]
     (andthen (take_snapshot E sn) (andthen (clone_snapshot E sn cl) (vol_set_property E cl ''readonly'' ''on'')))"
proof -
  have mark: "achieves inserts_vdi [\<lambda>c. c = Popen [''zfs'', ''set'', ''readonly=on'', cl]]
      (vol_set_property E cl ''readonly'' ''on'')"
    using acts(4) [of "''readonly''" "''on''" cl E] by simp
  show ?thesis
    using achieves_andthen [OF acts(1) [of sn E] achieves_andthen [OF acts(2) [of sn cl E] mark]] by simp
qed

lemma spec_snapshot_body:
  "spec (snapshot_body E opq ds key u)
     (\<lambda>_ t. guards snapshot_stored inserts_vdi t) (\<lambda>_ t. guards snapshot_stored inserts_vdi t)"
proof -
  have store: "spec (andthen (take_snapshot E sn) (andthen (clone_snapshot E sn cl)
         (andthen (vol_set_property E cl ''readonly'' ''on'') (andthen (db_unit E opq c) (ret x)))))
      (\<lambda>_ t. guards snapshot_stored inserts_vdi t) (\<lambda>_ t. guards snapshot_stored inserts_vdi t)" for sn cl c x
  proof -
    have "spec (bind (andthen (take_snapshot E sn) (andthen (clone_snapshot E sn cl)
           (vol_set_property E cl ''readonly'' ''on''))) (\<lambda>_. andthen (db_unit E opq c) (ret x)))
        (\<lambda>_ t. guards snapshot_stored inserts_vdi t) (\<lambda>_ t. guards snapshot_stored inserts_vdi t)"
      by (rule guards_achieves [OF store_achieves _ lasting_snapshot_stored])
        (auto simp: snapshot_stored_def intro!: emits_intros)
    then show ?thesis by (simp add: andthen_def bind_assoc)
  qed
  show ?thesis
    unfolding snapshot_body_def Let_def
    by (intro guards_bind_later never_insert_reads snapshot_stored_later spec_prod_case store)
qed

text \<open>
  C11. Volume.snapshot inserts the row of the snapshot only after the ZFS snapshot, its clone
  and the read-only mark of the clone have all succeeded, in this order.
\<close>

theorem snapshot_row_after_storage:
  "spec (snapshot E sr key)
     (\<lambda>_ t. guards snapshot_stored inserts_vdi t) (\<lambda>_ t. guards snapshot_stored inserts_vdi t)"
proof -
  have later: "never inserts_vdi (case r of (v, fmt, p, sn) \<Rightarrow>
        andthen (catch (cbt_capture_at_snapshot E sr ds p u) (\<lambda>_. ret ()))
          (bind (getVolumeUriPrefix E opq) (\<lambda>pre. ret (v, fmt @ pre @ u, sn))))" for r ds u opq
    by (cases r rule: prod_cases4) (simp only: prod.case, intro never_insert_reads never_intros)
  have last_step: "never inserts_vdi (case r of (v, uri, sn) \<Rightarrow>
        bind (get_zvol_used_bytes E sn) (\<lambda>used. ret (info_of v u False used uri)))" for r u
    by (cases r rule: prod_cases3) (simp only: prod.case, intro never_intros never_insert_reads)
  show ?thesis
    unfolding snapshot_def
    by (intro guards_bind_later never_insert_reads snapshot_stored_later
        guards_bind_end [OF guards_contexts(1)] guards_bind_end [OF guards_locked_db]
        admin_no_insert spec_snapshot_body later last_step)
qed

section \<open>Create\<close>

text \<open>The transaction that holds the rows of the volume is committed after the zvol is made.\<close>

definition commits :: "event \<Rightarrow> bool" where
  "commits e \<longleftrightarrow> (\<exists>opq. fst e = DbExit opq True)"

definition zvol_created :: "event list \<Rightarrow> bool" where
  "zvol_created t \<longleftrightarrow> (\<exists>z. did [at_create z] t)"

lemma lasting_zvol_created: "lasting zvol_created"
  unfolding zvol_created_def by (intro lasting_ex lasting_did)

lemma zvol_created_later: "zvol_created a \<Longrightarrow> zvol_created (t @ a)"
  unfolding zvol_created_def by (blast intro: did_before)

lemma commits_simps [simp]:
  "\<not> commits (DbEnter opq, r)" "\<not> commits (DbExit opq False, r)" "\<not> commits (Db opq c, r)"
  "\<not> commits (Popen cmd, r)" "\<not> commits (Sleep d, r)" "\<not> commits (LzcCreate z n b, r)"
  "\<not> commits (LockEnter opq n', r)" "\<not> commits (LockExit opq ok, r)" "\<not> commits (CtxEnter sr mode, r)"
  "\<not> commits (CtxExit opq ok, r)" "\<not> commits (GetSrMetadata uri, r)" "\<not> commits (Uuid4, r)"
  "\<not> commits (VolumeDestroyCb opq vol, r)" "\<not> commits (LzcDestroy z, r)" "\<not> commits (Pipeline x y, r)"
  "commits (DbExit opq True, r)"
  by (auto simp: commits_def)

lemma guards_transaction:
  assumes "spec m (\<lambda>_ t. G t \<and> none commits t) (\<lambda>_ t. none commits t)" and "lasting G"
    and "\<And>t a. G a \<Longrightarrow> G (t @ a)"
  shows "spec (with_db E opq m) (\<lambda>_ t. guards G commits t) (\<lambda>_ t. guards G commits t)"
proof (rule spec_mono [OF spec_with_db [OF assms(1)]], elim exE conjE)
  have "guards G commits ((DbEnter opq, Some 0) # u @ [(DbExit opq True, r)])"
    if "G u" "none commits u" for u r
  proof -
    have "G ((DbEnter opq, Some 0) # u)" using assms(3) [OF that(1), of "[(DbEnter opq, Some 0)]"] by simp
    with that show ?thesis by (auto simp: guards_def intro: guards_from_none)
  qed
  then show "guards G commits t" if "t = (DbEnter opq, Some 0) # u @ [(DbExit opq True, Some 0)]" "G u" "none commits u"
    for t u using that by simp
  show "guards G commits t" if "t = [(DbEnter opq, None)] \<or>
      (\<exists>u r e. t = (DbEnter opq, Some 0) # u @ [(DbExit opq False, r)] \<and> none commits u) \<or>
      (\<exists>u x. t = (DbEnter opq, Some 0) # u @ [(DbExit opq True, None)] \<and> G u \<and> none commits u)" for t
    using that
    by (elim disjE exE conjE)
      (simp_all add: guards_none \<open>\<And>u r. G u \<Longrightarrow> none commits u \<Longrightarrow>
        guards G commits ((DbEnter opq, Some 0) # u @ [(DbExit opq True, r)])\<close>)
qed

lemma spec_create_zvol:
  "spec (create_zvol E z sz thin blk p) (\<lambda>_ t. did [at_create z] t \<and> none commits t) (\<lambda>_ t. none commits t)"
proof -
  have cli: "achieves commits [at_create z] (run_unit_retry E (create_args z sz thin blk p))"
    by (rule achieves_act, rule spec_run_unit_retry) (auto simp: at_create_def)
  have reserve: "never commits (only_if b (bind (case zp_copies p of Some c \<Rightarrow> parse_int c
        | None \<Rightarrow> bind (vol_get_property E z ''copies'') parse_int) (\<lambda>k. set_refreservation E z (f k))))" for b f
    unfolding never_def
    by (intro emits_only_if emits_bind emits_option_case emits_parse_int emits_cmd_retry(5) inspect_mono_intros)
      (auto simp: commits_def at_set_def inspects_def admin_def)
  have lzc: "achieves commits [at_create z] (bind (create_zvol_with_retry E z sz blk)
      (\<lambda>rc. if rc = 0 then ret () else raise (lzc_error E w rc)))" for w
    unfolding achieves_def create_zvol_with_retry_def
  proof (rule spec_bind, rule spec_mono [OF creating.with_retry_spec])
    fix rc :: int and t
    assume t: "attempts (LzcCreate z (uint64 (round_volsize sz blk)) (uint64 blk)) (\<lambda>rc. rc \<in> RETRYABLE_ERRNOS) (1 / 10) 10
        (\<lambda>x. x = Some rc) t \<and> (rc \<in> RETRYABLE_ERRNOS \<longrightarrow> (\<exists>u. retried (LzcCreate z (uint64 (round_volsize sz blk)) (uint64 blk))
          (\<lambda>rc. rc \<in> RETRYABLE_ERRNOS) (1 / 10) (10 - 1) u \<and> t = u @ [(LzcCreate z (uint64 (round_volsize sz blk)) (uint64 blk), Some rc)]))"
    then have n: "none commits t" by (auto dest!: attempts_events simp: commits_def)
    have "rc = 0 \<Longrightarrow> did [at_create z] t"
      using t by (auto elim!: attemptsE intro!: did_one [of _ "LzcCreate z (uint64 (round_volsize sz blk)) (uint64 blk)"] simp: at_create_def)
    with n show "spec (if rc = 0 then ret () else raise (lzc_error E w rc))
        (\<lambda>_ u. did [at_create z] (t @ u) \<and> none commits (t @ u)) (\<lambda>_ u. none commits (t @ u))"
      by (auto intro!: spec_ret spec_raise)
  qed (auto simp: commits_def)
  have gate: "never commits (if thin \<and> \<not> has_extra_props p then create_zvol_available E else ret False)"
    unfolding never_def by (intro emits_intros)
  show ?thesis
    unfolding create_zvol_def achieves_def [symmetric]
  proof (rule achieves_before [OF gate])
    fix b
    show "achieves commits [at_create z] (if b then bind (create_zvol_with_retry E z sz blk)
        (\<lambda>rc. if rc = 0 then ret () else raise (lzc_error E (''lzc_create('' @ z @ '')'') rc))
      else andthen (run_unit_retry E (create_args z sz thin blk p)) (only_if (\<not> thin)
        (bind (case zp_copies p of Some c \<Rightarrow> parse_int c | None \<Rightarrow> bind (vol_get_property E z ''copies'') parse_int)
          (\<lambda>k. set_refreservation E z (sz * k)))))"
      unfolding andthen_def by (cases b; simp only: if_True if_False) (intro lzc achieves_after cli reserve)+
  qed
qed

lemma guards_locked_transaction:
  assumes "achieves commits Cs m" and "\<And>t. did Cs t \<Longrightarrow> G t" and "lasting G"
    and "\<And>t a. G a \<Longrightarrow> G (t @ a)"
  shows "spec (with_locked_db E opq m) (\<lambda>_ t. guards G commits t) (\<lambda>_ t. guards G commits t)"
  unfolding with_locked_db_def with_poll_lock_def
proof (rule guards_ctx)
  have "spec m (\<lambda>_ t. G t \<and> none commits t) (\<lambda>_ t. none commits t)"
    by (rule spec_mono [OF assms(1) [unfolded achieves_def]]) (auto intro: assms(2))
  then show "spec (with_db E opq m) (\<lambda>_ t. guards G commits t) (\<lambda>_ t. guards G commits t)"
    using assms(3,4) by (rule guards_transaction)
qed (auto simp: never_def intro!: emits_call0 assms(4))

lemma guards_volume_context:
  assumes "\<And>o'. spec (f o') (\<lambda>_ t. guards G commits t) (\<lambda>_ t. guards G commits t)"
    and "\<And>t a. G a \<Longrightarrow> G (t @ a)"
  shows "spec (with_volume_context E sr mode f) (\<lambda>_ t. guards G commits t) (\<lambda>_ t. guards G commits t)"
  unfolding with_volume_context_def
  by (rule guards_ctx) (auto simp: never_def intro!: emits_call0 assms)

lemma inspects_no_commit: "inspects e \<Longrightarrow> \<not> commits e"
  by (auto simp: inspects_def admin_def commits_def)

lemma never_commits:
  "never commits (db_unit E opq c)" "never commits (insert_new_volume E opq n it)"
  "never commits (insert_child_volume E opq p vs sn)" "never commits (volume_destroy_cb E opq vol)"
  "never commits (recover_vdi_vsize E opq ds v)"
  "never commits (of_option e x)" "never commits (as_str s)" "never commits (vdi_defaults_of meta)"
  "never commits (sr_dataset_of meta)" "never commits (get_format E it)"
  unfolding never_def vdi_defaults_of_def
  by (intro emits_db emits_recover emits_pure emits_of_option emits_as_str emits_as_dict; simp add: inspects_no_commit)+

lemmas never_commits_reads =
  never_inspects [OF queries_inspect(1) inspects_no_commit] never_inspects [OF queries_inspect(2) inspects_no_commit]
  never_inspects [OF queries_inspect(3) inspects_no_commit] never_inspects [OF queries_inspect(4) inspects_no_commit]
  never_inspects [OF queries_inspect(10) inspects_no_commit]
  never_inspects [OF queries_inspect(21) inspects_no_commit] never_inspects [OF queries_inspect(22) inspects_no_commit]
  never_inspects [OF queries_inspect(23) inspects_no_commit] never_inspects [OF queries_inspect(25) inspects_no_commit]
  never_inspects [OF reads_inspect(1) inspects_no_commit] never_inspects [OF reads_inspect(2) inspects_no_commit]
  never_inspects [OF reads_inspect(3) inspects_no_commit] never_inspects [OF reads_inspect(4) inspects_no_commit]
  never_inspects [OF reads_inspect(5) inspects_no_commit] never_inspects [OF reads_inspect(6) inspects_no_commit]

lemma create_body_achieves:
  "achieves commits [at_create (format_zvol_name ds u)] (create_body E opq ds u name desc sz sh thin blk it)"
  unfolding create_body_def andthen_def
  by (intro achieves_before achieves_after spec_create_zvol [folded achieves_def]
      never_intros never_commits never_commits_reads)

lemma never_check_thick: "never commits (check_thick_space E ds sz)"
  unfolding check_thick_space_def effective_copies_def
  by (intro never_inspects [OF _ inspects_no_commit] emits_intros)

text \<open>
  C1. Volume.create commits the transaction with the new rows only after the zvol has been
  created, on every path including exceptions and interrupted runs.
\<close>

theorem create_commits_after_zvol:
  "spec (create E sr name desc sz sharable)
     (\<lambda>_ t. guards zvol_created commits t) (\<lambda>_ t. guards zvol_created commits t)"
proof -
  have rest: "never commits (case r of (u, vsize, uri) \<Rightarrow>
      bind (get_zvol_used_bytes E (format_zvol_name ds u)) (\<lambda>used. ret (f u vsize uri used)))" for r ds f
    by (cases r rule: prod_cases3) (simp only: prod.case, intro never_intros never_commits_reads)
  have inner: "spec (with_locked_db E opq (create_body E opq ds u name desc sz sharable thin blk it))
      (\<lambda>_ t. guards zvol_created commits t) (\<lambda>_ t. guards zvol_created commits t)" for opq ds u thin blk it
    by (rule guards_locked_transaction [OF create_body_achieves _ lasting_zvol_created zvol_created_later])
      (auto simp: zvol_created_def)
  show ?thesis
    unfolding create_def Let_def andthen_def
    by (intro guards_bind_later zvol_created_later never_commits never_commits_reads
        never_only_if never_check_thick guards_bind_end [OF guards_volume_context] guards_bind_end [OF inner]
        rest never_bind never_ret)
qed

lemma quiet_effective_copies: "emits quiet (effective_copies E ds)"
  unfolding effective_copies_def by (intro emits_intros)

text \<open>
  Volume.create of a thick volume whose size times copies exceeds the space available raises
  and changes nothing.
\<close>

theorem create_refuses_thick_overcommit:
  fixes E :: "'w env"
  assumes "returns (get_sr_metadata E (file_uri sr)) meta"
    and "returns (sr_dataset_of meta :: ('w, string) prog) ds"
    and "dget meta ''vdi_defaults'' = Some (PDict [(''provisioning'', PStr ''thick'')])"
    and "returns (effective_copies E ds) copies" and "returns (dataset_get_available E ds) avail"
    and "avail < sz * copies"
  shows "refused (create E sr name desc sz sharable)"
proof -
  have d: "vdi_defaults_of meta = ret [(''provisioning'', PStr ''thick'')]"
    using assms(3) by (simp add: vdi_defaults_of_def dget_or_def dget_def as_dict_def)
  have space: "refused (check_thick_space E ds sz)"
    unfolding check_thick_space_def
    by (intro refused_bind [OF assms(4) quiet_effective_copies] refused_bind [OF assms(5) queries_quiet(10)])
      (use assms(6) in \<open>simp add: refused_raise\<close>)
  show ?thesis
    unfolding create_def
    by (intro refused_bind [OF assms(1) quiet_reads(1)] refused_bind [OF assms(2) emits_pure(3)])
      (simp add: d dget_or_def as_str_def refused_andthen only_if_def Let_def space bind_def ret_def)
qed

definition thick_env :: "unit env" where
  "thick_env = bare_env\<lparr>
     e_get_sr_metadata := \<lambda>_. returning [(''zpool'', PStr ''tank''), (''dataset'', PStr ''vms''),
        (''vdi_defaults'', PDict [(''provisioning'', PStr ''thick'')])],
     e_popen := \<lambda>_. returning (''2'', [], 0)\<rparr>"

lemma thick_env_cmd: "returns (zfs_cmd thick_env cmd) ''2''"
  by (rule returns_zfs_cmd) (simp add: thick_env_def returning_def)

theorem create_refuses_thick_overcommit_witness:
  "refused (create thick_env ''sr'' ''n'' [] 5 False)"
proof (rule create_refuses_thick_overcommit)
  show "returns (get_sr_metadata thick_env (file_uri ''sr''))
      [(''zpool'', PStr ''tank''), (''dataset'', PStr ''vms''),
       (''vdi_defaults'', PDict [(''provisioning'', PStr ''thick'')])]"
    by (simp add: returns_def get_sr_metadata_def perform_def thick_env_def returning_def)
  show "returns (sr_dataset_of [(''zpool'', PStr ''tank''), (''dataset'', PStr ''vms''),
       (''vdi_defaults'', PDict [(''provisioning'', PStr ''thick'')])] :: (unit, string) prog) ''tank/vms''"
    by (simp add: returns_def sr_dataset_of_def key_of_def dget_def of_option_def as_str_def as_opt_str_def
        bind_def ret_def dataset_path_def)
  have two: "py_int ''2'' = Some 2" "py_strip ''2'' = ''2''" by code_simp+
  show "returns (effective_copies thick_env ''tank/vms'') 2"
    unfolding effective_copies_def vol_get_property_def parse_int_def
    by (intro returns_catch returns_bind [OF returns_bind [OF thick_env_cmd returns_ret]])
      (simp add: two of_option_def returns_ret)
  show "returns (dataset_get_available thick_env ''tank/vms'') 2"
    unfolding dataset_get_available_def get_bytes_def int_cmd_def parse_int_def
    by (intro returns_bind [OF thick_env_cmd]) (simp add: two of_option_def returns_ret)
  show "dget [(''zpool'', PStr ''tank''), (''dataset'', PStr ''vms''),
       (''vdi_defaults'', PDict [(''provisioning'', PStr ''thick'')])] ''vdi_defaults'' =
      Some (PDict [(''provisioning'', PStr ''thick'')])"
    by (simp add: dget_def)
qed simp

section \<open>Destroy\<close>

text \<open>The zvol of a volume, or a snapshot found under the uuid wherever promotions moved it.\<close>

definition names_vdi :: "string \<Rightarrow> string \<Rightarrow> bool" where
  "names_vdi z key \<longleftrightarrow> (\<exists>ds. z = format_zvol_name ds key) \<or> (\<exists>p. z = p @ ''@'' @ key)"

definition deletes_row :: "event \<Rightarrow> bool" where
  "deletes_row e \<longleftrightarrow> (case fst e of Db _ (DeleteVdi _) \<Rightarrow> True | Db _ (DeleteVolume _) \<Rightarrow> True
     | VolumeDestroyCb _ _ \<Rightarrow> True | _ \<Rightarrow> False)"

definition storage_gone :: "string \<Rightarrow> event list \<Rightarrow> bool" where
  "storage_gone key t \<longleftrightarrow> (\<exists>z. names_vdi z key \<and> did [at_destroy z] t)"

lemma lasting_storage_gone: "lasting (storage_gone key)"
  by (auto simp: lasting_def storage_gone_def intro: did_after)

lemma storage_gone_later: "storage_gone key a \<Longrightarrow> storage_gone key (t @ a)"
  unfolding storage_gone_def by (blast intro: did_before)

lemma snapshot_in_name: "snapshot_in u ns = Inr (Some n) \<Longrightarrow> \<exists>p. n = p @ ''@'' @ u"
proof (induction u ns rule: snapshot_in.induct)
  case (2 u name rest)
  show ?case
  proof (cases "split_on CHR ''@'' name")
    case (Cons a l)
    show ?thesis
    proof (cases l)
      case Nil
      with Cons 2 show ?thesis by simp
    next
      case (Cons b l')
      with \<open>split_on CHR ''@'' name = a # l\<close> 2 have s: "split_on CHR ''@'' name = [a, b]"
        by (cases l') (auto split: if_splits)
      show ?thesis
      proof (cases "b = u")
        case True
        with s 2 have "n = name" by simp
        with s True join_split [of "CHR ''@''" name] show ?thesis by (auto intro!: exI [of _ a])
      next
        case False
        with s 2 show ?thesis by simp
      qed
    qed
  qed (use 2 in simp)
qed simp

lemma deletes_row_simps [simp]:
  "\<not> deletes_row (Popen cmd, r)" "\<not> deletes_row (Sleep p, r)" "\<not> deletes_row (LzcDestroy z, r)"
  "\<not> deletes_row (LzcClone a b, r)" "\<not> deletes_row (Db opq (InsertChildVolume p' v' b'), r)"
  "\<not> deletes_row (Db opq (InsertVdi n d u i sh), r)" "\<not> deletes_row (Db opq (UpdateVsize i s'), r)"
  by (simp_all add: deletes_row_def)

lemma inspects_no_delete: "inspects e \<Longrightarrow> \<not> deletes_row e"
  by (auto simp: deletes_row_def inspects_simps split: call.splits dbcall.splits)

lemmas never_delete_reads =
  never_inspects [OF queries_inspect(1) inspects_no_delete] never_inspects [OF queries_inspect(2) inspects_no_delete]
  never_inspects [OF queries_inspect(3) inspects_no_delete] never_inspects [OF queries_inspect(4) inspects_no_delete]
  never_inspects [OF reads_inspect(1) inspects_no_delete] never_inspects [OF reads_inspect(3) inspects_no_delete]
  never_inspects [OF reads_inspect(5) inspects_no_delete] never_inspects [OF reads_inspect(6) inspects_no_delete]

lemma at_simps [simp]: "at_destroy z c \<Longrightarrow> \<not> deletes_row (c, r)" "at_clone sn cl c \<Longrightarrow> \<not> deletes_row (c, r)"
  by (auto simp: at_destroy_def at_clone_def)

lemma never_delete_ops:
  "never deletes_row (clone_snapshot E sn cl)" "never deletes_row (promote_clone E z)"
  "never deletes_row (db_unit E opq (InsertVdi n d u i sh))" "never deletes_row (insert_child_volume E opq p vs b)"
  "never deletes_row (recover_vdi_vsize E opq ds v)"
  unfolding never_def
  by (intro emits_clone_snapshot emits_cmd_retry emits_db emits_recover; simp add: inspects_no_delete)+

lemma destroy_zvol_achieves: "achieves deletes_row [at_destroy z] (destroy_zvol E z)"
  by (rule achieves_act [OF spec_destroy_zvol]) simp_all

lemma never_dependency: "never deletes_row (dependency_of E opq ds v sn)"
  unfolding dependency_of_def Let_def
  by (intro never_intros never_delete_reads never_delete_ops)

lemma destroy_volume_achieves:
  "achieves deletes_row [at_destroy (format_zvol_name ds (vd_uuid v))] (destroy_volume E opq ds v)"
proof -
  have deps: "never deletes_row (map_prog (dependency_of E opq ds v) sns)" for sns
    unfolding never_def by (intro emits_map_prog never_dependency [unfolded never_def])
  have promote: "never deletes_row (for_each (promote_clone E) ds')" for ds'
    unfolding never_def by (intro emits_for_each never_delete_ops(2) [unfolded never_def])
  show ?thesis
    unfolding destroy_volume_def Let_def andthen_def
    by (intro achieves_before never_delete_reads never_only_if never_bind deps promote destroy_zvol_achieves)
qed

lemma none_achieves:
  assumes "achieves P Cs m" and "none P t" and "\<And>u. did Cs u \<Longrightarrow> G (t @ u)"
  shows "spec m (\<lambda>_ u. G (t @ u) \<and> none P (t @ u)) (\<lambda>_ u. none P (t @ u))"
  by (rule spec_mono [OF assms(1) [unfolded achieves_def]]) (use assms(2,3) in auto)

lemma spec_find_snapshot:
  "spec (find_snapshot_by_uuid E ds u)
     (\<lambda>r t. none deletes_row t \<and> (\<forall>n. r = Some n \<longrightarrow> (\<exists>p. n = p @ ''@'' @ u))) (\<lambda>_ t. none deletes_row t)"
  unfolding find_snapshot_by_uuid_def
  by (intro spec_intros) (auto simp: lift_sum_def intro!: spec_ret spec_raise dest!: snapshot_in_name split: sum.splits)

lemma drop_snapshot_achieves:
  "achieves deletes_row [at_destroy sn] (bind (find_snapshot_clones E sn) (\<lambda>deps.
     let external_deps = filter (\<lambda>dep. dep \<noteq> c) deps in
     if external_deps \<noteq> [] then raise (x external_deps)
     else bind (vol_exists E c) (\<lambda>ex. andthen (only_if ex (destroy_zvol E c)) (destroy_zvol E sn))))"
proof -
  have "achieves deletes_row [at_destroy sn] (bind (vol_exists E c)
      (\<lambda>ex. andthen (only_if ex (destroy_zvol E c)) (destroy_zvol E sn)))"
    unfolding andthen_def
    by (intro achieves_before never_delete_reads never_only_if achieves_none [OF destroy_zvol_achieves]
        destroy_zvol_achieves)
  then show ?thesis
    by (intro achieves_before never_delete_reads) (auto simp: Let_def achieves_raise)
qed

lemma spec_destroy_snapshot:
  "spec (destroy_snapshot E ds u) (\<lambda>_ t. storage_gone u t \<and> none deletes_row t) (\<lambda>_ t. none deletes_row t)"
  unfolding destroy_snapshot_def
proof (rule spec_bind, rule spec_mono [OF spec_find_snapshot])
  fix found t
  assume t: "none deletes_row t \<and> (\<forall>n. found = Some n \<longrightarrow> (\<exists>p. n = p @ ''@'' @ u))"
  show "spec (andthen (log_pool_tree E ds) (case found of
          None \<Rightarrow> raise (storage_error ''SR_BACKEND_FAILURE_110'' [''Snapshot not found'', ds, u])
        | Some snap_name \<Rightarrow>
            let clone_path = format_zvol_name ds u in
            bind (find_snapshot_clones E snap_name) (\<lambda>deps.
            let external_deps = filter (\<lambda>dep. dep \<noteq> clone_path) deps in
            if external_deps \<noteq> []
            then raise (storage_error ''SR_BACKEND_FAILURE_111''
                   (''Snapshot has dependents'' # snap_name # external_deps))
            else bind (vol_exists E clone_path) (\<lambda>ex.
                 andthen (only_if ex (destroy_zvol E clone_path)) (destroy_zvol E snap_name)))))
      (\<lambda>_ u'. storage_gone u (t @ u') \<and> none deletes_row (t @ u')) (\<lambda>_ u'. none deletes_row (t @ u'))"
  proof (cases found)
    case None
    then show ?thesis
      using t by (intro spec_andthen spec_mono [OF never_delete_reads(8) [unfolded never_def emits_def]])
        (auto intro!: spec_raise)
  next
    case (Some sn)
    with t have "storage_gone u (t @ w)" if "did [at_destroy sn] w" for w
      using that by (auto simp: storage_gone_def names_vdi_def intro: did_before)
    then show ?thesis
      unfolding Some andthen_def [of "log_pool_tree E ds"] option.case Let_def [of "format_zvol_name ds u"]
      by (intro none_achieves [OF achieves_before [OF never_delete_reads(8) drop_snapshot_achieves]]) (use t in auto)
  qed
qed auto

text \<open>The row that the database gives for a key has that key as its uuid.\<close>

definition rows_keyed :: "'w env \<Rightarrow> string \<Rightarrow> bool" where
  "rows_keyed E key \<longleftrightarrow> (\<forall>opq w v. fst (e_get_vdi E opq key w) = Inr (Some v) \<longrightarrow> vd_uuid v = key)"

lemma spec_keyed_vdi:
  assumes "rows_keyed E key" and "\<And>e. inspects e \<Longrightarrow> \<not> P e"
  shows "spec (the_vdi E opq key) (\<lambda>v t. vd_uuid v = key \<and> none P t) (\<lambda>_ t. none P t)"
proof -
  have a: "spec (the_vdi E opq key) (\<lambda>v _. vd_uuid v = key) (\<lambda>_ _. True)"
    using assms(1) unfolding spec_def rows_keyed_def the_vdi_def get_vdi_by_id_def
    by (auto simp: bind_def perform_def of_option_def ret_def raise_def
        split: prod.splits sum.splits option.splits) (metis fst_conv)+
  show ?thesis
    by (rule spec_mono [OF spec_conj [OF a never_inspects [OF reads_inspect(5) assms(2),
            unfolded never_def emits_def]]]) auto
qed

lemma spec_recover_keeps:
  assumes "vd_uuid v = key" and "never P (recover_vdi_vsize E opq ds v)"
  shows "spec (recover_vdi_vsize E opq ds v) (\<lambda>v' t. vd_uuid v' = key \<and> none P t) (\<lambda>_ t. none P t)"
proof -
  have "spec (recover_vdi_vsize E opq ds v) (\<lambda>v' _. vd_uuid v' = key) (\<lambda>_ _. True)"
    unfolding recover_vdi_vsize_def get_zvol_size_bytes_def get_bytes_def int_cmd_def db_unit_def
    by (intro spec_intros) (simp_all add: assms(1))
  from spec_conj [OF this assms(2) [unfolded never_def emits_def]] show ?thesis by (rule spec_mono) auto
qed

lemma deletes_no_admin: "deletes_row e \<Longrightarrow> \<not> admin e"
  by (auto simp: deletes_row_def admin_def split: call.splits)

lemma cbt_no_delete: "cbt_event e \<Longrightarrow> \<not> deletes_row e"
  by (auto simp: cbt_event_def deletes_row_def split: call.splits)

text \<open>
  C2. Volume.destroy deletes the rows of a VDI (and calls volumeDestroy) only after the zvol
  or ZFS snapshot named by the VDI has been destroyed successfully, provided the database's
  row for a key carries that key.
\<close>

theorem destroy_rows_after_storage:
  assumes "rows_keyed E key"
  shows "spec (destroy E sr key)
     (\<lambda>_ t. guards (storage_gone key) deletes_row t) (\<lambda>_ t. guards (storage_gone key) deletes_row t)"
proof -
  let ?ok = "\<lambda>m. spec m (\<lambda>_ t. guards (storage_gone key) deletes_row t)
                     (\<lambda>_ t. guards (storage_gone key) deletes_row t)"
  have storage: "spec (if v_snap (vd_volume v) \<noteq> 0 then destroy_snapshot E ds (vd_uuid v) else destroy_volume E opq ds v)
      (\<lambda>_ t. storage_gone key t \<and> none deletes_row t) (\<lambda>_ t. none deletes_row t)"
    if "vd_uuid v = key" for opq ds v
  proof -
    have "storage_gone key u" if "did [at_destroy (format_zvol_name ds (vd_uuid v))] u" for u
      using that \<open>vd_uuid v = key\<close> by (auto simp: storage_gone_def names_vdi_def)
    then have "spec (destroy_volume E opq ds v) (\<lambda>_ t. storage_gone key t \<and> none deletes_row t) (\<lambda>_ t. none deletes_row t)"
      using none_achieves [OF destroy_volume_achieves, of "[]" ds v "storage_gone key" E opq] by simp
    with spec_destroy_snapshot [of E ds key] that show ?thesis by simp
  qed
  have body: "?ok (bind (the_vdi E opq key) (\<lambda>v0. bind (recover_vdi_vsize E opq ds v0) (\<lambda>v.
      bind (if v_snap (vd_volume v) \<noteq> 0 then destroy_snapshot E ds (vd_uuid v) else destroy_volume E opq ds v) (\<lambda>_.
      bind (db_unit E opq (DeleteVdi key)) (\<lambda>_. bind (volume_destroy_cb E opq (str_int (v_id (vd_volume v))))
        (\<lambda>_. db_unit E opq (DeleteVolume (v_id (vd_volume v)))))))))" for opq ds
    by (intro guards_bind_value [OF spec_keyed_vdi [OF assms inspects_no_delete]] storage_gone_later
        guards_bind_value [OF spec_recover_keeps [OF _ never_delete_ops(5)]]
        guards_bind [OF lasting_storage_gone storage])
      (assumption | intro emits_intros TrueI)+
  show ?thesis
    unfolding destroy_def andthen_def
    by (intro guards_bind_later storage_gone_later never_delete_reads guards_bind_end [OF guards_contexts(1)]
        guards_locked_db deletes_no_admin body)
      (auto simp: never_def intro: emits_pure emits_mono [OF cbt_cleanup_events cbt_no_delete])
qed

theorem destroy_rows_after_storage_witness:
  "spec (destroy (bare_env\<lparr>e_get_vdi := \<lambda>_ _. returning (Some sample_vdi)\<rparr>) ''sr'' ''u'')
     (\<lambda>_ t. guards (storage_gone ''u'') deletes_row t) (\<lambda>_ t. guards (storage_gone ''u'') deletes_row t)"
  by (rule destroy_rows_after_storage) (simp add: rows_keyed_def returning_def sample_vdi_def)

end
