(* ===== verification/CopyProps.thy ===== *)
theory CopyProps
  imports VolumeProps
begin

text \<open>
  What clone and copy promise: the row of the new volume is written only when its storage is
  complete, and what a failed copy leaves behind.
\<close>

section \<open>Clone\<close>

definition cloned :: "event list \<Rightarrow> bool" where
  "cloned t \<longleftrightarrow> (\<exists>sn cl. did [at_clone sn cl] t)"

lemma lasting_cloned: "lasting cloned"
  unfolding cloned_def by (intro lasting_ex lasting_did)

lemma cloned_later: "cloned a \<Longrightarrow> cloned (t @ a)"
  unfolding cloned_def by (blast intro: did_before)

lemma inspects_no_insert: "inspects e \<Longrightarrow> \<not> inserts_vdi e"
  using inspects_quiet inserts_vdi_not_quiet by blast

lemma never_insert_ops:
  "never inserts_vdi (take_snapshot E sn)" "never inserts_vdi (destroy_zvol E z)"
  "never inserts_vdi (clone_snapshot E sn cl)" "never inserts_vdi (vol_set_thick_refreservation E z)"
  "never inserts_vdi (vol_exists E z)" "never inserts_vdi (find_snapshot_by_uuid E ds u)"
  "never inserts_vdi (db_unit E opq (UpdateVsize i s'))" "never inserts_vdi (copy_dest E sr)"
  unfolding never_def copy_dest_def
  by (intro emits_intros inspect_mono_intros; simp add: inspects_no_insert)+

lemma guards_store:
  "(\<And>x. extends (f x)) \<Longrightarrow>
   spec (bind (clone_snapshot E sn cl) f) (\<lambda>_ t. guards cloned inserts_vdi t) (\<lambda>_ t. guards cloned inserts_vdi t)"
  by (rule guards_achieves [OF acts(2) _ lasting_cloned]) (auto simp: cloned_def)

lemma spec_clone_body:
  "spec (clone_body E opq ds key u) (\<lambda>_ t. guards cloned inserts_vdi t) (\<lambda>_ t. guards cloned inserts_vdi t)"
proof -
  have source: "never inserts_vdi (clone_source E opq ds v)" for v
    unfolding clone_source_def Let_def
    by (intro never_intros never_insert_reads never_insert_ops)
  show ?thesis
    unfolding clone_body_def Let_def andthen_def
    by (intro guards_store guards_bind_later never_insert_reads source cloned_later spec_prod_case
        emits_intros inspect_mono_intros TrueI)
qed

text \<open>
  Volume.clone inserts the row of the clone only after the ZFS clone of that name has
  succeeded.
\<close>

theorem clone_row_after_storage:
  "spec (clone E sr key) (\<lambda>_ t. guards cloned inserts_vdi t) (\<lambda>_ t. guards cloned inserts_vdi t)"
proof -
  have later: "never inserts_vdi (case r of (v, fmt, sn) \<Rightarrow>
      bind (getVolumeUriPrefix E opq) (\<lambda>pre. ret (v, fmt @ pre @ u, sn)))" for r opq u
    by (cases r rule: prod_cases3) (simp only: prod.case, intro never_insert_reads never_intros)
  have last_step: "never inserts_vdi (case r of (v, uri, sn) \<Rightarrow>
      bind (get_zvol_used_bytes E sn) (\<lambda>used. ret (info_of v u True used uri)))" for r u
    by (cases r rule: prod_cases3) (simp only: prod.case, intro never_insert_reads never_intros)
  show ?thesis
    unfolding clone_def
    by (intro guards_bind_later never_insert_reads cloned_later
        guards_bind_end [OF guards_contexts(1)] guards_bind_end [OF guards_locked_db]
        admin_no_insert spec_clone_body later last_step)
qed

section \<open>Copy\<close>

definition at_send :: "string \<Rightarrow> string \<Rightarrow> call \<Rightarrow> bool" where
  "at_send sn dest c \<longleftrightarrow> c = Pipeline [''zfs'', ''send'', ''-c'', sn] [''zfs'', ''receive'', dest]"

text \<open>
  Within a pool: cloned. Between pools: sent and received, and then both transient snapshots
  destroyed.
\<close>

definition copied :: "event list \<Rightarrow> bool" where
  "copied t \<longleftrightarrow> (\<exists>sn dest tok. did [at_clone sn dest] t \<or>
     did [at_send sn dest, at_destroy sn, at_destroy (dest @ ''@'' @ tok)] t)"

lemma lasting_copied: "lasting copied"
  unfolding copied_def by (intro lasting_ex lasting_disj lasting_did)

lemma copied_later: "copied a \<Longrightarrow> copied (t @ a)"
  unfolding copied_def by (blast intro: did_before)

lemma send_achieves: "achieves inserts_vdi [at_send sn dest] (vol_send_receive E sn dest)"
  unfolding achieves_def vol_send_receive_def Let_def
  by (intro spec_bind spec_perform spec_prod_case spec_if spec_raise spec_ret)
    (auto simp: at_send_def intro!: did_one)

lemma never_drop: "never inserts_vdi (drop_if_exists E p z)"
  unfolding drop_if_exists_def by (intro never_intros never_insert_ops)

lemma replicate_achieves:
  "achieves inserts_vdi [if same then at_clone sn dest else at_send sn dest]
     (copy_replicate E same sn dest thick)"
proof -
  have "achieves inserts_vdi [if same then at_clone sn dest else at_send sn dest]
      (if same then clone_snapshot E sn dest else vol_send_receive E sn dest)"
    using acts(2) [of sn dest E] send_achieves [of sn dest E] by simp
  then show ?thesis
    unfolding copy_replicate_def andthen_def
    by (intro achieves_catch_fails achieves_after fails_bind fails_raise never_intros never_drop never_insert_ops)
qed

lemma cleanup_achieves:
  "achieves inserts_vdi [at_destroy sn, at_destroy rsn] (copy_cleanup E sn rsn dest)"
  unfolding copy_cleanup_def
  using achieves_andthen [OF acts(3) [of sn E] acts(3) [of rsn E]]
  by (intro achieves_catch_fails fails_bind fails_raise never_intros never_drop) simp

lemma copied_before_register:
  fixes f :: "unit \<Rightarrow> ('w, 'a) prog" and E :: "'w env"
  assumes "\<And>x. extends (f x)"
  shows "spec (bind (copy_replicate E same sn dest thick) (\<lambda>_.
       bind (only_if (\<not> same) (copy_cleanup E sn (dest @ ''@'' @ tok) dest)) f))
     (\<lambda>_ t. guards copied inserts_vdi t) (\<lambda>_ t. guards copied inserts_vdi t)"
proof (cases same)
  case True
  have "spec (bind (copy_replicate E True sn dest thick) (\<lambda>_. f ()))
      (\<lambda>_ t. guards copied inserts_vdi t) (\<lambda>_ t. guards copied inserts_vdi t)"
    by (rule guards_achieves [OF replicate_achieves _ lasting_copied assms]) (auto simp: copied_def)
  with True show ?thesis by (simp add: only_if_def bind_def ret_def)
next
  case False
  have "achieves inserts_vdi [at_send sn dest, at_destroy sn, at_destroy (dest @ ''@'' @ tok)]
      (bind (copy_replicate E False sn dest thick) (\<lambda>_. copy_cleanup E sn (dest @ ''@'' @ tok) dest))"
    using achieves_bind [OF replicate_achieves [of False] cleanup_achieves] by simp
  then have "spec (bind (bind (copy_replicate E False sn dest thick)
        (\<lambda>_. copy_cleanup E sn (dest @ ''@'' @ tok) dest)) f)
      (\<lambda>_ t. guards copied inserts_vdi t) (\<lambda>_ t. guards copied inserts_vdi t)"
    by (rule guards_achieves [OF _ _ lasting_copied assms]) (auto simp: copied_def)
  with False show ?thesis by (simp add: only_if_def bind_assoc)
qed

lemma extends_register: "extends (copy_register E sr v u)"
  unfolding copy_register_def by (intro emits_intros inspect_mono_intros TrueI)

text \<open>
  Volume.copy registers the destination only after the stream has been received and the
  clean-up of the snapshots has been made.
\<close>

theorem copy_registers_complete:
  "spec (copy E sr key dest_sr) (\<lambda>_ t. guards copied inserts_vdi t) (\<lambda>_ t. guards copied inserts_vdi t)"
proof -
  have source: "never inserts_vdi (copy_source E sr ds key sn)" for ds sn
    unfolding never_def copy_source_def
    by (intro emits_intros inspect_mono_intros)
      (auto dest: inspects_no_insert simp: admin_no_insert)
  show ?thesis
    unfolding copy_def Let_def andthen_def
    by (intro copied_before_register guards_bind_later copied_later never_insert_reads never_insert_ops source
        emits_bind extends_register emits_ret emits_pure inspect_mono_intros TrueI)
qed

end
