(* ===== verification/DestroyProps.thy ===== *)
theory DestroyProps
  imports VolumeProps
begin

text \<open>
  What destroying promises about other volumes: a snapshot with clones of others is left
  alone, and the clones of a volume's snapshots are promoted before the volume goes.
\<close>

section \<open>Refusals that name their error\<close>

text \<open>
  \<open>refuses err m\<close>: \<open>m\<close> raises and changes nothing, and what it raises is \<open>err\<close> unless one of its
  calls failed.
\<close>

definition failed_call :: "event list \<Rightarrow> bool" where
  "failed_call t \<longleftrightarrow> (\<exists>e \<in> set t. snd e \<noteq> Some 0)"

definition refuses :: "exn \<Rightarrow> ('w, 'a) prog \<Rightarrow> bool" where
  "refuses err m \<longleftrightarrow>
     spec m (\<lambda>_ _. False) (\<lambda>e t. (\<forall>ev \<in> set t. quiet ev) \<and> (e = err \<or> failed_call t))"

lemma failed_call_append [simp]: "failed_call (t @ u) \<longleftrightarrow> failed_call t \<or> failed_call u"
  by (auto simp: failed_call_def)

lemma refuses_raise: "refuses err (raise err)"
  by (simp add: refuses_def spec_raise)

lemma refuses_bind:
  assumes "spec m (\<lambda>x t. V x \<and> (\<forall>ev \<in> set t. quiet ev)) (\<lambda>_ t. (\<forall>ev \<in> set t. quiet ev) \<and> failed_call t)"
    and "\<And>x. V x \<Longrightarrow> refuses err (f x)"
  shows "refuses err (bind m f)"
  unfolding refuses_def
proof (rule spec_bind, rule spec_mono [OF assms(1)])
  fix x t
  assume "V x \<and> (\<forall>ev \<in> set t. quiet ev)"
  then show "spec (f x) (\<lambda>_ _. False) (\<lambda>e u. (\<forall>ev \<in> set (t @ u). quiet ev) \<and> (e = err \<or> failed_call (t @ u)))"
    by (intro spec_mono [OF assms(2) [unfolded refuses_def]]) auto
qed auto

lemma refuses_known:
  assumes "returns m x" and "emits quiet m" and "refuses err (f x)"
  shows "refuses err (bind m f)"
  by (rule refuses_bind [where V = "\<lambda>y. y = x", OF spec_mono [OF spec_returns [OF assms(1) assms(2) [unfolded emits_def]]]])
    (use assms(3) in auto)

lemma refuses_andthen: "refuses err m \<Longrightarrow> refuses err (andthen m n)"
  unfolding refuses_def andthen_def by (rule spec_bind, erule spec_mono) auto

lemma refuses_ctx:
  assumes "\<And>c. refuses err (body c)" and "quiet (cin, Some 0)" and "quiet (cin, None)"
    and "\<And>c ok r. quiet (cout c ok, r)"
  shows "refuses err (with_ctx (call0 cin fin) (\<lambda>c ok. call0 (cout c ok) (fout c ok)) body)"
proof -
  have out: "r = Some 0 \<or> failed_call [(c, r)]" for c r by (simp add: failed_call_def)
  show ?thesis
    unfolding refuses_def with_ctx_def
  proof (rule spec_bind, rule spec_call0)
    show "spec (bind (catch (body c) (\<lambda>e. andthen (call0 (cout c False) (fout c False)) (raise e)))
        (\<lambda>x. andthen (call0 (cout c True) (fout c True)) (ret x)))
        (\<lambda>_ _. False) (\<lambda>e u. (\<forall>ev \<in> set ([(cin, Some 0)] @ u). quiet ev) \<and> (e = err \<or> failed_call ([(cin, Some 0)] @ u)))" for c
      by (intro spec_bind spec_catch spec_mono [OF assms(1) [unfolded refuses_def]] spec_andthen spec_call0 spec_raise)
        (use assms(2-4) in \<open>auto simp: failed_call_def\<close>)
  qed (use assms(3) in \<open>auto simp: failed_call_def\<close>)
qed

lemma refuses_in_context:
  "(\<And>opq. refuses err (body opq)) \<Longrightarrow> refuses err (with_volume_context E sr mode body)"
  "refuses err m \<Longrightarrow> refuses err (with_locked_db E opq m)"
  unfolding with_volume_context_def with_locked_db_def with_poll_lock_def with_db_def
  by (intro refuses_ctx; simp add: quiet_simps)+

text \<open>The dataset that the SR's metadata name, and the rows the database gives for a key.\<close>

definition sr_at :: "'w env \<Rightarrow> string \<Rightarrow> string \<Rightarrow> bool" where
  "sr_at E sr ds \<longleftrightarrow> returns (bind (get_sr_metadata E (file_uri sr)) sr_dataset_of) ds"

definition destroy_at :: "'w env \<Rightarrow> string \<Rightarrow> string \<Rightarrow> string \<Rightarrow> ('w, unit) prog" where
  "destroy_at E sr key ds =
     andthen
       (with_volume_context E sr ''w'' (\<lambda>opq. with_locked_db E opq
         (bind (the_vdi E opq key) (\<lambda>v0.
          bind (recover_vdi_vsize E opq ds v0) (\<lambda>v.
          andthen (if v_snap (vd_volume v) \<noteq> 0 then destroy_snapshot E ds (vd_uuid v)
                   else destroy_volume E opq ds v)
            (andthen (db_unit E opq (DeleteVdi key))
              (andthen (volume_destroy_cb E opq (str_int (v_id (vd_volume v))))
                (db_unit E opq (DeleteVolume (v_id (vd_volume v))))))))))
       ) (cbt_cleanup E sr ds key)"

lemma destroy_split: "destroy E sr key = bind (bind (get_sr_metadata E (file_uri sr)) sr_dataset_of) (destroy_at E sr key)"
  unfolding destroy_def bind_assoc destroy_at_def [abs_def] ..

lemma quiet_dataset: "emits quiet (bind (get_sr_metadata E (file_uri sr)) sr_dataset_of)"
  by (intro emits_intros)

section \<open>A snapshot that others depend on\<close>

lemma spec_tree_quiet:
  "spec (log_pool_tree E ds) (\<lambda>_ t. True \<and> (\<forall>ev \<in> set t. quiet ev)) (\<lambda>_ t. (\<forall>ev \<in> set t. quiet ev) \<and> failed_call t)"
  unfolding log_pool_tree_def run_unit_def
  by (intro spec_intros) (simp_all add: quiet_simps failed_call_def)

lemma refuses_dependents:
  assumes "returns (find_snapshot_by_uuid E ds uuid) (Some sn)" and "returns (find_snapshot_clones E sn) deps"
    and "dep \<in> set deps" and "dep \<noteq> format_zvol_name ds uuid"
  shows "refuses (storage_error ''SR_BACKEND_FAILURE_111''
       (''Snapshot has dependents'' # sn # filter (\<lambda>d. d \<noteq> format_zvol_name ds uuid) deps)) (destroy_snapshot E ds uuid)"
proof -
  have "filter (\<lambda>d. d \<noteq> format_zvol_name ds uuid) deps \<noteq> []"
    using assms(3,4) by (auto simp: filter_empty_conv)
  then show ?thesis
    unfolding destroy_snapshot_def andthen_def Let_def
    by (intro refuses_known [OF assms(1) queries_quiet(2)] refuses_bind [OF spec_tree_quiet])
      (simp only: option.case, intro refuses_known [OF assms(2) queries_quiet(4)], simp add: refuses_raise)
qed

text \<open>A row of a snapshot with a recorded size: the size recovery does nothing.\<close>

definition snapshot_row :: "string \<Rightarrow> vdi \<Rightarrow> bool" where
  "snapshot_row key v \<longleftrightarrow> vd_uuid v = key \<and> v_snap (vd_volume v) \<noteq> 0 \<and> v_vsize (vd_volume v) \<noteq> None"

lemma row_returned: "(\<And>w. fst (e_get_vdi E opq key w) = Inr (Some v)) \<Longrightarrow> returns (the_vdi E opq key) v"
  unfolding the_vdi_def get_vdi_by_id_def
  by (intro returns_bind [OF returns_perform]) (auto simp: of_option_def returns_ret)

text \<open>
  C14. Volume.destroy of a snapshot VDI (its row a snapshot's, with a recorded size) that a
  clone other than its own depends on always raises and makes no call that changes anything;
  the exception is SR_BACKEND_FAILURE_111 naming the snapshot and the dependents unless a call
  failed in the run, on entering or leaving its contexts or listing the pool for the log.
\<close>

theorem destroy_snapshot_refuses_dependents:
  assumes "sr_at E sr ds" and "snapshot_row key v" and "\<And>opq w. fst (e_get_vdi E opq key w) = Inr (Some v)"
    and "returns (find_snapshot_by_uuid E ds key) (Some sn)" and "returns (find_snapshot_clones E sn) deps"
    and "dep \<in> set deps" and "dep \<noteq> format_zvol_name ds key"
  shows "refuses (storage_error ''SR_BACKEND_FAILURE_111''
       (''Snapshot has dependents'' # sn # filter (\<lambda>d. d \<noteq> format_zvol_name ds key) deps)) (destroy E sr key)"
proof -
  let ?err = "storage_error ''SR_BACKEND_FAILURE_111''
       (''Snapshot has dependents'' # sn # filter (\<lambda>d. d \<noteq> format_zvol_name ds key) deps)"
  have size: "returns (recover_vdi_vsize E opq ds v) v" "emits quiet (recover_vdi_vsize E opq ds v)" for opq
    using assms(2) by (auto simp: recover_vdi_vsize_def snapshot_row_def intro: returns_ret emits_ret)
  have "refuses ?err (if v_snap (vd_volume v) \<noteq> 0 then destroy_snapshot E ds (vd_uuid v) else destroy_volume E opq ds v)" for opq
    using assms(2) refuses_dependents [OF assms(4-7)] by (simp add: snapshot_row_def)
  then show ?thesis
    unfolding destroy_split destroy_at_def
    by (intro refuses_known [OF assms(1) [unfolded sr_at_def] quiet_dataset] refuses_andthen refuses_in_context
        refuses_known [OF row_returned [OF assms(3)] quiet_reads(5)] refuses_known [OF size])
qed

definition snap_row :: vdi where
  "snap_row = sample_vdi\<lparr>vd_uuid := ''s'', vd_volume := (vd_volume sample_vdi)\<lparr>v_snap := 1\<rparr>\<rparr>"

definition clones_env :: "unit env" where
  "clones_env = bare_env\<lparr>
     e_get_sr_metadata := \<lambda>_. returning [(''zpool'', PStr ''p''), (''dataset'', PStr ''d'')],
     e_get_vdi := \<lambda>_ key. returning (Some (if key = ''s'' then snap_row else sample_vdi\<lparr>vd_uuid := key\<rparr>)),
     e_popen := \<lambda>cmd. returning
       (if ''snapshot'' \<in> set cmd then ''p/d/a@s'' else ''p/d/c'' @ [tab] @ ''p/d/a@s'', [], 0)\<rparr>"

lemma clones_env_at: "sr_at clones_env ''sr'' ''p/d''"
  unfolding sr_at_def get_sr_metadata_def
  by (rule returns_bind [OF returns_perform])
    (auto simp: clones_env_def returning_def sr_dataset_of_def key_of_def dget_def of_option_def as_str_def
      as_opt_str_def dataset_path_def bind_def ret_def returns_def)

lemma pool_of_sample: "pool_of_snapshot ''p/d/a@s'' = ''p''"
  by code_simp

lemma clones_env_cmd:
  "returns (zfs_cmd clones_env cmd) (if ''snapshot'' \<in> set cmd then ''p/d/a@s'' else ''p/d/c'' @ [tab] @ ''p/d/a@s'')"
  by (rule returns_zfs_cmd) (simp add: clones_env_def returning_def)

lemma clones_env_found:
  "returns (find_snapshot_by_uuid clones_env ''p/d'' ''s'') (Some ''p/d/a@s'')"
  "returns (find_snapshot_clones clones_env ''p/d/a@s'') [''p/d/c'']"
proof -
  have "snapshot_in ''s'' (out_lines ''p/d/a@s'') = Inr (Some ''p/d/a@s'')" by code_simp
  then show "returns (find_snapshot_by_uuid clones_env ''p/d'' ''s'') (Some ''p/d/a@s'')"
    unfolding find_snapshot_by_uuid_def
    by (intro returns_bind [OF clones_env_cmd]) (simp add: lift_sum_def returns_ret pool_of_sample)
  have "clones_in ''p/d/a@s'' (out_lines (''p/d/c'' @ [tab] @ ''p/d/a@s'')) = Inr [''p/d/c'']" by code_simp
  then show "returns (find_snapshot_clones clones_env ''p/d/a@s'') [''p/d/c'']"
    unfolding find_snapshot_clones_def
    by (intro returns_bind [OF clones_env_cmd]) (simp add: lift_sum_def returns_ret pool_of_sample)
qed

theorem destroy_snapshot_refuses_dependents_witness:
  "refuses (storage_error ''SR_BACKEND_FAILURE_111'' [''Snapshot has dependents'', ''p/d/a@s'', ''p/d/c''])
     (destroy clones_env ''sr'' ''s'')"
  using destroy_snapshot_refuses_dependents [OF clones_env_at _ _ clones_env_found, of snap_row "''p/d/c''"]
  by (simp add: snapshot_row_def snap_row_def sample_vdi_def clones_env_def returning_def format_zvol_name_def)

section \<open>A volume whose snapshots have clones\<close>

definition destroys :: "string \<Rightarrow> event \<Rightarrow> bool" where
  "destroys z e \<longleftrightarrow> at_destroy z (fst e)"

definition promotes :: "string \<Rightarrow> call \<Rightarrow> bool" where
  "promotes d c \<longleftrightarrow> c = Popen [''zfs'', ''promote'', d]"

lemma destroys_simps [simp]:
  "\<not> destroys z (Popen [''zfs'', ''promote'', d], r)" "\<not> destroys z (Sleep p, r)"
  "\<not> destroys z (Db opq c, r)" "at_clone sn cl c' \<Longrightarrow> \<not> destroys z (c', r)"
  by (auto simp: destroys_def at_destroy_def at_clone_def)

lemma inspects_no_destroy: "inspects e \<Longrightarrow> \<not> destroys z e"
  by (auto simp: destroys_def at_destroy_def inspects_simps)

lemma promote_achieves: "achieves (destroys z) [promotes d] (promote_clone E d)"
  unfolding promote_clone_def
  by (rule achieves_act, rule spec_run_unit_retry) (auto simp: promotes_def)

lemma promote_all: "achieves (destroys z) (map promotes ds) (for_each (promote_clone E) ds)"
proof (induction ds)
  case Nil
  then show ?case using achieves_never [OF never_ret] by simp
next
  case (Cons d ds)
  then show ?case using achieves_andthen [OF promote_achieves] by fastforce
qed

lemma never_destroys_dependency: "never (destroys z) (dependency_of E opq ds v sn)"
  unfolding never_def dependency_of_def Let_def
  by (intro emits_intros inspect_mono_intros never_list_case [unfolded never_def]; simp add: inspects_no_destroy)

text \<open>
  The clone that is promoted for a snapshot: its first clone, or for a snapshot without clones
  the one just made from it. The guard: a clone was chosen for every snapshot, and then they
  were promoted in the order of the snapshots.
\<close>

definition clone_chosen :: "(string \<Rightarrow> string list) \<Rightarrow> event list \<Rightarrow> string \<Rightarrow> string \<Rightarrow> bool" where
  "clone_chosen cl t sn d \<longleftrightarrow> (case cl sn of first # _ \<Rightarrow> d = first | [] \<Rightarrow> did [at_clone sn d] t)"

definition dependents_promoted :: "string list \<Rightarrow> (string \<Rightarrow> string list) \<Rightarrow> event list \<Rightarrow> bool" where
  "dependents_promoted snaps cl t \<longleftrightarrow>
     (\<exists>deps u v. t = u @ v \<and> list_all2 (clone_chosen cl u) snaps deps \<and> did (map promotes deps) v)"

lemma clone_chosen_append:
  "clone_chosen cl u sn d \<Longrightarrow> clone_chosen cl (t @ u) sn d" "clone_chosen cl u sn d \<Longrightarrow> clone_chosen cl (u @ t) sn d"
  by (auto simp: clone_chosen_def did_before did_after split: list.splits)

lemma promoted_before: "dependents_promoted snaps cl a \<Longrightarrow> dependents_promoted snaps cl (t @ a)"
  unfolding dependents_promoted_def
  by (metis append.assoc clone_chosen_append(1) list_all2_mono)

lemma returns_dependency:
  "returns (find_snapshot_clones E sn) [] \<Longrightarrow>
   spec (dependency_of E opq ds v sn) (\<lambda>d t. did [at_clone sn d] t) (\<lambda>_ _. True)"
proof -
  assume none: "returns (find_snapshot_clones E sn) []"
  have find: "spec (find_snapshot_clones E sn) (\<lambda>deps _. deps = []) (\<lambda>_ _. True)"
    by (rule spec_mono [OF spec_returns [OF none queries_quiet(4) [unfolded emits_def]]]) auto
  have clone: "spec (clone_snapshot E sn c) (\<lambda>_ t. did [at_clone sn c] t) (\<lambda>_ _. True)" for c
    by (rule spec_mono [OF spec_clone_snapshot]) (auto intro: did_acted)
  show ?thesis
    unfolding dependency_of_def uuid4_def db_unit_def insert_child_volume_def Let_def
    by (intro spec_bind [OF spec_mono [OF find]])
      (auto intro!: spec_intros spec_mono [OF clone], simp add: did_before did_Cons_event)
qed

text \<open>The clones, once they are chosen, are promoted and only then the zvol is destroyed.\<close>

lemma spec_known_value:
  "returns m x \<Longrightarrow> never P m \<Longrightarrow> spec m (\<lambda>y t. y = x \<and> none P t) (\<lambda>_ t. none P t)"
  by (drule spec_returns [OF _ never_def [THEN iffD1, unfolded emits_def]], assumption) (erule spec_mono; simp)

lemma spec_dependency:
  assumes "returns (find_snapshot_clones E sn) (cl sn)"
  shows "spec (dependency_of E opq ds v sn) (\<lambda>d t. clone_chosen cl t sn d \<and> none (destroys z) t) (\<lambda>_ t. none (destroys z) t)"
proof -
  have "spec (dependency_of E opq ds v sn) (\<lambda>d t. clone_chosen cl t sn d) (\<lambda>_ _. True)"
  proof (cases "cl sn")
    case Nil
    with assms show ?thesis by (simp add: clone_chosen_def returns_dependency)
  next
    case (Cons first others)
    have "spec (find_snapshot_clones E sn) (\<lambda>deps _. deps = cl sn) (\<lambda>_ _. True)"
      by (rule spec_mono [OF spec_returns [OF assms queries_quiet(4) [unfolded emits_def]]]) auto
    then show ?thesis
      unfolding dependency_of_def
      by (intro spec_bind) (auto simp: Cons clone_chosen_def intro!: spec_ret elim!: spec_mono)
  qed
  from spec_conj [OF this never_destroys_dependency [unfolded never_def emits_def]]
  show ?thesis by (rule spec_mono) auto
qed

lemma spec_dependencies:
  assumes "\<And>sn. sn \<in> set snaps \<Longrightarrow> returns (find_snapshot_clones E sn) (cl sn)"
  shows "spec (map_prog (dependency_of E opq ds v) snaps)
     (\<lambda>deps t. list_all2 (clone_chosen cl t) snaps deps \<and> none (destroys z) t) (\<lambda>_ t. none (destroys z) t)"
  using assms
proof (induction snaps)
  case (Cons sn snaps)
  have tail: "list_all2 (clone_chosen cl (t @ u @ w)) snaps deps" if "list_all2 (clone_chosen cl u) snaps deps" for t u w deps
    by (rule list_all2_mono [OF that]) (intro clone_chosen_append)
  show ?case
    unfolding map_prog.simps
  proof (rule spec_bind, rule spec_mono [OF spec_dependency [OF Cons.prems]])
    fix d t
    assume d: "clone_chosen cl t sn d \<and> none (destroys z) t"
    have rest: "spec (map_prog (dependency_of E opq ds v) snaps)
      (\<lambda>deps t. list_all2 (clone_chosen cl t) snaps deps \<and> none (destroys z) t) (\<lambda>_ t. none (destroys z) t)"
      by (intro Cons.IH Cons.prems) simp
    show "spec (bind (map_prog (dependency_of E opq ds v) snaps) (\<lambda>ys. ret (d # ys)))
        (\<lambda>deps u. list_all2 (clone_chosen cl (t @ u)) (sn # snaps) deps \<and> none (destroys z) (t @ u))
        (\<lambda>_ u. none (destroys z) (t @ u))"
    proof (rule spec_bind, rule spec_mono [OF rest])
      fix deps u
      assume "list_all2 (clone_chosen cl u) snaps deps \<and> none (destroys z) u"
      with d tail [of u deps t "[]"] show "spec (ret (d # deps))
          (\<lambda>ds w. list_all2 (clone_chosen cl (t @ u @ w)) (sn # snaps) ds \<and> none (destroys z) (t @ u @ w))
          (\<lambda>_ w. none (destroys z) (t @ u @ w))"
        by (intro spec_ret) (auto intro: clone_chosen_append(2))
    qed (use d in auto)
  qed auto
qed (auto intro: spec_ret)

lemma promoted_before_destroy:
  fixes E :: "'w env"
  shows "spec (bind (only_if (deps \<noteq> []) (bind (for_each (promote_clone E) deps) (\<lambda>_. log_pool_tree E ds))) (\<lambda>_. destroy_zvol E z))
     (\<lambda>_ t. guards (did (map promotes deps)) (destroys z) t) (\<lambda>_ t. guards (did (map promotes deps)) (destroys z) t)"
proof -
  have tree: "never (destroys z) (log_pool_tree E ds)"
    by (rule never_inspects [OF reads_inspect(6)]) (rule inspects_no_destroy)
  have "achieves (destroys z) (map promotes deps)
      (only_if (deps \<noteq> []) (bind (for_each (promote_clone E) deps) (\<lambda>_. log_pool_tree E ds)))"
  proof (cases "deps = []")
    case True
    then show ?thesis using achieves_never [OF never_ret] by (simp add: only_if_def)
  next
    case False
    then show ?thesis
      unfolding only_if_def by (simp only: not_False_eq_True if_True) (intro achieves_after promote_all tree)
  qed
  then show ?thesis by (rule guards_achieves) (auto intro: lasting_did emits_destroy_zvol)
qed

lemma dependents_first:
  fixes E :: "'w env"
  assumes "returns (list_zvol_snapshots E (format_zvol_name ds (vd_uuid v))) snaps"
    and "\<And>sn. sn \<in> set snaps \<Longrightarrow> returns (find_snapshot_clones E sn) (cl sn)"
    and z: "z = format_zvol_name ds (vd_uuid v)"
  shows "spec (destroy_volume E opq ds v)
     (\<lambda>_ t. guards (dependents_promoted snaps cl) (destroys z) t) (\<lambda>_ t. guards (dependents_promoted snaps cl) (destroys z) t)"
proof -
  let ?G = "dependents_promoted snaps cl"
  let ?ok = "\<lambda>m. spec m (\<lambda>_ t. guards ?G (destroys z) t) (\<lambda>_ t. guards ?G (destroys z) t)"
  let ?rest = "\<lambda>x. bind (only_if (x \<noteq> []) (bind (for_each (promote_clone E) x) (\<lambda>_. log_pool_tree E ds))) (\<lambda>_. destroy_zvol E z)"
  have reads: "never (destroys z) (log_pool_tree E d)" "never (destroys z) (list_zvol_snapshots E n)" for d n
    by (intro never_inspects [OF reads_inspect(6)] never_inspects [OF queries_inspect(3)] inspects_no_destroy; assumption)+
  have chosen: "?ok (bind (map_prog (dependency_of E opq ds v) snaps) ?rest)"
  proof (rule spec_bind, rule spec_mono [OF spec_dependencies [OF assms(2)]])
    fix deps t
    assume t: "list_all2 (clone_chosen cl t) snaps deps \<and> none (destroys z) t"
    have "guards ?G (destroys z) (t @ u)" if "guards (did (map promotes deps)) (destroys z) u" for u
    proof -
      have "guards_from t ?G (destroys z) u"
        using that t unfolding guards_def guards_from_def dependents_promoted_def by (metis append_Nil)
      with t show ?thesis by (simp add: guards_append guards_none)
    qed
    then show "spec (?rest deps) (\<lambda>_ u. guards ?G (destroys z) (t @ u)) (\<lambda>_ u. guards ?G (destroys z) (t @ u))"
      by (intro spec_mono [OF promoted_before_destroy])
  qed (auto intro: guards_none)
  have listed: "spec (list_zvol_snapshots E z) (\<lambda>x t. x = snaps \<and> none (destroys z) t) (\<lambda>_ t. none (destroys z) t)"
    unfolding z by (rule spec_known_value [OF assms(1) reads(2) [unfolded z]])
  show ?thesis
    unfolding destroy_volume_def Let_def andthen_def z [symmetric]
    by (intro guards_bind_later [OF _ reads(1)] guards_bind_value [OF listed]) (use chosen in \<open>auto intro: promoted_before\<close>)
qed

text \<open>A row that is not a snapshot's, and stays one when its size is recovered.\<close>

definition volume_row :: "string \<Rightarrow> vdi \<Rightarrow> bool" where
  "volume_row key v \<longleftrightarrow> vd_uuid v = key \<and> v_snap (vd_volume v) = 0"

lemma spec_recovered_row:
  assumes "volume_row key v"
  shows "spec (recover_vdi_vsize E opq ds v) (\<lambda>v' t. volume_row key v' \<and> none (destroys z) t) (\<lambda>_ t. none (destroys z) t)"
  using assms
  unfolding recover_vdi_vsize_def get_zvol_size_bytes_def get_bytes_def int_cmd_def db_unit_def
  by (intro spec_intros) (auto simp: volume_row_def destroys_def at_destroy_def)

text \<open>
  C13. Volume.destroy of a volume destroys its zvol only after a clone of every one of its
  snapshots has been promoted, in the order of the snapshots: the first of the clones it has,
  or, for a snapshot without any, one that was made from it in the run. The listings of the
  snapshots and of their clones are taken to answer the same throughout, and the VDI's row to
  be a volume's with a recorded size.
\<close>

theorem destroy_promotes_clones_first:
  assumes "sr_at E sr ds" and "\<And>opq w v. fst (e_get_vdi E opq key w) = Inr (Some v) \<Longrightarrow> volume_row key v"
    and "returns (list_zvol_snapshots E (format_zvol_name ds key)) snaps"
    and "\<And>sn. sn \<in> set snaps \<Longrightarrow> returns (find_snapshot_clones E sn) (cl sn)"
  shows "spec (destroy E sr key)
     (\<lambda>_ t. guards (dependents_promoted snaps cl) (destroys (format_zvol_name ds key)) t)
     (\<lambda>_ t. guards (dependents_promoted snaps cl) (destroys (format_zvol_name ds key)) t)"
proof -
  let ?z = "format_zvol_name ds key" and ?G = "dependents_promoted snaps cl"
  let ?ok = "\<lambda>m. spec m (\<lambda>_ t. guards ?G (destroys ?z) t) (\<lambda>_ t. guards ?G (destroys ?z) t)"
  have row: "spec (the_vdi E opq key) (\<lambda>v t. volume_row key v \<and> none (destroys ?z) t) (\<lambda>_ t. none (destroys ?z) t)" for opq
    by (rule spec_mono [OF spec_conj [OF spec_row_known [OF assms(2)]
          never_inspects [OF reads_inspect(5) inspects_no_destroy, unfolded never_def emits_def]]]) auto
  have at: "spec (bind (get_sr_metadata E (file_uri sr)) sr_dataset_of) (\<lambda>x t. x = ds \<and> none (destroys ?z) t)
      (\<lambda>_ t. none (destroys ?z) t)"
    by (rule spec_known_value [OF assms(1) [unfolded sr_at_def]])
      (auto simp: never_def get_sr_metadata_def destroys_def at_destroy_def intro!: emits_intros)
  have after: "never (destroys ?z) (db_unit E opq c)" "never (destroys ?z) (volume_destroy_cb E opq i)"
    "never (destroys ?z) (cbt_cleanup E sr ds key)" for opq c i
    unfolding db_unit_def volume_destroy_cb_def never_def
    by (intro emits_intros emits_mono [OF cbt_cleanup_events];
        auto simp: destroys_def at_destroy_def cbt_event_def split: call.splits)+
  have vol: "?ok (destroy_volume E opq ds v)" if "vd_uuid v = key" for opq v
    by (intro dependents_first assms(4)) (simp_all add: that assms(3))
  have body: "?ok (bind (the_vdi E opq key) (\<lambda>v0. bind (recover_vdi_vsize E opq ds v0) (\<lambda>v.
      bind (if v_snap (vd_volume v) \<noteq> 0 then destroy_snapshot E ds (vd_uuid v) else destroy_volume E opq ds v) (\<lambda>_.
      bind (db_unit E opq (DeleteVdi key)) (\<lambda>_. bind (volume_destroy_cb E opq (str_int (v_id (vd_volume v))))
        (\<lambda>_. db_unit E opq (DeleteVolume (v_id (vd_volume v)))))))))" for opq
    by (intro guards_bind_value [OF row] guards_bind_value [OF spec_recovered_row] promoted_before guards_bind_end
        never_bind after)
      (use vol in \<open>auto simp: volume_row_def\<close>)
  have "?ok (destroy_at E sr key ds)"
    unfolding destroy_at_def andthen_def
    by (intro guards_bind_end after guards_contexts(1) guards_locked_db promoted_before body)
      (auto simp: destroys_def at_destroy_def admin_def split: call.splits)
  then show ?thesis
    unfolding destroy_split by (intro guards_bind_value [OF at]) (auto intro: promoted_before)
qed

text \<open>A volume with one snapshot, which has one clone.\<close>

theorem destroy_promotes_clones_first_witness:
  "spec (destroy clones_env ''sr'' ''a'')
     (\<lambda>_ t. guards (dependents_promoted [''p/d/a@s''] (\<lambda>_. [''p/d/c''])) (destroys ''p/d/a'') t)
     (\<lambda>_ t. guards (dependents_promoted [''p/d/a@s''] (\<lambda>_. [''p/d/c''])) (destroys ''p/d/a'') t)"
proof -
  have z: "format_zvol_name ''p/d'' ''a'' = ''p/d/a''" by (simp add: format_zvol_name_def)
  have "out_lines ''p/d/a@s'' = [''p/d/a@s'']" by code_simp
  then have 1: "returns (list_zvol_snapshots clones_env (format_zvol_name ''p/d'' ''a'')) [''p/d/a@s'']"
    unfolding list_zvol_snapshots_def
    by (intro returns_bind [OF clones_env_cmd]) (simp add: returns_ret)
  have 2: "volume_row ''a'' v" if "fst (e_get_vdi clones_env opq ''a'' w) = Inr (Some v)" for opq w v
    using that by (auto simp: clones_env_def returning_def volume_row_def sample_vdi_def)
  show ?thesis
    using destroy_promotes_clones_first [where cl = "\<lambda>_. [''p/d/c'']", OF clones_env_at 2 1] clones_env_found(2)
    unfolding z by simp
qed

section \<open>A snapshot that is gone\<close>

lemma refused_in_context:
  "(\<And>opq. refused (body opq)) \<Longrightarrow> refused (with_volume_context E sr mode body)"
  "refused m \<Longrightarrow> refused (with_locked_db E opq m)"
  unfolding with_volume_context_def with_locked_db_def with_poll_lock_def with_db_def
  by (intro spec_in_context_quiet emits_intros; simp add: quiet_simps)+

text \<open>
  C15. When the ZFS snapshot of a snapshot VDI with a recorded size is gone (a destroy that
  died between the storage and the commit leaves it so), every later Volume.destroy of this
  VDI raises and changes nothing: its row cannot be removed.
\<close>

theorem destroy_of_lost_snapshot:
  assumes "sr_at E sr ds" and "\<And>opq w v. fst (e_get_vdi E opq key w) = Inr (Some v) \<Longrightarrow> snapshot_row key v"
    and "returns (find_snapshot_by_uuid E ds key) None"
  shows "refused (destroy E sr key)"
proof -
  have gone: "refused (destroy_snapshot E ds key)"
    unfolding destroy_snapshot_def andthen_def
    by (intro refused_bind [OF assms(3) queries_quiet(2)] refused_after quiet_reads(6)) (simp add: refused_raise)
  have body: "refused (bind (the_vdi E opq key) (\<lambda>v0. bind (recover_vdi_vsize E opq ds v0) (\<lambda>v.
      andthen (if v_snap (vd_volume v) \<noteq> 0 then destroy_snapshot E ds (vd_uuid v) else destroy_volume E opq ds v) (f v))))"
    for opq f
  proof (rule spec_bind, rule spec_mono [OF spec_row_known [OF assms(2)]])
    fix v t
    assume v: "snapshot_row key v \<and> (\<forall>e \<in> set t. quiet e)"
    then have "recover_vdi_vsize E opq ds v = ret v" by (auto simp: recover_vdi_vsize_def snapshot_row_def)
    with v show "spec (bind (recover_vdi_vsize E opq ds v) (\<lambda>v. andthen (if v_snap (vd_volume v) \<noteq> 0 then
        destroy_snapshot E ds (vd_uuid v) else destroy_volume E opq ds v) (f v)))
        (\<lambda>_ _. False) (\<lambda>_ u. \<forall>e \<in> set (t @ u). quiet e)"
      using gone by (simp add: ret_bind snapshot_row_def)
        (rule spec_mono [OF refused_andthen [OF gone]]; auto)
  qed simp
  show ?thesis
    unfolding destroy_split destroy_at_def
    by (rule refused_bind [OF assms(1) [unfolded sr_at_def] quiet_dataset], rule refused_andthen,
        rule refused_in_context(1), rule refused_in_context(2), rule body)
qed

definition lost_env :: "unit env" where
  "lost_env = clones_env\<lparr>e_popen := \<lambda>_. returning ([], [], 0)\<rparr>"

theorem destroy_of_lost_snapshot_witness: "refused (destroy lost_env ''sr'' ''s'')"
proof (rule destroy_of_lost_snapshot)
  show "sr_at lost_env ''sr'' ''p/d''"
    using clones_env_at by (simp add: sr_at_def get_sr_metadata_def lost_env_def)
  show "snapshot_row ''s'' v" if "fst (e_get_vdi lost_env opq ''s'' w) = Inr (Some v)" for opq w v
    using that by (auto simp: lost_env_def clones_env_def returning_def snapshot_row_def snap_row_def sample_vdi_def)
  have cmd: "returns (zfs_cmd lost_env cmd) []" for cmd
    by (rule returns_zfs_cmd) (simp add: lost_env_def returning_def)
  have "snapshot_in ''s'' (out_lines []) = Inr None"
    by (simp add: out_lines_def py_strip_def lstrip_if_def rstrip_if_def splitlines_def)
  then show "returns (find_snapshot_by_uuid lost_env ''p/d'' ''s'') None"
    unfolding find_snapshot_by_uuid_def
    by (intro returns_bind [OF cmd]) (simp add: lift_sum_def returns_ret)
qed

end
