(* ===== verification/Orphans.thy ===== *)
theory Orphans
  imports ZfsChange
begin

text \<open>
  Orphan zvols and snapshots (end of \<^verbatim>\<open>src/src/volume/zfs_operations.py\<close>): what counts as
  in use, which names are reported, and which of them are destroyed after the grace period.
  The two kinds differ in how a name gives its uuid and its parent; a locale states what the
  scan of one name promises and proves the scan of a listing once.
\<close>

section \<open>In use\<close>

definition zvol_dev :: "string \<Rightarrow> string" where
  "zvol_dev zvol = ''/dev/zvol/'' @ zvol"

text \<open>fuser exits with 0 when some process has the device open; no fuser counts as not open.\<close>

definition zvol_device_is_open :: "'w env \<Rightarrow> string \<Rightarrow> ('w, bool) prog" where
  "zvol_device_is_open E zvol =
     catch_if (\<lambda>e. e = PyOSError)
       (bind (check_call_rc E [''fuser'', ''-s'', zvol_dev zvol]) (\<lambda>rc. ret (rc = 0)))
       (\<lambda>_. ret False)"

definition dp_meta_file :: "'w env \<Rightarrow> string \<Rightarrow> string" where
  "dp_meta_file E zvol =
     ''/var/run/nonpersistent/dp-raw-qdisk/'' @ take 16 (e_sha256 E (zvol_dev zvol)) @
     ''/qemu-dp-raw.pickle''"

definition is_pickle_error :: "exn \<Rightarrow> bool" where
  "is_pickle_error e = (case e of PyOSError \<Rightarrow> True | PyEOFError \<Rightarrow> True | UnpicklingError \<Rightarrow> True
     | PyKeyError _ \<Rightarrow> True | _ \<Rightarrow> False)"

definition as_pid :: "pyval \<Rightarrow> ('w, int) prog" where
  "as_pid v = (case v of PInt i \<Rightarrow> ret i | _ \<Rightarrow> raise PyTypeError)"

definition zvol_has_active_datapath :: "'w env \<Rightarrow> string \<Rightarrow> ('w, bool) prog" where
  "zvol_has_active_datapath E zvol =
     bind (path_exists E (dp_meta_file E zvol)) (\<lambda>ex.
       if \<not> ex then ret False
       else catch_if is_pickle_error
         (bind (bind (read_pickle E (dp_meta_file E zvol)) as_dict) (\<lambda>data.
            let pid = dget_or data ''pid'' PNone in
            if py_truth pid then
              bind (as_pid pid) (\<lambda>p. andthen (os_kill E p 0) (ret True))
            else ret False))
         (\<lambda>_. ret False))"

definition in_flight :: "'w env \<Rightarrow> string \<Rightarrow> ('w, bool) prog" where
  "in_flight E zvol =
     bind (zvol_device_is_open E zvol) (\<lambda>op.
       if op then ret True else zvol_has_active_datapath E zvol)"

section \<open>Finding\<close>

type_synonym orphan = "string \<times> string \<times> string"

definition prop_value :: "(string \<times> (string \<times> string)) list \<Rightarrow> string \<Rightarrow> string" where
  "prop_value props p = (case dget props p of None \<Rightarrow> ''?'' | Some (v, _) \<Rightarrow> v)"

definition orphan_props :: "'w env \<Rightarrow> string \<Rightarrow> string \<Rightarrow> ('w, string \<times> string) prog" where
  "orphan_props E name size_prop =
     catch (bind (vol_get_properties_batch E name [size_prop, ''creation'']) (\<lambda>props.
              ret (prop_value props size_prop, prop_value props ''creation'')))
       (\<lambda>_. ret (''?'', ''?''))"

definition zvol_item :: "'w env \<Rightarrow> string list \<Rightarrow> string \<Rightarrow> ('w, orphan list) prog" where
  "zvol_item E known name =
     (if last (split_on CHR ''/'' name) \<in> set known then ret []
      else bind (in_flight E name) (\<lambda>busy.
        if busy then ret []
        else bind (orphan_props E name ''volsize'') (\<lambda>(sz, cr). ret [(name, sz, cr)])))"

definition zsnap_item :: "'w env \<Rightarrow> string list \<Rightarrow> string \<Rightarrow> ('w, orphan list) prog" where
  "zsnap_item E known name =
     (case split1 CHR ''@'' name of
        [parent, snap_uuid] \<Rightarrow>
          if snap_uuid \<in> set known then ret []
          else bind (in_flight E parent) (\<lambda>busy.
            if busy then ret []
            else bind (orphan_props E name ''used'') (\<lambda>(sz, cr). ret [(name, sz, cr)]))
      | _ \<Rightarrow> ret [])"

definition zvol_find_orphans :: "'w env \<Rightarrow> string \<Rightarrow> string list \<Rightarrow> ('w, orphan list) prog" where
  "zvol_find_orphans E sr_dataset known =
     bind (dataset_list_zvols E sr_dataset) (\<lambda>names.
     bind (map_prog (zvol_item E known) names) (\<lambda>found. ret (concat found)))"

definition zsnap_find_orphans :: "'w env \<Rightarrow> string \<Rightarrow> string list \<Rightarrow> ('w, orphan list) prog" where
  "zsnap_find_orphans E sr_dataset known =
     bind (dataset_list_snapshots E sr_dataset) (\<lambda>names.
     bind (map_prog (zsnap_item E known) names) (\<lambda>found. ret (concat found)))"

section \<open>Destroying\<close>

definition old_enough :: "int \<Rightarrow> int \<Rightarrow> string \<Rightarrow> bool" where
  "old_enough grace now creation =
     (if grace > 0 then
        case py_int creation of None \<Rightarrow> False | Some ts \<Rightarrow> \<not> now - ts < grace
      else True)"

definition destroy_orphan :: "'w env \<Rightarrow> int \<Rightarrow> int \<Rightarrow> orphan \<Rightarrow> ('w, unit) prog" where
  "destroy_orphan E grace now orph =
     (case orph of (name, _, creation) \<Rightarrow>
        only_if (old_enough grace now creation)
          (catch (destroy_zvol E name) (\<lambda>_. ret ())))"

definition zsnap_destroy_orphans :: "'w env \<Rightarrow> orphan list \<Rightarrow> int \<Rightarrow> ('w, unit) prog" where
  "zsnap_destroy_orphans E orphans grace =
     bind (time_now E) (\<lambda>now. for_each (destroy_orphan E grace now) orphans)"

definition zvol_destroy_orphans :: "'w env \<Rightarrow> orphan list \<Rightarrow> int \<Rightarrow> ('w, unit) prog" where
  "zvol_destroy_orphans E orphans grace =
     bind (time_now E) (\<lambda>now. for_each (destroy_orphan E grace now) orphans)"

section \<open>What the scan promises\<close>

text \<open>
  What a datapath's record of \<open>zvol\<close> said when it was looked at: there was none, it could not be
  read, it names no process, or it names one that did not answer signal 0.
\<close>

definition record_says :: "'w env \<Rightarrow> string \<Rightarrow> pydict \<Rightarrow> bool" where
  "record_says E zvol data \<longleftrightarrow> (\<exists>w. fst (e_fs_read E (dp_meta_file E zvol) w) = Inr (PDict data))"

definition no_datapath :: "'w env \<Rightarrow> string \<Rightarrow> event list \<Rightarrow> bool" where
  "no_datapath E zvol t \<longleftrightarrow>
     (let looked = (Fs (Exists (dp_meta_file E zvol)), Some 1); read = Fs (ReadFile (dp_meta_file E zvol)) in
      t = [(Fs (Exists (dp_meta_file E zvol)), Some 0)] \<or>
      t = [looked, (read, None)] \<or>
      (\<exists>data. record_says E zvol data \<and> \<not> py_truth (dget_or data ''pid'' PNone) \<and> t = [looked, (read, Some 0)]) \<or>
      (\<exists>data p. record_says E zvol data \<and> dget_or data ''pid'' PNone = PInt p \<and>
         t = [looked, (read, Some 0), (Kill p 0, None)]))"

text \<open>
  The events of one look at \<open>zvol\<close> that found no sign of use: fuser did not report the device
  open, and then the datapath's record showed no process.
\<close>

definition probed_idle :: "'w env \<Rightarrow> string \<Rightarrow> event list \<Rightarrow> bool" where
  "probed_idle E zvol t \<longleftrightarrow>
     (\<exists>r u. r \<noteq> Some 0 \<and> t = (CheckCall [''fuser'', ''-s'', zvol_dev zvol], r) # u \<and> no_datapath E zvol u)"

lemma spec_read_record:
  fixes E :: "'w env"
  assumes "\<And>v. (\<exists>w. fst (e_fs_read E f w) = Inr v) \<Longrightarrow> Q v [(Fs (ReadFile f), Some 0)]"
    and "\<And>e. R e [(Fs (ReadFile f), None)]"
  shows "spec (read_pickle E f) Q R"
proof (rule specI)
  fix s :: "'w st"
  obtain r w where r: "e_fs_read E f (world s) = (r, w)" by force
  show "\<exists>t. trace (snd (read_pickle E f s)) = trace s @ t \<and>
      (case fst (read_pickle E f s) of Inr x \<Rightarrow> Q x t | Inl e \<Rightarrow> R e t)"
  proof (cases r)
    case (Inr v)
    with r have "\<exists>w. fst (e_fs_read E f w) = Inr v" by (metis fst_conv)
    with assms(1) r Inr show ?thesis by (simp add: read_pickle_def perform_def)
  qed (use assms(2) r in \<open>simp add: read_pickle_def perform_def\<close>)
qed

lemma spec_active_datapath:
  "spec (zvol_has_active_datapath E zvol) (\<lambda>b t. b \<or> no_datapath E zvol t) (\<lambda>_ _. True)"
proof -
  let ?f = "dp_meta_file E zvol"
  let ?seen = "(Fs (Exists ?f), Some 1)" and ?read = "Fs (ReadFile ?f)"
  have pid: "spec (let pid = dget_or data ''pid'' PNone in
        if py_truth pid then bind (as_pid pid) (\<lambda>p. andthen (os_kill E p 0) (ret True)) else ret False)
      (\<lambda>b u. b \<or> no_datapath E zvol [?seen, (?read, Some 0)] \<and> u = [])
      (\<lambda>e u. is_pickle_error e \<longrightarrow> no_datapath E zvol (?seen # (?read, Some 0) # u))"
    if "record_says E zvol data" for data
    unfolding Let_def as_pid_def os_kill_def
    by (intro spec_intros; (simp split: pyval.splits)?)
      (use that in \<open>auto simp: no_datapath_def is_pickle_error_def intro!: spec_intros split: pyval.splits\<close>)
  have dict: "spec (as_dict v) (\<lambda>data u. v = PDict data \<and> u = []) (\<lambda>e u. \<not> is_pickle_error e)" for v :: pyval
    by (cases v) (auto simp: as_dict_def is_pickle_error_def intro!: spec_intros)
  have read: "spec (bind (read_pickle E ?f) as_dict)
      (\<lambda>data u. record_says E zvol data \<and> u = [(?read, Some 0)])
      (\<lambda>e u. is_pickle_error e \<longrightarrow> no_datapath E zvol (?seen # u))"
    by (intro spec_bind spec_read_record spec_mono [OF dict]) (auto simp: record_says_def no_datapath_def)
  have body: "spec (bind (bind (read_pickle E ?f) as_dict) (\<lambda>data. let pid = dget_or data ''pid'' PNone in
        if py_truth pid then bind (as_pid pid) (\<lambda>p. andthen (os_kill E p 0) (ret True)) else ret False))
      (\<lambda>b u. b \<or> no_datapath E zvol (?seen # u)) (\<lambda>e u. is_pickle_error e \<longrightarrow> no_datapath E zvol (?seen # u))"
    by (rule spec_bind, rule spec_mono [OF read]) (auto elim!: spec_mono [OF pid])
  have caught: "spec (catch_if is_pickle_error (bind (bind (read_pickle E ?f) as_dict) (\<lambda>data. let pid = dget_or data ''pid'' PNone in
        if py_truth pid then bind (as_pid pid) (\<lambda>p. andthen (os_kill E p 0) (ret True)) else ret False)) (\<lambda>_. ret False))
      (\<lambda>b u. b \<or> no_datapath E zvol (?seen # u)) (\<lambda>_ _. True)"
    by (rule spec_catch_if, rule spec_mono [OF body]) (auto intro: spec_ret)
  have none: "no_datapath E zvol [(Fs (Exists ?f), Some 0)]" by (simp add: no_datapath_def Let_def)
  show ?thesis
    unfolding zvol_has_active_datapath_def
  proof (rule spec_bind, rule spec_path_exists)
    fix ex
    show "spec (if \<not> ex then ret False else catch_if is_pickle_error (bind (bind (read_pickle E ?f) as_dict)
          (\<lambda>data. let pid = dget_or data ''pid'' PNone in
        if py_truth pid then bind (as_pid pid) (\<lambda>p. andthen (os_kill E p 0) (ret True)) else ret False)) (\<lambda>_. ret False))
        (\<lambda>b u. b \<or> no_datapath E zvol ([(Fs (Exists ?f), Some (if ex then 1 else 0))] @ u)) (\<lambda>_ _. True)"
      using none spec_mono [OF caught] by (cases ex) (auto intro: spec_ret)
  qed simp
qed

lemma quiet_in_flight: "emits quiet (in_flight E zvol)"
  unfolding in_flight_def zvol_device_is_open_def zvol_has_active_datapath_def Let_def as_pid_def os_kill_def
  by (intro emits_intros; (simp split: pyval.splits)?)
    (auto simp: quiet_simps read_pickle_def intro!: emits_intros split: pyval.splits)

lemma spec_in_flight:
  "spec (in_flight E zvol)
     (\<lambda>b t. (\<not> b \<longrightarrow> probed_idle E zvol t) \<and> (\<forall>e \<in> set t. quiet e)) (\<lambda>_ t. \<forall>e \<in> set t. quiet e)"
proof -
  have dev: "spec (zvol_device_is_open E zvol)
     (\<lambda>b t. b \<or> (\<exists>r. r \<noteq> Some 0 \<and> t = [(CheckCall [''fuser'', ''-s'', zvol_dev zvol], r)])) (\<lambda>_ _. True)"
    unfolding zvol_device_is_open_def by (intro spec_intros) (auto intro!: spec_intros)
  have "spec (in_flight E zvol) (\<lambda>b t. b \<or> probed_idle E zvol t) (\<lambda>_ _. True)"
    unfolding in_flight_def
    by (rule spec_bind, rule spec_mono [OF dev])
      (auto simp: probed_idle_def intro!: spec_ret spec_mono [OF spec_active_datapath])
  from spec_conj [OF this quiet_in_flight [unfolded emits_def]] show ?thesis by (rule spec_mono) auto
qed

lemma spec_orphan_props:
  "spec (orphan_props E name p) (\<lambda>_ t. \<forall>e \<in> set t. \<exists>cmd. fst e = Popen cmd \<and> query_cmd cmd)
     (\<lambda>_ _. False)"
  unfolding orphan_props_def vol_get_properties_batch_def
  by (intro spec_intros) (auto simp: quiet_simps)

lemma sublist_later: "sublist u t \<Longrightarrow> sublist u (t @ v)" "sublist u t \<Longrightarrow> sublist u (v @ t)"
  by (auto simp: sublist_def) (metis append.assoc)+

locale orphan_scan =
  fixes item :: "string \<Rightarrow> ('w, orphan list) prog"
    and uuid_of parent_of :: "string \<Rightarrow> string"
    and known :: "string list"
    and idle :: "string \<Rightarrow> event list \<Rightarrow> bool"
  assumes item_spec:
    "spec (item n)
       (\<lambda>r t. (\<forall>e \<in> set t. quiet e) \<and>
          (\<forall>orph \<in> set r. fst orph = n \<and> uuid_of n \<notin> set known \<and> (\<exists>u. sublist u t \<and> idle (parent_of n) u)))
       (\<lambda>_ t. \<forall>e \<in> set t. quiet e)"
begin

definition justified :: "string list \<Rightarrow> orphan \<Rightarrow> event list \<Rightarrow> bool" where
  "justified names orph t \<longleftrightarrow> fst orph \<in> set names \<and> uuid_of (fst orph) \<notin> set known \<and>
     (\<exists>u. sublist u t \<and> idle (parent_of (fst orph)) u)"

lemma scan_spec:
  "spec (map_prog item names)
     (\<lambda>rs t. (\<forall>e \<in> set t. quiet e) \<and> (\<forall>orph \<in> set (concat rs). justified names orph t))
     (\<lambda>_ t. \<forall>e \<in> set t. quiet e)"
proof (induction names)
  case Nil
  then show ?case by (auto intro: spec_ret)
next
  case (Cons n names)
  show ?case
    unfolding map_prog.simps
  proof (rule spec_bind, rule spec_mono [OF item_spec])
    fix r :: "orphan list" and t :: "event list"
    assume r: "(\<forall>e \<in> set t. quiet e) \<and>
        (\<forall>orph \<in> set r. fst orph = n \<and> uuid_of n \<notin> set known \<and> (\<exists>u. sublist u t \<and> idle (parent_of n) u))"
    show "spec (bind (map_prog item names) (\<lambda>ys. ret (r # ys)))
        (\<lambda>rs u. (\<forall>e \<in> set (t @ u). quiet e) \<and> (\<forall>orph \<in> set (concat rs). justified (n # names) orph (t @ u)))
        (\<lambda>_ u. \<forall>e \<in> set (t @ u). quiet e)"
    proof (rule spec_bind, rule spec_mono [OF Cons.IH])
      fix rs :: "orphan list list" and u :: "event list"
      assume rs: "(\<forall>e \<in> set u. quiet e) \<and> (\<forall>orph \<in> set (concat rs). justified names orph u)"
      have old: "justified (n # names) orph (t @ u)" if "orph \<in> set (concat rs)" for orph
        using rs that unfolding justified_def by (meson list.set_intros(2) sublist_later)
      have new: "justified (n # names) orph (t @ u)" if "orph \<in> set r" for orph
        using r that unfolding justified_def by (metis list.set_intros(1) sublist_later(1))
      show "spec (ret (r # rs))
          (\<lambda>rs v. (\<forall>e \<in> set (t @ u @ v). quiet e) \<and> (\<forall>orph \<in> set (concat rs). justified (n # names) orph (t @ u @ v)))
          (\<lambda>_ v. \<forall>e \<in> set (t @ u @ v). quiet e)"
        using r rs old new by (intro spec_ret) auto
    qed (use r in auto)
  qed auto
qed

text \<open>A listing that is itself quiet, then the scan.\<close>

lemma find_spec:
  assumes "emits quiet listing"
  shows "spec (bind listing (\<lambda>names. bind (map_prog item names) (\<lambda>found. ret (concat found))))
     (\<lambda>orphs t. (\<forall>e \<in> set t. quiet e) \<and>
        (\<forall>orph \<in> set orphs. uuid_of (fst orph) \<notin> set known \<and>
           (\<exists>u. sublist u t \<and> idle (parent_of (fst orph)) u)))
     (\<lambda>_ t. \<forall>e \<in> set t. quiet e)"
proof (rule spec_bind, rule spec_mono [OF assms [unfolded emits_def]])
  fix names t
  assume t: "\<forall>e \<in> set t. quiet e"
  show "spec (bind (map_prog item names) (\<lambda>found. ret (concat found)))
     (\<lambda>orphs u. (\<forall>e \<in> set (t @ u). quiet e) \<and>
        (\<forall>orph \<in> set orphs. uuid_of (fst orph) \<notin> set known \<and>
           (\<exists>v. sublist v (t @ u) \<and> idle (parent_of (fst orph)) v)))
     (\<lambda>_ u. \<forall>e \<in> set (t @ u). quiet e)"
  proof (rule spec_bind, rule spec_mono [OF scan_spec])
    fix rs :: "orphan list list" and u :: "event list"
    assume u: "(\<forall>e \<in> set u. quiet e) \<and> (\<forall>orph \<in> set (concat rs). justified names orph u)"
    then have "\<forall>orph \<in> set (concat rs). uuid_of (fst orph) \<notin> set known \<and>
           (\<exists>v. sublist v (t @ u) \<and> idle (parent_of (fst orph)) v)"
      unfolding justified_def by (meson sublist_later)
    with t u show "spec (ret (concat rs))
       (\<lambda>orphs v. (\<forall>e \<in> set (t @ u @ v). quiet e) \<and>
          (\<forall>orph \<in> set orphs. uuid_of (fst orph) \<notin> set known \<and>
             (\<exists>w. sublist w (t @ u @ v) \<and> idle (parent_of (fst orph)) w)))
       (\<lambda>_ v. \<forall>e \<in> set (t @ u @ v). quiet e)"
      by (intro spec_ret) auto
  qed (use t in auto)
qed auto

end

text \<open>The uuid and the parent zvol of a name, for the two kinds.\<close>

definition zvol_uuid :: "string \<Rightarrow> string" where
  "zvol_uuid name = last (split_on CHR ''/'' name)"

definition snap_uuid_of :: "string \<Rightarrow> string" where
  "snap_uuid_of name = last (split1 CHR ''@'' name)"

definition snap_parent :: "string \<Rightarrow> string" where
  "snap_parent name = hd (split1 CHR ''@'' name)"

lemma spec_probe_then_report:
  assumes "uuid \<notin> set known"
  shows "spec (bind (in_flight E parent) (\<lambda>busy.
            if busy then ret []
            else bind (orphan_props E name p) (\<lambda>(sz, cr). ret [(name, sz, cr)])))
       (\<lambda>r t. (\<forall>e \<in> set t. quiet e) \<and>
          (\<forall>orph \<in> set r. fst orph = name \<and> uuid \<notin> set known \<and> (\<exists>u. sublist u t \<and> probed_idle E parent u)))
       (\<lambda>_ t. \<forall>e \<in> set t. quiet e)"
proof (rule spec_bind, rule spec_mono [OF spec_in_flight])
  fix b t
  assume t: "(\<not> b \<longrightarrow> probed_idle E parent t) \<and> (\<forall>e \<in> set t. quiet e)"
  have "spec (bind (orphan_props E name p) (\<lambda>(sz, cr). ret [(name, sz, cr)]))
      (\<lambda>r u. (\<forall>e \<in> set (t @ u). quiet e) \<and> (\<forall>orph \<in> set r. fst orph = name)) (\<lambda>_ u. \<forall>e \<in> set (t @ u). quiet e)"
    by (rule spec_bind, rule spec_mono [OF spec_orphan_props])
      (use t in \<open>auto simp: quiet_def changes_def intro!: spec_intros\<close>)
  then have "spec (bind (orphan_props E name p) (\<lambda>(sz, cr). ret [(name, sz, cr)]))
      (\<lambda>r u. (\<forall>e \<in> set (t @ u). quiet e) \<and>
          (\<forall>orph \<in> set r. fst orph = name \<and> uuid \<notin> set known \<and> (\<exists>v. sublist v (t @ u) \<and> probed_idle E parent v)))
      (\<lambda>_ u. \<forall>e \<in> set (t @ u). quiet e)" if "\<not> b"
    using that t assms by (elim spec_mono) (auto intro!: exI [of _ t])
  with t show "spec (if b then ret [] else bind (orphan_props E name p) (\<lambda>(sz, cr). ret [(name, sz, cr)]))
      (\<lambda>r u. (\<forall>e \<in> set (t @ u). quiet e) \<and>
          (\<forall>orph \<in> set r. fst orph = name \<and> uuid \<notin> set known \<and> (\<exists>v. sublist v (t @ u) \<and> probed_idle E parent v)))
      (\<lambda>_ u. \<forall>e \<in> set (t @ u). quiet e)"
    by (auto intro: spec_ret)
qed auto

lemma split1_cases: "split1 c s = [s] \<or> (\<exists>a b. split1 c s = [a, b])"
  by (cases "c \<in> set s") (auto simp: split1_fresh dest: split1_contains)

interpretation zvols: orphan_scan "zvol_item E known" zvol_uuid "\<lambda>n. n" known "probed_idle E" for E :: "'w env" and known
proof
  fix n
  show "spec (zvol_item E known n)
       (\<lambda>r t. (\<forall>e \<in> set t. quiet e) \<and>
          (\<forall>orph \<in> set r. fst orph = n \<and> zvol_uuid n \<notin> set known \<and> (\<exists>u. sublist u t \<and> probed_idle E n u)))
       (\<lambda>_ t. \<forall>e \<in> set t. quiet e)"
    using spec_probe_then_report [of "zvol_uuid n" known E n n "''volsize''"]
    unfolding zvol_item_def zvol_uuid_def [symmetric]
    by (cases "zvol_uuid n \<in> set known") (simp_all add: spec_ret)
qed

interpretation snaps: orphan_scan "zsnap_item E known" snap_uuid_of snap_parent known "probed_idle E" for E :: "'w env" and known
proof
  fix n
  consider "split1 CHR ''@'' n = [n]" | a b where "split1 CHR ''@'' n = [a, b]"
    using split1_cases [of "CHR ''@''" n] by blast
  then show "spec (zsnap_item E known n)
       (\<lambda>r t. (\<forall>e \<in> set t. quiet e) \<and>
          (\<forall>orph \<in> set r. fst orph = n \<and> snap_uuid_of n \<notin> set known \<and>
             (\<exists>u. sublist u t \<and> probed_idle E (snap_parent n) u)))
       (\<lambda>_ t. \<forall>e \<in> set t. quiet e)"
  proof cases
    case 1
    then show ?thesis by (simp add: zsnap_item_def spec_ret)
  next
    case (2 a b)
    then show ?thesis
      using spec_probe_then_report [of b known E a n "''used''"]
      by (cases "b \<in> set known") (simp_all add: zsnap_item_def snap_uuid_of_def snap_parent_def spec_ret)
  qed
qed

section \<open>What the cleanup destroys\<close>

text \<open>A name is fair game at time \<open>now\<close> when it is listed and old enough.\<close>

definition doomed :: "int \<Rightarrow> int \<Rightarrow> orphan list \<Rightarrow> string \<Rightarrow> bool" where
  "doomed grace now orphans name \<longleftrightarrow>
     (\<exists>sz cr. (name, sz, cr) \<in> set orphans \<and>
        (grace > 0 \<longrightarrow> (\<exists>ts. py_int cr = Some ts \<and> now - ts \<ge> grace)))"

lemma old_enough_iff: "old_enough grace now cr \<longleftrightarrow> (grace > 0 \<longrightarrow> (\<exists>ts. py_int cr = Some ts \<and> now - ts \<ge> grace))"
  by (auto simp: old_enough_def split: option.splits)

definition destroys_only :: "(string \<Rightarrow> bool) \<Rightarrow> event list \<Rightarrow> bool" where
  "destroys_only P t \<longleftrightarrow> (\<forall>e \<in> set t. is_sleep (fst e) \<or> (\<exists>n. P n \<and> at_destroy n (fst e)))"

lemma spec_destroy_orphan:
  "spec (destroy_orphan E grace now orph)
     (\<lambda>_ t. destroys_only (doomed grace now [orph]) t \<and> (\<not> old_enough grace now (snd (snd orph)) \<longrightarrow> t = []))
     (\<lambda>_ _. False)"
proof -
  obtain n sz cr where o: "orph = (n, sz, cr)" by (cases orph) auto
  show ?thesis
  proof (cases "old_enough grace now cr")
    case False
    with o show ?thesis
      by (auto simp: destroy_orphan_def only_if_def destroys_only_def intro: spec_ret)
  next
    case True
    have "doomed grace now [orph] n" using True o by (auto simp: doomed_def old_enough_iff)
    then have d: "tried (at_destroy n) t \<Longrightarrow> destroys_only (doomed grace now [orph]) t" for t
      by (auto simp: tried_def destroys_only_def)
    have "spec (catch (destroy_zvol E n) (\<lambda>_. ret ()))
        (\<lambda>_ t. destroys_only (doomed grace now [orph]) t) (\<lambda>_ _. False)"
      by (rule spec_catch, rule spec_mono [OF spec_destroy_zvol])
        (auto intro!: spec_ret d dest: acted_tried)
    with True o show ?thesis by (simp add: destroy_orphan_def only_if_def)
  qed
qed

lemma doomed_mono: "doomed grace now [orph] n \<Longrightarrow> orph \<in> set orphans \<Longrightarrow> doomed grace now orphans n"
  by (auto simp: doomed_def)

lemma destroys_only_append: "destroys_only P (t @ u) \<longleftrightarrow> destroys_only P t \<and> destroys_only P u"
  by (auto simp: destroys_only_def)

lemma destroys_only_weaken: "destroys_only P t \<Longrightarrow> (\<And>n. P n \<Longrightarrow> P' n) \<Longrightarrow> destroys_only P' t"
  unfolding destroys_only_def by blast

lemma spec_destroy_all:
  "spec (for_each (destroy_orphan E grace now) orphans)
     (\<lambda>_ t. destroys_only (doomed grace now orphans) t) (\<lambda>_ _. False)"
proof -
  have "spec (for_each (destroy_orphan E grace now) orphans)
     (\<lambda>_ u. destroys_only (doomed grace now orphans) ([] @ u)) (\<lambda>e u. (\<lambda>_ _. False) e ([] @ u))"
  proof (rule spec_for_each)
    fix orph t
    assume orph: "orph \<in> set orphans" and t: "destroys_only (doomed grace now orphans) t"
    have "destroys_only (doomed grace now orphans) u" if "destroys_only (doomed grace now [orph]) u" for u
      using that doomed_mono [OF _ orph] by (rule destroys_only_weaken)
    then show "spec (destroy_orphan E grace now orph)
       (\<lambda>_ u. destroys_only (doomed grace now orphans) (t @ u)) (\<lambda>e u. False)"
      by (intro spec_mono [OF spec_destroy_orphan])
        (use t in \<open>auto simp: destroys_only_append\<close>)
  qed (simp add: destroys_only_def)
  then show ?thesis by simp
qed

text \<open>The cleanup of both kinds, for every answer of the clock.\<close>

lemma spec_destroy_orphans:
  "spec (bind (time_now E) (\<lambda>now. for_each (destroy_orphan E grace now) orphans))
     (\<lambda>_ t. \<exists>now u. t = (Now, Some now) # u \<and> destroys_only (doomed grace now orphans) u)
     (\<lambda>_ t. t = [(Now, None)])"
  by (intro spec_bind spec_time_now, rule spec_mono [OF spec_destroy_all]) auto

end
