(* ===== verification/ZfsProps.thy ===== *)
theory ZfsProps
  imports Footprint Orphans Samples
begin

text \<open>
  What the layer over ZFS promises: the bounded retries of commands and of libzfs_core calls,
  the loader and its gates, thick provisioning, the order of a recursive destroy, and the
  cleanup of orphans.
\<close>

section \<open>Retries\<close>

definition calls_of :: "call \<Rightarrow> event list \<Rightarrow> nat" where
  "calls_of c t = length (filter (\<lambda>e. fst e = c) t)"

lemma calls_of_append [simp]: "calls_of c (t @ u) = calls_of c t + calls_of c u"
  by (simp add: calls_of_def)

lemma calls_of_pause [simp]: "pause d p \<Longrightarrow> calls_of (Popen cmd) p = 0"
  by (simp add: calls_of_def pause_def)

lemma calls_of_retried: "retried (Popen cmd) ok d k t \<Longrightarrow> calls_of (Popen cmd) t = k"
proof (induction k arbitrary: t)
  case (Suc k)
  from Suc.prems obtain rc p u where t: "t = [(Popen cmd, Some rc)] @ p @ u" and p: "pause d p"
    and u: "retried (Popen cmd) ok d k u" by (auto elim: retried_SucE)
  show ?case using Suc.IH [OF u] p unfolding t by (simp add: calls_of_def pause_def)
qed (simp add: calls_of_def)

lemma calls_of_attempts: "attempts (Popen cmd) ok d n fin t \<Longrightarrow> 1 \<le> calls_of (Popen cmd) t \<and> calls_of (Popen cmd) t \<le> n"
  by (erule attemptsE) (auto dest: calls_of_retried simp: calls_of_def)

lemma calls_of_interrupted: "interrupted (Popen cmd) ok d n t \<Longrightarrow> 1 \<le> calls_of (Popen cmd) t \<and> calls_of (Popen cmd) t \<le> n"
  by (erule interruptedE) (auto dest: calls_of_retried simp: calls_of_def)

text \<open>
  Whatever the world answers, a command with retries is attempted at most ten times, and it
  returns only when the last attempt gave the expected code.
\<close>

theorem zfs_command_attempts:
  "spec (run_zfs_command_with_retry E cmd True simple exp_rc)
     (\<lambda>_ t. calls_of (Popen cmd) t \<le> 10 \<and>
        attempts (Popen cmd) (\<lambda>rc. rc \<noteq> exp_rc \<and> rc \<noteq> 2) (1 / 10) 10 (\<lambda>r. r = Some exp_rc) t)
     (\<lambda>_ t. 1 \<le> calls_of (Popen cmd) t \<and> calls_of (Popen cmd) t \<le> 10 \<and>
        (Popen cmd, Some exp_rc) \<notin> set t)"
proof -
  let ?ok = "\<lambda>rc. rc \<noteq> exp_rc \<and> rc \<noteq> 2"
  have a: "e \<noteq> (Popen cmd, Some exp_rc)"
    if "attempts (Popen cmd) ?ok (1 / 10) 10 (\<lambda>r. r \<noteq> Some exp_rc) t" "e \<in> set t" for e t
    using that by (auto elim!: attemptsE dest: retried_events)
  have b: "e \<noteq> (Popen cmd, Some exp_rc)"
    if "interrupted (Popen cmd) ?ok (1 / 10) 10 t" "e \<in> set t" for e t
    using that by (auto elim!: interruptedE dest: retried_events)
  have fail: "1 \<le> calls_of (Popen cmd) t \<and> calls_of (Popen cmd) t \<le> 10 \<and>
        (Popen cmd, Some exp_rc) \<notin> set t"
    if "attempts (Popen cmd) ?ok (1 / 10) 10 (\<lambda>r. r \<noteq> Some exp_rc) t \<or> interrupted (Popen cmd) ?ok (1 / 10) 10 t" for t
    using that a b calls_of_attempts calls_of_interrupted by blast
  show ?thesis
    unfolding run_zfs_command_with_retry_def
    by (rule spec_mono [OF spec_run_zfs_command _ fail]) (simp_all add: calls_of_attempts)
qed

text \<open>
  What the attempts find is a script: an exception, or output, error text and code. An attempt
  is to be repeated when its code is neither the expected one nor 2 and its error text has one
  of the three messages in it.
\<close>

type_synonym attempt = "exn + (string \<times> string \<times> int)"

definition busy_text :: "string \<Rightarrow> bool" where
  "busy_text err \<longleftrightarrow> sublist ''Device or resource busy'' err \<or> sublist ''is busy'' err \<or> sublist ''resource busy'' err"

definition to_repeat :: "int \<Rightarrow> attempt \<Rightarrow> bool" where
  "to_repeat exp_rc a \<longleftrightarrow>
     (case a of Inl e \<Rightarrow> False | Inr (out, err, rc) \<Rightarrow> rc \<noteq> exp_rc \<and> rc \<noteq> 2 \<and> busy_text err)"

definition outcome :: "string list \<Rightarrow> bool \<Rightarrow> int \<Rightarrow> attempt \<Rightarrow> exn + run_result" where
  "outcome cmd simple exp_rc a =
     (case a of Inl e \<Rightarrow> Inl e
      | Inr (out, err, rc) \<Rightarrow>
          if rc \<noteq> exp_rc then Inl (run_error cmd rc err)
          else Inr (if simple then Simple out else Full out err rc))"

definition attempt_event :: "string list \<Rightarrow> attempt \<Rightarrow> event" where
  "attempt_event cmd a = (Popen cmd, case a of Inl e \<Rightarrow> None | Inr (out, err, rc) \<Rightarrow> Some rc)"

text \<open>A world that plays a script to one command, and in which sleeping works.\<close>

definition scripted :: "'w env \<Rightarrow> string list \<Rightarrow> ('w \<Rightarrow> attempt list) \<Rightarrow> bool" where
  "scripted E cmd left \<longleftrightarrow>
     (\<forall>w a as. left w = a # as \<longrightarrow> (\<exists>w'. e_popen E cmd w = (a, w') \<and> left w' = as)) \<and>
     (\<forall>d w. \<exists>w'. e_sleep E d w = (Inr (), w') \<and> left w' = left w)"

lemma repeat_busy: "to_repeat exp_rc (Inr (out, err, rc)) \<longleftrightarrow> rc \<noteq> exp_rc \<and> is_busy_error err rc"
  by (auto simp: to_repeat_def busy_text_def is_busy_error_iff busy_patterns_def)

lemma played:
  assumes "scripted E cmd left" and "left (world s) = a # as"
  shows "\<exists>s'. popen E cmd s = (a, s') \<and> left (world s') = as \<and> trace s' = trace s @ [attempt_event cmd a]"
proof -
  from assms obtain w' where "e_popen E cmd (world s) = (a, w')" "left w' = as"
    unfolding scripted_def by blast
  then show ?thesis by (auto simp: popen_def perform_def attempt_event_def case_prod_beta split: sum.splits)
qed

lemma slept:
  assumes "scripted E cmd left"
  shows "\<exists>s'. sleep E d s = (Inr (), s') \<and> left (world s') = left (world s) \<and> trace s' = trace s @ [(Sleep d, Some 0)]"
proof -
  from assms obtain w' where "e_sleep E d (world s) = (Inr (), w')" "left w' = left (world s)"
    unfolding scripted_def by blast
  then show ?thesis by (simp add: sleep_def perform_def)
qed

lemma scripted_run:
  assumes "scripted E cmd left" and "n < length (left (world s))" and "0 < d"
  shows "\<exists>s'. run_zfs_command E cmd True simple exp_rc (Suc n) d s =
       (outcome cmd simple exp_rc (left (world s) ! length (takeWhile (to_repeat exp_rc) (take n (left (world s))))), s') \<and>
     left (world s') = drop (Suc (length (takeWhile (to_repeat exp_rc) (take n (left (world s)))))) (left (world s)) \<and>
     trace s' = trace s @ concat (map (\<lambda>a. [attempt_event cmd a, (Sleep d, Some 0)])
         (takeWhile (to_repeat exp_rc) (take n (left (world s))))) @
       [attempt_event cmd (left (world s) ! length (takeWhile (to_repeat exp_rc) (take n (left (world s)))))]"
  using assms(2)
proof (induction n arbitrary: s)
  case (0 s)
  then obtain a as where l: "left (world s) = a # as" by (cases "left (world s)") auto
  from played [OF assms(1) l] obtain s' where
    "popen E cmd s = (a, s')" "left (world s') = as" "trace s' = trace s @ [attempt_event cmd a]" by blast
  with l show ?case
    by (auto simp: bind_def outcome_def raise_def ret_def split: sum.splits)
next
  case (Suc n s)
  then obtain a as where l: "left (world s) = a # as" by (cases "left (world s)") auto
  from played [OF assms(1) l] obtain s1 where
    s1: "popen E cmd s = (a, s1)" "left (world s1) = as" "trace s1 = trace s @ [attempt_event cmd a]" by blast
  show ?case
  proof (cases "to_repeat exp_rc a")
    case False
    with l s1 show ?thesis
      by (cases a) (auto simp: bind_def outcome_def raise_def ret_def repeat_busy)
  next
    case True
    then obtain out err rc where a: "a = Inr (out, err, rc)" by (cases a) (auto simp: to_repeat_def)
    with True have busy: "rc \<noteq> exp_rc" "is_busy_error err rc" by (simp_all add: repeat_busy)
    from slept [OF assms(1), of d s1] obtain s2 where
      s2: "sleep E d s1 = (Inr (), s2)" "left (world s2) = as" "trace s2 = trace s1 @ [(Sleep d, Some 0)]"
      using s1(2) by auto
    have "run_zfs_command E cmd True simple exp_rc (Suc (Suc n)) d s = run_zfs_command E cmd True simple exp_rc (Suc n) d s2"
      using s1(1) s2(1) busy assms(3) a unfolding run_zfs_command.simps(2) [of E cmd True simple exp_rc "Suc n" d]
      by (simp add: bind_def andthen_def only_if_def del: run_zfs_command.simps(2))
    moreover have "n < length (left (world s2))" using Suc.prems l s2(2) by simp
    ultimately show ?thesis
      using Suc.IH [of s2] True l s1(3) s2(2,3) by simp
  qed
qed

text \<open>
  C20. A command with retries makes exactly the attempts that the answers ask for: it repeats
  after a wrong code other than 2 whose text says busy, at most nine times and each time after
  a pause of a tenth of a second, and returns or raises what the last attempt gave. Stated for
  every script of ten or more answers of a system on which sleeping works.
\<close>

theorem zfs_command_retries:
  assumes "scripted E cmd left" and "10 \<le> length (left (world s))"
    and "busy = takeWhile (to_repeat exp_rc) (take 9 (left (world s)))"
    and "final = left (world s) ! length busy"
  shows "\<exists>s'. run_zfs_command_with_retry E cmd True simple exp_rc s = (outcome cmd simple exp_rc final, s') \<and>
     left (world s') = drop (Suc (length busy)) (left (world s)) \<and>
     trace s' = trace s @ concat (map (\<lambda>a. [attempt_event cmd a, (Sleep (1 / 10), Some 0)]) busy) @
       [attempt_event cmd final]"
  using scripted_run [OF assms(1), of 9 s "1 / 10" simple exp_rc] assms(2)
  by (simp add: run_zfs_command_with_retry_def assms(3,4) numeral_eq_Suc)

definition script_env :: "attempt list env" where
  "script_env = any_env\<lparr>e_popen := \<lambda>_ as. case as of [] \<Rightarrow> (Inl PyOSError, []) | a # as \<Rightarrow> (a, as)\<rparr>"

lemma script_env_plays: "scripted script_env cmd (\<lambda>as. as)"
  by (simp add: scripted_def script_env_def any_env_def returning_def)

text \<open>Busy twice, then done; the third answer is taken though more busy ones would follow.\<close>

definition busy_twice :: "attempt list" where
  "busy_twice = [Inr ([], ''dataset is busy'', 1), Inr ([], ''Device or resource busy'', 1), Inr (''ok'', [], 0)] @
     replicate 7 (Inr ([], ''is busy'', 1))"

theorem zfs_command_retries_witness:
  "\<exists>s'. run_zfs_command_with_retry script_env [''zfs''] True True 0
       \<lparr>world = busy_twice, libs = no_libs, trace = []\<rparr> = (Inr (Simple ''ok''), s') \<and>
     trace s' = [(Popen [''zfs''], Some 1), (Sleep (1 / 10), Some 0), (Popen [''zfs''], Some 1),
       (Sleep (1 / 10), Some 0), (Popen [''zfs''], Some 0)]"
proof -
  let ?s = "\<lparr>world = busy_twice, libs = no_libs, trace = []\<rparr>"
  let ?busy = "take 2 busy_twice" and ?done = "Inr (''ok'', [], 0)"
  have b: "contains ''is busy'' ''dataset is busy''" "contains ''Device or resource busy'' ''Device or resource busy''"
    by code_simp+
  then have t: "?busy = takeWhile (to_repeat 0) (take 9 (world ?s))"
    by (simp add: busy_twice_def to_repeat_def busy_text_def flip: contains_sublist)
  have f: "?done = world ?s ! length ?busy" by (simp add: busy_twice_def)
  have l: "10 \<le> length (world ?s)" by (simp add: busy_twice_def)
  have e: "concat (map (\<lambda>a. [attempt_event [''zfs''] a, (Sleep (1 / 10), Some 0)]) ?busy) @ [attempt_event [''zfs''] ?done] =
      [(Popen [''zfs''], Some 1), (Sleep (1 / 10), Some 0), (Popen [''zfs''], Some 1),
       (Sleep (1 / 10), Some 0), (Popen [''zfs''], Some 0)]"
    by (simp add: busy_twice_def attempt_event_def)
  have o: "outcome [''zfs''] True 0 ?done = Inr (Simple ''ok'')" by (simp add: outcome_def)
  from zfs_command_retries [OF script_env_plays l t f, of "[''zfs'']" True]
  show ?thesis unfolding e o by (elim exE conjE) (intro exI conjI, assumption, simp)
qed

lemma attempts_length: "attempts c ok d n fin t \<Longrightarrow> d > 0 \<Longrightarrow> length t \<le> 2 * n - 1"
  unfolding attempts_def by (auto dest!: retried_length)

text \<open>
  A libzfs_core destroy is retried only on a retryable errno, after a pause, at most ten
  attempts; a retryable errno is returned only after all ten.
\<close>

theorem lzc_destroy_retries:
  "spec (destroy_with_retry E name)
     (\<lambda>r t. attempts (LzcDestroy name) (\<lambda>rc. rc \<in> RETRYABLE_ERRNOS) (1 / 10) 10 (\<lambda>x. x = Some r) t \<and>
            (if r \<in> RETRYABLE_ERRNOS then length t = 19 else length t \<le> 19))
     (\<lambda>_ t. list_all (\<lambda>e. fst e = LzcDestroy name \<or> fst e = Sleep (1 / 10)) t)"
  unfolding destroy_with_retry_def list_all_iff
  by (rule spec_mono [OF destroying.with_retry_spec]) (auto dest: retried_length attempts_length)

section \<open>The gates\<close>

text \<open>
  The gate of a libzfs_core operation answers yes only when the loaded library has the
  required symbols and the operation's own one, and, where the operation takes properties, an
  nvpair library with its symbols.
\<close>

theorem gate_sound:
  assumes "libs_ok (libs s)" and "fst (op_available E op extra s) = Inr True"
  shows "libs_ok (libs (snd (op_available E op extra s))) \<and>
    (\<exists>core. lib_core (libs (snd (op_available E op extra s))) = Some core \<and>
       set REQUIRED_SYMBOLS \<subseteq> set core \<and> fst op \<in> set core) \<and>
    (snd op \<longrightarrow> (\<exists>nvp. lib_nvpair (libs (snd (op_available E op extra s))) = Some nvp \<and>
       set NVPAIR_REQUIRED_SYMBOLS \<subseteq> set nvp \<and> set extra \<subseteq> set nvp))"
proof -
  let ?l = "ensure_init E (libs s)"
  have ok: "libs_ok ?l" using assms(1) by (rule libs_ok_ensure_init)
  have gate: "op_gate op extra ?l" using assms(2) by (simp add: op_available_def Let_def)
  with ok show ?thesis
    by (auto simp: op_available_def Let_def libs_ok_def op_gate_def candidate_has_required_symbols_def
        nvpair_ok_def list_all_iff split: option.splits)
qed

definition libs_env :: "unit env" where
  "libs_env = bare_env\<lparr>e_dlopen := \<lambda>so. if so \<in> set LIB_CANDIDATES then Some (''lzc_clone'' # REQUIRED_SYMBOLS) else None\<rparr>"

theorem gate_sound_witness:
  "\<exists>core. lib_core (libs (snd (op_available libs_env OP_CLONE [] start_state))) = Some core \<and>
     set REQUIRED_SYMBOLS \<subseteq> set core \<and> ''lzc_clone'' \<in> set core"
proof -
  have "libs_ok (libs start_state)" by (simp add: libs_ok_def start_state_def no_libs_def)
  moreover have "fst (op_available libs_env OP_CLONE [] start_state) = Inr True" by code_simp
  ultimately show ?thesis using gate_sound [of start_state libs_env OP_CLONE "[]"] by (simp add: OP_CLONE_def)
qed

section \<open>Sizes\<close>

text \<open>The size is rounded up to the next multiple of the block size.\<close>

theorem rounded_size:
  assumes "0 < blk"
  shows "round_volsize sz blk mod blk = 0 \<and> sz \<le> round_volsize sz blk \<and> round_volsize sz blk < sz + blk"
  using round_volsize_multiple [OF assms] round_volsize_bounds [OF assms] by simp

theorem rounded_size_witness:
  "round_volsize 1000001 8192 mod 8192 = 0 \<and> 1000001 \<le> round_volsize 1000001 8192 \<and>
   round_volsize 1000001 8192 < 1000001 + 8192"
  by (rule rounded_size) simp

text \<open>Every valid block size is shown under its own name.\<close>

theorem volblocksize_roundtrip:
  "map (\<lambda>(shown, bytes). format_volblocksize (str_int bytes)) VALID_VOLBLOCKSIZE =
   map (\<lambda>(shown, bytes). Inr shown) VALID_VOLBLOCKSIZE"
proof -
  have "str_int 4 = ''4''" "str_int 8 = ''8''" "str_int 16 = ''16''" "str_int 32 = ''32''"
    "str_int 64 = ''64''" "str_int 128 = ''128''" by code_simp+
  then show ?thesis
    by (simp add: VALID_VOLBLOCKSIZE_def format_volblocksize_def py_int_str_int)
qed

lemma split_on_mid: "split_on c (a @ c # b) = split_on c a @ split_on c b"
  by (induction a) (auto split: list.splits)

lemma join_append:
  "xs \<noteq> [] \<Longrightarrow> ys \<noteq> [] \<Longrightarrow> join_with sep (xs @ ys) = join_with sep xs @ sep @ join_with sep ys"
  by (induction sep xs rule: join_with.induct) (auto simp: neq_Nil_conv)

text \<open>
  C21. The parents of a dataset are exactly the proper prefixes of its name that end before a
  slash and contain one themselves.
\<close>

theorem parents_are_prefixes:
  "p \<in> set (dataset_get_parents name) \<longleftrightarrow> (\<exists>rest. name = p @ ''/'' @ rest \<and> CHR ''/'' \<in> set p)"
proof
  let ?parts = "split_on CHR ''/'' name"
  assume "p \<in> set (dataset_get_parents name)"
  then obtain i where i: "2 \<le> i" "i < length ?parts" and p: "p = join_with ''/'' (take i ?parts)"
    unfolding dataset_get_parents_def Let_def by auto
  then have ne: "take i ?parts \<noteq> []" "drop i ?parts \<noteq> []" by auto
  from join_append [OF this, of "''/''"] have "name = p @ ''/'' @ join_with ''/'' (drop i ?parts)"
    by (simp add: p)
  moreover have "split_on CHR ''/'' p = take i ?parts"
    unfolding p using ne(1) by (intro split_join) (auto dest!: in_set_takeD split_on_no_sep)
  then have "length (split_on CHR ''/'' p) \<noteq> 1" using i by simp
  then have "CHR ''/'' \<in> set p" by (metis split_on_fresh length_Cons list.size(3) One_nat_def)
  ultimately show "\<exists>rest. name = p @ ''/'' @ rest \<and> CHR ''/'' \<in> set p" by blast
next
  assume "\<exists>rest. name = p @ ''/'' @ rest \<and> CHR ''/'' \<in> set p"
  then obtain rest a b where n: "name = p @ ''/'' @ rest" and p: "p = a @ ''/'' @ b"
    by (metis append_Cons append_Nil split_list)
  let ?k = "length (split_on CHR ''/'' p)"
  have parts: "split_on CHR ''/'' name = split_on CHR ''/'' p @ split_on CHR ''/'' rest"
    by (simp add: n split_on_mid)
  have k: "?k = length (split_on CHR ''/'' a) + length (split_on CHR ''/'' b)" by (simp add: p split_on_mid)
  have "1 \<le> length (split_on CHR ''/'' x)" for x by (simp add: Suc_le_eq)
  from this [of a] this [of b] k have "2 \<le> ?k" by linarith
  moreover have "?k < length (split_on CHR ''/'' name)" by (simp add: parts)
  ultimately have "?k \<in> set [2..<length (split_on CHR ''/'' name)]" by simp
  then have "join_with ''/'' (take ?k (split_on CHR ''/'' name)) \<in> set (dataset_get_parents name)"
    unfolding dataset_get_parents_def Let_def by simp
  then show "p \<in> set (dataset_get_parents name)" by (simp add: parts)
qed

section \<open>Thick provisioning\<close>

definition at_command :: "string list \<Rightarrow> call \<Rightarrow> bool" where
  "at_command cmd c \<longleftrightarrow> c = Popen cmd"

abbreviation nothing :: "event \<Rightarrow> bool" where
  "nothing \<equiv> \<lambda>_. False"

lemma command_achieves: "achieves nothing [at_command cmd] (run_unit_retry E cmd)"
  by (rule achieves_act, rule spec_run_unit_retry) (simp_all add: at_command_def)

text \<open>
  A thick zvol is created without a reservation and then reserved at its size times its
  copies, in this order.
\<close>

theorem thick_create_reserves:
  "spec (create_zvol E zvol sz False blk (p\<lparr>zp_copies := Some (str_int copies)\<rparr>))
     (\<lambda>_ t. did [at_command (create_args zvol sz False blk (p\<lparr>zp_copies := Some (str_int copies)\<rparr>)),
                at_command [''zfs'', ''set'', ''refreservation='' @ str_int (sz * copies), zvol]] t)
     (\<lambda>_ t. list_all (\<lambda>e. is_sleep (fst e) \<or>
        at_command (create_args zvol sz False blk (p\<lparr>zp_copies := Some (str_int copies)\<rparr>)) (fst e) \<or>
        at_command [''zfs'', ''set'', ''refreservation='' @ str_int (sz * copies), zvol] (fst e)) t)"
  (is "spec ?m (\<lambda>_ t. did [?c, ?r] t) (\<lambda>_ t. list_all ?ok t)")
proof -
  have m: "?m = bind (run_unit_retry E (create_args zvol sz False blk (p\<lparr>zp_copies := Some (str_int copies)\<rparr>)))
      (\<lambda>_. run_unit_retry E [''zfs'', ''set'', ''refreservation='' @ str_int (sz * copies), zvol])"
    by (simp add: create_zvol_def set_refreservation_def parse_int_def py_int_str_int of_option_def only_if_def
        andthen_def bind_def ret_def)
  have "achieves nothing [?c, ?r] ?m"
    unfolding m using achieves_bind [OF command_achieves command_achieves] by simp
  moreover have "emits ?ok ?m"
    unfolding m by (intro emits_intros) (simp_all add: at_command_def is_sleep_def)
  ultimately have "spec ?m (\<lambda>_ t. (did [?c, ?r] t \<and> none nothing t) \<and> (\<forall>e \<in> set t. ?ok e))
      (\<lambda>_ t. none nothing t \<and> (\<forall>e \<in> set t. ?ok e))"
    unfolding achieves_def emits_def by (rule spec_conj)
  then show ?thesis by (rule spec_mono) (auto simp: list_all_iff)
qed

text \<open>
  The reservation of a thick zvol is reset to its size times its copies exactly when it is
  positive and differs from that; otherwise nothing changes.
\<close>

theorem sync_thick_reservation:
  assumes "returns (vol_get_refreservation E vol) reserved"
    and "returns (get_zvol_size_bytes E vol) volsize"
    and "returns (bind (vol_get_property E vol ''copies'') parse_int) copies"
  shows "spec (vol_sync_thick_refreservation E vol)
     (\<lambda>_ t. if 0 < reserved \<and> reserved \<noteq> volsize * copies
            then did [at_command [''zfs'', ''set'', ''refreservation='' @ str_int (volsize * copies), vol]] t
            else \<forall>e \<in> set t. quiet e)
     (\<lambda>_ t. 0 < reserved \<and> reserved \<noteq> volsize * copies)"
proof -
  have copies_quiet: "emits quiet (bind (vol_get_property E vol ''copies'') parse_int)"
    by (intro emits_intros)
  note reads = spec_returns [OF assms(1) queries_quiet(25) [unfolded emits_def]]
    spec_returns [OF assms(2) queries_quiet(22) [unfolded emits_def]]
    spec_returns [OF assms(3) copies_quiet [unfolded emits_def]]
  have set: "spec (set_refreservation E vol n) (\<lambda>_ t. did [at_command [''zfs'', ''set'', ''refreservation='' @ str_int n, vol]] t)
      (\<lambda>_ _. True)" for n
    unfolding set_refreservation_def
    by (rule spec_mono [OF command_achieves [unfolded achieves_def]]) simp_all
  show ?thesis
    unfolding vol_sync_thick_refreservation_def
    by (rule spec_bind, rule spec_mono [OF reads(1)], rule spec_only_if, rule spec_bind,
        rule spec_mono [OF reads(2)], rule spec_bind, rule spec_mono [OF reads(3)], rule spec_only_if,
        rule spec_mono [OF set]) (auto intro: did_before simp: did_before [of _ _ "_ @ _", simplified])
qed

definition two_env :: "unit env" where
  "two_env = bare_env\<lparr>e_popen := \<lambda>_. returning (''2'', [], 0)\<rparr>"

lemma two_env_cmd: "returns (zfs_cmd two_env cmd) ''2''"
  by (rule returns_zfs_cmd) (simp add: two_env_def returning_def)

lemma two: "py_int ''2'' = Some 2" "py_strip ''2'' = ''2''" "''2'' \<notin> set no_reservation" by code_simp+

lemma two_env_property: "returns (vol_get_property two_env vol p) ''2''"
  unfolding vol_get_property_def by (rule returns_bind [OF two_env_cmd]) (simp add: two returns_ret)

lemma two_env_parse: "returns (parse_int ''2'') 2"
  by (simp add: parse_int_def two of_option_def returns_ret)

theorem sync_thick_reservation_witness:
  "spec (vol_sync_thick_refreservation two_env ''v'')
     (\<lambda>_ t. if 0 < (2 :: int) \<and> 2 \<noteq> 2 * (2 :: int)
            then did [at_command [''zfs'', ''set'', ''refreservation='' @ str_int (2 * 2), ''v'']] t
            else \<forall>e \<in> set t. quiet e)
     (\<lambda>_ t. 0 < (2 :: int) \<and> 2 \<noteq> 2 * (2 :: int))"
proof (rule sync_thick_reservation)
  show "returns (vol_get_refreservation two_env ''v'') 2"
    unfolding vol_get_refreservation_def
    by (rule returns_bind [OF two_env_property]) (simp add: two(3) two_env_parse)
  show "returns (get_zvol_size_bytes two_env ''v'') 2"
    unfolding get_zvol_size_bytes_def get_bytes_def int_cmd_def
    by (intro returns_bind [OF two_env_cmd] two_env_parse)
  show "returns (bind (vol_get_property two_env ''v'' ''copies'') parse_int) 2"
    by (intro returns_bind [OF two_env_property] two_env_parse)
qed

section \<open>Recursive destroy\<close>

definition gone :: "string \<Rightarrow> event list \<Rightarrow> bool" where
  "gone m t \<longleftrightarrow> (LzcDestroy m, Some 0) \<in> set t \<or> (LzcDestroy m, Some ENOENT) \<in> set t"

definition destroys_node :: "string \<Rightarrow> event \<Rightarrow> bool" where
  "destroys_node n e \<longleftrightarrow> fst e = LzcDestroy n"

lemma gone_append [simp]: "gone m (t @ u) \<longleftrightarrow> gone m t \<or> gone m u"
  by (auto simp: gone_def)

lemma inspects_no_node: "inspects e \<Longrightarrow> \<not> destroys_node n e"
  by (auto simp: destroys_node_def inspects_simps)

lemma spec_destroy_node:
  assumes "m \<noteq> n"
  shows "spec (destroy_node E ds (m, ty)) (\<lambda>_ t. gone m t \<and> none (destroys_node n) t) (\<lambda>_ t. none (destroys_node n) t)"
proof -
  have unmount: "never (destroys_node n) (only_if b (catch (bind (dataset_is_mounted E m) (\<lambda>mounted.
      only_if mounted (dataset_unmount E m))) h))" if "\<And>e. never (destroys_node n) (h e)" for b h
    by (intro never_only_if never_catch never_bind that never_inspects [OF queries_inspect(8) inspects_no_node])
      (auto simp: never_def dataset_unmount_def destroys_node_def intro!: emits_run_unit)
  have drop: "spec (bind (destroy_with_retry E m) (\<lambda>rc. if rc = 0 \<or> rc = ENOENT then ret () else raise (err rc)))
      (\<lambda>_ t. gone m t \<and> none (destroys_node n) t) (\<lambda>_ t. none (destroys_node n) t)" for err
    unfolding destroy_with_retry_def
  proof (rule spec_bind, rule spec_mono [OF destroying.with_retry_spec])
    fix rc t
    assume a: "attempts (LzcDestroy m) (\<lambda>rc. rc \<in> RETRYABLE_ERRNOS) (1 / 10) 10 (\<lambda>x. x = Some rc) t \<and>
       (rc \<in> RETRYABLE_ERRNOS \<longrightarrow> (\<exists>u. retried (LzcDestroy m) (\<lambda>rc. rc \<in> RETRYABLE_ERRNOS) (1 / 10) (10 - 1) u \<and>
          t = u @ [(LzcDestroy m, Some rc)]))"
    then have at: "attempts (LzcDestroy m) (\<lambda>rc. rc \<in> RETRYABLE_ERRNOS) (1 / 10) 10 (\<lambda>x. x = Some rc) t" ..
    have "\<not> destroys_node n e" if "e \<in> set t" for e
      using attempts_events [OF at that] assms by (auto simp: destroys_node_def)
    then have "none (destroys_node n) t" by simp
    moreover have "(LzcDestroy m, Some rc) \<in> set t" using at unfolding attempts_def by force
    ultimately
    show "spec (if rc = 0 \<or> rc = ENOENT then ret () else raise (err rc))
        (\<lambda>_ u. gone m (t @ u) \<and> none (destroys_node n) (t @ u)) (\<lambda>_ u. none (destroys_node n) (t @ u))"
      by (auto simp: gone_def intro!: spec_ret spec_raise)
  qed (use assms in \<open>auto simp: destroys_node_def\<close>)
  show ?thesis
    unfolding destroy_node_def fst_conv snd_conv
    by (rule spec_andthen, rule spec_mono [OF unmount [unfolded never_def emits_def]],
        rule never_raise [unfolded never_def emits_def], rule spec_mono [OF drop]) auto
qed

lemma spec_destroy_nodes:
  "n \<notin> fst ` set zs \<Longrightarrow> spec (for_each (destroy_node E ds) zs)
     (\<lambda>_ t. (\<forall>m \<in> fst ` set zs. gone m t) \<and> none (destroys_node n) t) (\<lambda>_ t. none (destroys_node n) t)"
proof (induction zs)
  case (Cons z zs)
  obtain m ty where z: "z = (m, ty)" by force
  have m: "m \<noteq> n" and zs: "n \<notin> fst ` set zs" using Cons.prems z by auto
  show ?case
    unfolding for_each.simps z
  proof (rule spec_andthen, rule spec_mono [OF spec_destroy_node [OF m]])
    fix t
    assume "gone m t \<and> none (destroys_node n) t"
    then show "spec (for_each (destroy_node E ds) zs)
        (\<lambda>_ u. (\<forall>m \<in> fst ` set ((m, ty) # zs). gone m (t @ u)) \<and> none (destroys_node n) (t @ u))
        (\<lambda>_ u. none (destroys_node n) (t @ u))"
      by (intro spec_mono [OF Cons.IH [OF zs]]) auto
  qed
qed (auto intro: spec_ret)

lemma for_each_append: "for_each f (xs @ ys) = andthen (for_each f xs) (for_each f ys)"
proof (induction xs)
  case Nil
  then show ?case by (simp add: andthen_def bind_def ret_def)
next
  case (Cons x xs)
  then show ?case by (simp add: andthen_assoc)
qed

text \<open>
  C17. The recursive destroy issues the destruction of a dataset, zvol or snapshot only after
  everything listed below it is gone.
\<close>

theorem recursive_destroy_children_first:
  assumes "\<And>w. fst (e_popen E [''zfs'', ''list'', ''-r'', ''-H'', ''-t'', ''all'', ''-o'', ''name,type'', ds] w) =
      Inr (out, err, 0)"
    and "nodes_in out = before @ (n, ty) # after" and "n \<notin> fst ` set after"
  shows "spec (lzc_recursive_destroy E ds)
     (\<lambda>_ t. guards (\<lambda>t. \<forall>m \<in> fst ` set after. gone m t) (destroys_node n) t)
     (\<lambda>_ t. guards (\<lambda>t. \<forall>m \<in> fst ` set after. gone m t) (destroys_node n) t)"
proof -
  let ?G = "\<lambda>t. \<forall>m \<in> fst ` set after. gone m t"
  have list: "spec (zfs_cmd E [''zfs'', ''list'', ''-r'', ''-H'', ''-t'', ''all'', ''-o'', ''name,type'', ds])
      (\<lambda>x t. x = out \<and> none (destroys_node n) t) (\<lambda>_ t. none (destroys_node n) t)"
  proof (rule spec_mono [OF spec_returns [OF returns_zfs_cmd [OF assms(1)]]])
    show "spec (zfs_cmd E [''zfs'', ''list'', ''-r'', ''-H'', ''-t'', ''all'', ''-o'', ''name,type'', ds])
        (\<lambda>_ t. none (destroys_node n) t) (\<lambda>_ t. none (destroys_node n) t)"
      by (rule spec_zfs_cmd) (auto simp: destroys_node_def)
  qed auto
  have split: "for_each (destroy_node E ds) (rev (nodes_in out)) =
      bind (for_each (destroy_node E ds) (rev after)) (\<lambda>_. for_each (destroy_node E ds) ((n, ty) # rev before))"
    by (simp add: assms(2) for_each_append andthen_def)
  have nodes: "spec (for_each (destroy_node E ds) (rev (nodes_in out)))
      (\<lambda>_ t. guards ?G (destroys_node n) t) (\<lambda>_ t. guards ?G (destroys_node n) t)"
    unfolding split
  proof (rule guards_bind)
    show "lasting ?G" by (auto simp: lasting_def)
    show "spec (for_each (destroy_node E ds) (rev after)) (\<lambda>_ t. ?G t \<and> none (destroys_node n) t)
        (\<lambda>_ t. none (destroys_node n) t)"
      using spec_destroy_nodes [of n "rev after" E ds] assms(3) by simp
    show "extends (for_each (destroy_node E ds) ((n, ty) # rev before))"
      unfolding destroy_node_def destroy_with_retry_def dataset_unmount_def
      by (intro emits_intros emits_mono [OF destroying.with_retry_calls] inspect_mono_intros
          emits_inspects_mono [OF queries_inspect(8)] TrueI) simp_all
  qed
  show ?thesis
    unfolding lzc_recursive_destroy_def
    by (rule guards_bind_value [OF list]) (use nodes in auto)
qed

definition tree_listing :: string where
  "tree_listing = ''p'' @ [tab] @ ''filesystem'' @ [newline] @ ''p/a'' @ [tab] @ ''volume'' @ [newline] @
     ''p/a@s'' @ [tab] @ ''snapshot''"

theorem recursive_destroy_children_first_witness:
  "spec (lzc_recursive_destroy (bare_env\<lparr>e_popen := \<lambda>_. returning (tree_listing, [], 0)\<rparr>) ''p'')
     (\<lambda>_ t. guards (\<lambda>t. \<forall>m \<in> fst ` set [(''p/a@s'', ''snapshot'')]. gone m t) (destroys_node ''p/a'') t)
     (\<lambda>_ t. guards (\<lambda>t. \<forall>m \<in> fst ` set [(''p/a@s'', ''snapshot'')]. gone m t) (destroys_node ''p/a'') t)"
proof (rule recursive_destroy_children_first)
  show "nodes_in tree_listing = [(''p'', ''filesystem'')] @ (''p/a'', ''volume'') # [(''p/a@s'', ''snapshot'')]"
    by code_simp
qed (simp_all add: returning_def)

section \<open>Orphans\<close>

text \<open>
  C18. Every orphan zvol found has a name outside the known UUIDs and was looked at in one
  unbroken stretch of the run that found no use of it: fuser did not report its device open,
  and then the datapath's record of it was missing, could not be read, names no process, or
  its process did not answer a signal 0; the search changes nothing.
\<close>

theorem zvol_orphans_justified:
  "spec (zvol_find_orphans E sr_dataset known)
     (\<lambda>orphs t. list_all quiet t \<and>
        list_all (\<lambda>orph. zvol_uuid (fst orph) \<notin> set known \<and> (\<exists>u. sublist u t \<and> probed_idle E (fst orph) u)) orphs)
     (\<lambda>_ t. list_all quiet t)"
  unfolding zvol_find_orphans_def list_all_iff by (rule zvols.find_spec [OF queries_quiet(16)])

text \<open>
  Every orphan snapshot found has a name outside the known UUIDs and its parent zvol was seen,
  in the run, neither open nor served by an active datapath; the search changes nothing.
\<close>

theorem zsnap_orphans_justified:
  "spec (zsnap_find_orphans E sr_dataset known)
     (\<lambda>orphs t. list_all quiet t \<and>
        list_all (\<lambda>orph. snap_uuid_of (fst orph) \<notin> set known \<and>
           (\<exists>u. sublist u t \<and> probed_idle E (snap_parent (fst orph)) u)) orphs)
     (\<lambda>_ t. list_all quiet t)"
  unfolding zsnap_find_orphans_def list_all_iff by (rule snaps.find_spec [OF queries_quiet(17)])

text \<open>
  C19. The clean-up destroys, of the orphans it is given, only those older than the grace
  period at the time it reads the clock first.
\<close>

theorem orphans_destroyed_after_grace:
  "spec (zvol_destroy_orphans E orphans grace)
     (\<lambda>_ t. \<exists>now u. t = (Now, Some now) # u \<and> destroys_only (doomed grace now orphans) u)
     (\<lambda>_ t. t = [(Now, None)])"
  unfolding zvol_destroy_orphans_def by (rule spec_destroy_orphans)

end
