(* ===== verification/CbtBitmap.thy ===== *)
theory CbtBitmap
  imports Effects "HOL-Library.Word"
begin

unbundle bit_operations_syntax

text \<open>
  The changed-block bitmap of \<^verbatim>\<open>Volume.list_changed_blocks\<close> (\<^verbatim>\<open>src/src/volume/volume.py\<close>):
  byte ranges are packed into a bitmap with one bit per block, most significant bit first,
  and sent as base64. The reference definition is the overlap of a block with a range.
\<close>

type_synonym byte = "8 word"

section \<open>Base64\<close>

definition b64_char :: "nat \<Rightarrow> char" where
  "b64_char n =
     (if n < 26 then char_of (65 + n)
      else if n < 52 then char_of (97 + (n - 26))
      else if n < 62 then char_of (48 + (n - 52))
      else if n = 62 then CHR ''+'' else CHR ''/'')"

definition b64_val :: "char \<Rightarrow> nat option" where
  "b64_val c =
     (let n = char_code c in
      if 65 \<le> n \<and> n \<le> 90 then Some (n - 65)
      else if 97 \<le> n \<and> n \<le> 122 then Some (n - 97 + 26)
      else if 48 \<le> n \<and> n \<le> 57 then Some (n - 48 + 52)
      else if n = 43 then Some 62
      else if n = 47 then Some 63 else None)"

definition b64_digits :: "nat \<Rightarrow> string" where
  "b64_digits n = [b64_char (n div 262144), b64_char (n div 4096 mod 64),
                   b64_char (n div 64 mod 64), b64_char (n mod 64)]"

text \<open>\<^verbatim>\<open>base64.b64encode(bs).decode("ascii")\<close>.\<close>

fun b64encode :: "byte list \<Rightarrow> string" where
  "b64encode [] = []"
| "b64encode [a] = take 2 (b64_digits (unat a * 65536)) @ ''==''"
| "b64encode [a, b] = take 3 (b64_digits (unat a * 65536 + unat b * 256)) @ ''=''"
| "b64encode (a # b # c # r) = b64_digits (unat a * 65536 + unat b * 256 + unat c) @ b64encode r"

definition b64_group :: "char \<Rightarrow> char \<Rightarrow> char \<Rightarrow> char \<Rightarrow> byte list option" where
  "b64_group c0 c1 c2 c3 =
     (case (b64_val c0, b64_val c1, b64_val c2, b64_val c3) of
        (Some v0, Some v1, Some v2, Some v3) \<Rightarrow>
          (let n = v0 * 262144 + v1 * 4096 + v2 * 64 + v3 in
           Some [word_of_nat (n div 65536), word_of_nat (n div 256 mod 256), word_of_nat (n mod 256)])
      | _ \<Rightarrow> None)"

text \<open>How a consumer reads it back.\<close>

fun b64decode :: "string \<Rightarrow> byte list option" where
  "b64decode [] = Some []"
| "b64decode (c0 # c1 # c2 # c3 # r) =
     (if c2 = CHR ''='' \<and> c3 = CHR ''='' \<and> r = [] then map_option (take 1) (b64_group c0 c1 CHR ''A'' CHR ''A'')
      else if c3 = CHR ''='' \<and> r = [] then map_option (take 2) (b64_group c0 c1 c2 CHR ''A'')
      else case b64_group c0 c1 c2 c3 of
             None \<Rightarrow> None
           | Some bs \<Rightarrow> map_option (\<lambda>t. bs @ t) (b64decode r))"
| "b64decode _ = None"

lemma char_code_of: "m < 256 \<Longrightarrow> char_code (char_of m) = m"
  by (simp add: char_code_def of_char_of)

lemma char_code_plus: "char_code CHR ''+'' = 43" "char_code CHR ''/'' = 47" "char_code CHR ''='' = 61"
  by (simp_all add: char_code_def)

lemma b64_char_code:
  "char_code (b64_char n) =
     (if n < 26 then 65 + n else if n < 52 then 71 + n else if n < 62 then n - 4
      else if n = 62 then 43 else 47)"
  by (simp add: b64_char_def char_code_of char_code_plus)

lemma b64_val_char:
  assumes "n < 64"
  shows "b64_val (b64_char n) = Some n"
proof -
  consider "n < 26" | "26 \<le> n" "n < 52" | "52 \<le> n" "n < 62" | "n = 62" | "n = 63"
    using assms by linarith
  then show ?thesis
    by cases (auto simp: b64_val_def b64_char_code Let_def)
qed

lemma b64_char_not_pad: "b64_char n \<noteq> CHR ''=''"
proof
  assume "b64_char n = CHR ''=''"
  then have "char_code (b64_char n) = 61" by (simp add: char_code_plus)
  then show False by (simp add: b64_char_code split: if_splits)
qed

lemma b64_A: "b64_char 0 = CHR ''A''"
  by code_simp

lemma base64_digits: "(n::nat) = a * 64 + r0 \<Longrightarrow> a = b * 64 + r1 \<Longrightarrow> b = c * 64 + r2 \<Longrightarrow>
    c * 262144 + r2 * 4096 + r1 * 64 + r0 = n"
  by simp

lemma b64_group_digits:
  assumes "n < 16777216"
  shows "b64_group (b64_char (n div 262144)) (b64_char (n div 4096 mod 64))
           (b64_char (n div 64 mod 64)) (b64_char (n mod 64)) =
         Some [word_of_nat (n div 65536), word_of_nat (n div 256 mod 256), word_of_nat (n mod 256)]"
proof -
  have d: "n div 64 div 64 = n div 4096" "n div 64 div 64 div 64 = n div 262144"
    by (simp_all flip: div_mult2_eq)
  have n: "n div 262144 * 262144 + n div 4096 mod 64 * 4096 + n div 64 mod 64 * 64 + n mod 64 = n"
    unfolding d [symmetric] by (rule base64_digits; simp only: div_mult_mod_eq)
  have "n div 262144 < 64" using assms by (simp add: less_mult_imp_div_less)
  with n show ?thesis by (simp add: b64_group_def b64_val_char Let_def)
qed

lemma byte_bound: "unat (b :: byte) < 256"
  using unsigned_less [of b] by simp

lemma three_digits:
  fixes a b c :: nat
  assumes "a < 256" "b < 256" "c < 256"
  shows "a * 65536 + b * 256 + c < 16777216"
    and "(a * 65536 + b * 256 + c) div 65536 = a"
    and "(a * 65536 + b * 256 + c) div 256 = a * 256 + b"
    and "(a * 65536 + b * 256 + c) mod 256 = c"
proof -
  show "a * 65536 + b * 256 + c < 16777216" using assms by linarith
  show "(a * 65536 + b * 256 + c) div 65536 = a" using assms by (intro div_nat_eqI) simp_all
  show "(a * 65536 + b * 256 + c) div 256 = a * 256 + b" using assms by (intro div_nat_eqI) simp_all
  have "a * 65536 + b * 256 + c = c + 256 * (a * 256 + b)" by simp
  then show "(a * 65536 + b * 256 + c) mod 256 = c" using assms(3) by (simp only: mod_mult_self2 mod_less)
qed

lemmas byte_digits = three_digits [OF byte_bound byte_bound byte_bound]

lemma three_bytes:
  fixes a b c :: byte
  defines "n \<equiv> unat a * 65536 + unat b * 256 + unat c"
  shows "n < 16777216" and "word_of_nat (n div 65536) = a"
    and "word_of_nat (n div 256 mod 256) = b" and "word_of_nat (n mod 256) = c"
  using byte_bound [of b] unfolding n_def byte_digits
  by (simp_all add: byte_digits(1))

lemma b64_encode_group:
  "b64_group (b64_char ((unat a * 65536 + unat b * 256 + unat c) div 262144))
     (b64_char ((unat a * 65536 + unat b * 256 + unat c) div 4096 mod 64))
     (b64_char ((unat a * 65536 + unat b * 256 + unat c) div 64 mod 64))
     (b64_char ((unat a * 65536 + unat b * 256 + unat c) mod 64)) = Some [a, b, c]"
  by (simp add: b64_group_digits three_bytes)

text \<open>Decoding inverts the encoding.\<close>

lemma b64decode_encode: "b64decode (b64encode bs) = Some bs"
proof (induction bs rule: b64encode.induct)
  case (2 a)
  have "unat a * 65536 = 64 * (64 * (unat a * 16))" by simp
  then have "(unat a * 65536) div 64 mod 64 = 0" "(unat a * 65536) mod 64 = 0"
    by simp_all
  with b64_encode_group [of a 0 0] show ?case by (simp add: b64_digits_def b64_A)
next
  case (3 a b)
  have "unat a * 65536 + unat b * 256 = 64 * (unat a * 1024 + unat b * 4)" by simp
  then have "(unat a * 65536 + unat b * 256) mod 64 = 0" by (simp only: mod_mult_self1_is_0)
  moreover have "b64_char ((unat a * 65536 + unat b * 256) div 64 mod 64) \<noteq> CHR ''=''"
    by (rule b64_char_not_pad)
  ultimately show ?case using b64_encode_group [of a b 0] by (simp add: b64_digits_def b64_A)
next
  case (4 a b c r)
  have "b64_char ((unat a * 65536 + unat b * 256 + unat c) mod 64) \<noteq> CHR ''=''"
    by (rule b64_char_not_pad)
  with 4 show ?case by (simp add: b64_digits_def b64_encode_group)
qed simp

lemma b64encode_inj: "b64encode a = b64encode b \<Longrightarrow> a = b"
  by (metis b64decode_encode option.inject)

section \<open>The span of a request\<close>

definition DEFAULT_CBT_GRANULARITY :: int where
  "DEFAULT_CBT_GRANULARITY = 65536"

definition aligned_start :: "int \<Rightarrow> int \<Rightarrow> int" where
  "aligned_start off g = (off div g) * g"

definition aligned_end :: "int \<Rightarrow> int \<Rightarrow> int \<Rightarrow> int" where
  "aligned_end off len g = - (- (off + len) div g) * g"

definition nblocks_of :: "int \<Rightarrow> int \<Rightarrow> int \<Rightarrow> int" where
  "nblocks_of off len g = (aligned_end off len g - aligned_start off g) div g"

section \<open>Packing\<close>

text \<open>\<^verbatim>\<open>bits[b // 8] |= 0x80 >> (b % 8)\<close>.\<close>

definition mark_block :: "int \<Rightarrow> byte list \<Rightarrow> exn + byte list" where
  "mark_block b bits =
     (case py_index (length bits) (b div 8) of
        None \<Rightarrow> Inl PyIndexError
      | Some i \<Rightarrow> Inr (bits[i := bits ! i OR drop_bit (nat (b mod 8)) 0x80]))"

fun mark_range :: "int list \<Rightarrow> byte list \<Rightarrow> exn + byte list" where
  "mark_range [] bits = Inr bits"
| "mark_range (b # bs) bits =
     (case mark_block b bits of Inl e \<Rightarrow> Inl e | Inr bits' \<Rightarrow> mark_range bs bits')"

fun pack_loop :: "int \<Rightarrow> int \<Rightarrow> int \<Rightarrow> (int \<times> int) list \<Rightarrow> byte list \<Rightarrow> exn + byte list" where
  "pack_loop start stop g [] bits = Inr bits"
| "pack_loop start stop g ((ext_off, ext_len) # exts) bits =
     (let ext_end = ext_off + ext_len;
          clip_start = max ext_off start;
          clip_end = min ext_end stop in
      if clip_end \<le> clip_start then pack_loop start stop g exts bits
      else
        let first_block = (clip_start - start) div g;
            last_block = (clip_end - 1 - start) div g in
        case mark_range [first_block..last_block] bits of
          Inl e \<Rightarrow> Inl e
        | Inr bits' \<Rightarrow> pack_loop start stop g exts bits')"

text \<open>A zero granularity divides by zero; a negative size makes \<^verbatim>\<open>bytearray\<close> raise.\<close>

definition pack_extents_to_bitmap :: "(int \<times> int) list \<Rightarrow> int \<Rightarrow> int \<Rightarrow> int \<Rightarrow> exn + string" where
  "pack_extents_to_bitmap extents off len g =
     (if g = 0 then Inl PyZeroDivisionError
      else
        let start = aligned_start off g;
            stop = aligned_end off len g;
            nblocks = nblocks_of off len g;
            nbytes = (nblocks + 7) div 8 in
        if nbytes < 0 then Inl PyValueError
        else case pack_loop start stop g extents (replicate (nat nbytes) 0) of
               Inl e \<Rightarrow> Inl e
             | Inr bits \<Rightarrow> Inr (b64encode bits))"

definition empty_changed_blocks_result :: "int \<Rightarrow> int \<Rightarrow> pydict" where
  "empty_changed_blocks_result off len =
     (let g = DEFAULT_CBT_GRANULARITY;
          nbytes = (nblocks_of off len g + 7) div 8 in
      [(''granularity'', PInt g), (''bitmap'', PStr (b64encode (replicate (nat nbytes) 0)))])"

section \<open>The reference: which blocks a range touches\<close>

definition overlaps :: "int \<Rightarrow> int \<Rightarrow> int \<times> int \<Rightarrow> bool" where
  "overlaps lo hi ext \<longleftrightarrow> max lo (fst ext) < min hi (fst ext + snd ext)"

lemma overlaps_iff: "overlaps lo hi ext \<longleftrightarrow> (\<exists>x. lo \<le> x \<and> x < hi \<and> fst ext \<le> x \<and> x < fst ext + snd ext)"
proof
  assume "overlaps lo hi ext"
  then show "\<exists>x. lo \<le> x \<and> x < hi \<and> fst ext \<le> x \<and> x < fst ext + snd ext"
    unfolding overlaps_def by (intro exI [of _ "max lo (fst ext)"]) linarith
qed (auto simp: overlaps_def)

text \<open>Bit \<open>i\<close> of a bitmap, most significant bit of each byte first.\<close>

definition bit_at :: "byte list \<Rightarrow> nat \<Rightarrow> bool" where
  "bit_at bits i \<longleftrightarrow> bit (bits ! (i div 8)) (7 - i mod 8)"

lemma bit_mask: "k < 8 \<Longrightarrow> n < 8 \<Longrightarrow> bit (drop_bit k (0x80 :: byte)) n \<longleftrightarrow> k + n = 7"
proof -
  have "list_all (\<lambda>k. list_all (\<lambda>n. bit (drop_bit k (0x80 :: byte)) n \<longleftrightarrow> k + n = 7) [0..<8]) [0..<8]"
    by code_simp
  then show "k < 8 \<Longrightarrow> n < 8 \<Longrightarrow> ?thesis" by (simp add: list_all_iff)
qed

lemma mark_block_ok:
  assumes "0 \<le> b" and "b < 8 * int (length bits)"
  obtains bits' where "mark_block b bits = Inr bits'" and "length bits' = length bits"
    and "\<And>i. i < 8 * length bits \<Longrightarrow> bit_at bits' i \<longleftrightarrow> bit_at bits i \<or> int i = b"
proof -
  from assms have ix: "py_index (length bits) (b div 8) = Some (nat (b div 8))"
    by (intro py_index_pos) auto
  let ?k = "nat (b div 8)"
  let ?bits' = "bits[?k := bits ! ?k OR drop_bit (nat (b mod 8)) 0x80]"
  have k: "?k < length bits" using assms by auto
  have "bit_at ?bits' i \<longleftrightarrow> bit_at bits i \<or> int i = b" if "i < 8 * length bits" for i
  proof (cases "i div 8 = ?k")
    case True
    have "nat (b mod 8) < 8" "7 - i mod 8 < 8" by auto
    then have "bit (drop_bit (nat (b mod 8)) (0x80 :: byte)) (7 - i mod 8) \<longleftrightarrow>
        nat (b mod 8) + (7 - i mod 8) = 7" by (rule bit_mask)
    also have "\<dots> \<longleftrightarrow> nat (b mod 8) = i mod 8" proof -
      have "i mod 8 \<le> 7" by simp
      then show ?thesis by arith
    qed
    also have "\<dots> \<longleftrightarrow> int i = b"
    proof -
      have "int (i div 8) = b div 8" using True assms(1) by (simp add: pos_imp_zdiv_nonneg_iff)
      then have i: "int i = 8 * (b div 8) + int (i mod 8)" by (metis mult_div_mod_eq of_nat_add of_nat_mult of_nat_numeral)
      have "b = 8 * (b div 8) + b mod 8" by simp
      with i have "int i = b \<longleftrightarrow> int (i mod 8) = b mod 8" by linarith
      also have "\<dots> \<longleftrightarrow> i mod 8 = nat (b mod 8)" by (auto simp: nat_eq_iff2)
      finally show ?thesis by (simp add: eq_commute)
    qed
    finally show ?thesis using True k by (simp add: bit_at_def bit_or_iff)
  next
    case False
    then have "int i \<noteq> b" by auto
    with False show ?thesis by (simp add: bit_at_def)
  qed
  with ix that show ?thesis by (simp add: mark_block_def)
qed

lemma mark_range_ok:
  assumes "\<forall>b \<in> set bs. 0 \<le> b \<and> b < 8 * int (length bits)"
  shows "\<exists>bits'. mark_range bs bits = Inr bits' \<and> length bits' = length bits \<and>
           (\<forall>i < 8 * length bits. bit_at bits' i \<longleftrightarrow> bit_at bits i \<or> int i \<in> set bs)"
  using assms
proof (induction bs arbitrary: bits)
  case (Cons b bs)
  from Cons.prems obtain bits1 where 1: "mark_block b bits = Inr bits1" "length bits1 = length bits"
    "\<And>i. i < 8 * length bits \<Longrightarrow> bit_at bits1 i \<longleftrightarrow> bit_at bits i \<or> int i = b"
    by (auto elim: mark_block_ok)
  with Cons.IH [of bits1] Cons.prems show ?case by auto
qed simp

text \<open>The blocks of a clipped range are those it overlaps.\<close>

lemma block_range:
  fixes g :: int
  assumes "0 < g" and "lo < hi" and "0 \<le> lo"
  shows "i \<in> set [lo div g..(hi - 1) div g] \<longleftrightarrow> (\<exists>x. lo \<le> x \<and> x < hi \<and> i * g \<le> x \<and> x < (i + 1) * g)"
proof
  assume "i \<in> set [lo div g..(hi - 1) div g]"
  then have i: "lo div g \<le> i" "i \<le> (hi - 1) div g" by auto
  have "0 \<le> (hi - 1) mod g" using assms(1) by (rule pos_mod_sign)
  then have le: "(hi - 1) div g * g \<le> hi - 1" using div_mult_mod_eq [of "hi - 1" g] by linarith
  have "i * g \<le> (hi - 1) div g * g" using i assms by (simp add: mult_right_mono)
  also note le
  finally have a: "i * g \<le> hi - 1" .
  have "lo mod g < g" using assms(1) by (rule pos_mod_bound)
  then have "lo < lo div g * g + g" using div_mult_mod_eq [of lo g] by linarith
  also have "\<dots> \<le> (i + 1) * g" using i assms(1) mult_right_mono [of "lo div g" i g]
    by (simp add: distrib_right)
  finally have b: "lo < (i + 1) * g" .
  show "\<exists>x. lo \<le> x \<and> x < hi \<and> i * g \<le> x \<and> x < (i + 1) * g"
    using a b assms(1,2) by (intro exI [of _ "max lo (i * g)"]) (auto simp: distrib_right)
next
  assume "\<exists>x. lo \<le> x \<and> x < hi \<and> i * g \<le> x \<and> x < (i + 1) * g"
  then obtain x where x: "lo \<le> x" "x < hi" "i * g \<le> x" "x < (i + 1) * g" by blast
  then have "x div g = i" using assms(1) by (intro int_div_pos_eq [of x g i "x - i * g"]) (auto simp: distrib_left mult.commute)
  moreover have "lo div g \<le> x div g" "x div g \<le> (hi - 1) div g"
    using x assms(1) by (auto intro: zdiv_mono1)
  ultimately show "i \<in> set [lo div g..(hi - 1) div g]" by simp
qed

section \<open>The bitmap is exactly the overlap\<close>

lemma span_blocks:
  assumes "0 < g"
  shows "aligned_start off g + nblocks_of off len g * g = aligned_end off len g"
proof -
  have "aligned_end off len g - aligned_start off g = (- (- (off + len) div g) - off div g) * g"
    by (simp add: aligned_end_def aligned_start_def left_diff_distrib)
  with assms show ?thesis by (simp add: nblocks_of_def)
qed

text \<open>The span covers the request and is at most one block wider on each side.\<close>

lemma span_covers:
  assumes "0 < g"
  shows "aligned_start off g \<le> off" and "off < aligned_start off g + g"
    and "off + len \<le> aligned_end off len g" and "aligned_end off len g < off + len + g"
proof -
  have m: "0 \<le> off mod g" "off mod g < g" "0 \<le> - (off + len) mod g" "- (off + len) mod g < g"
    using assms by (simp_all add: pos_mod_sign pos_mod_bound)
  show "aligned_start off g \<le> off" "off < aligned_start off g + g"
    using m div_mult_mod_eq [of off g] unfolding aligned_start_def by linarith+
  show "off + len \<le> aligned_end off len g" "aligned_end off len g < off + len + g"
    using m div_mult_mod_eq [of "- (off + len)" g] unfolding aligned_end_def minus_mult_left
    by linarith+
qed

text \<open>One extent, clipped to the span: the blocks it meets, as the code computes them.\<close>

lemma clipped_overlap:
  assumes "0 < g" and "0 \<le> i" and "start + (i + 1) * g \<le> stop"
  shows "overlaps (start + i * g) (start + (i + 1) * g) (eo, el) \<longleftrightarrow>
    (\<exists>x. max eo start - start \<le> x \<and> x < min (eo + el) stop - start \<and> i * g \<le> x \<and> x < (i + 1) * g)"
    (is "_ \<longleftrightarrow> ?R")
proof
  have lo: "0 \<le> i * g" using assms(1,2) by simp
  assume "overlaps (start + i * g) (start + (i + 1) * g) (eo, el)"
  then obtain x where "start + i * g \<le> x" "x < start + (i + 1) * g" "eo \<le> x" "x < eo + el"
    by (auto simp: overlaps_iff)
  with lo assms(3) show ?R by (intro exI [of _ "x - start"]) linarith
next
  assume ?R
  then obtain x where "max eo start - start \<le> x" "x < min (eo + el) stop - start" "i * g \<le> x" "x < (i + 1) * g"
    by blast
  then show "overlaps (start + i * g) (start + (i + 1) * g) (eo, el)"
    unfolding overlaps_iff by (intro exI [of _ "x + start"]) (simp; linarith)
qed

lemma clipped_blocks_in_span:
  fixes g :: int
  assumes g: "0 < g" and "cs < ce" and "start \<le> cs" and "ce \<le> start + n * g"
    and b: "b \<in> set [(cs - start) div g..(ce - 1 - start) div g]"
  shows "0 \<le> b \<and> b < n"
proof -
  from b have "(cs - start) div g \<le> b" "b \<le> (ce - 1 - start) div g" by auto
  moreover have "0 \<le> (cs - start) div g" using g assms(3) by (simp add: pos_imp_zdiv_nonneg_iff)
  moreover have "(ce - 1 - start) div g \<le> (n * g - 1) div g"
    using g assms(4) by (intro zdiv_mono1) auto
  moreover have "(n * g - 1) div g < n"
  proof -
    have "(n * g - 1) div g * g \<le> n * g - 1"
      using pos_mod_sign [OF g, of "n * g - 1"] div_mult_mod_eq [of "n * g - 1" g] by linarith
    then have "(n * g - 1) div g * g < n * g" by linarith
    with g show ?thesis by (simp add: mult_less_cancel_right)
  qed
  ultimately show ?thesis by linarith
qed

lemma pack_loop_ok:
  assumes g: "0 < g" and stop: "stop = start + n * g" and n: "n \<le> 8 * int (length bits)"
  shows "\<exists>bits'. pack_loop start stop g exts bits = Inr bits' \<and> length bits' = length bits \<and>
           (\<forall>i < 8 * length bits. bit_at bits' i \<longleftrightarrow> bit_at bits i \<or>
              int i < n \<and> (\<exists>e \<in> set exts. overlaps (start + int i * g) (start + (int i + 1) * g) e))"
  using n
proof (induction exts arbitrary: bits)
  case (Cons e exts)
  obtain eo el where e: "e = (eo, el)" by force
  let ?cs = "max eo start" and ?ce = "min (eo + el) stop"
  have in_span: "int i < n \<longleftrightarrow> start + (int i + 1) * g \<le> stop" for i
    using g stop by (auto simp: mult_le_cancel_right)
  have inter: "overlaps (start + int i * g) (start + (int i + 1) * g) e \<longleftrightarrow>
      (\<exists>x. ?cs - start \<le> x \<and> x < ?ce - start \<and> int i * g \<le> x \<and> x < (int i + 1) * g)"
    if "int i < n" for i
    unfolding e using clipped_overlap [OF g, of "int i"] that in_span by simp
  show ?case
  proof (cases "?ce \<le> ?cs")
    case True
    then have none: "\<not> overlaps (start + int i * g) (start + (int i + 1) * g) e" if "int i < n" for i
      using inter [OF that] by fastforce
    from True e have "pack_loop start stop g (e # exts) bits = pack_loop start stop g exts bits"
      by (simp add: Let_def)
    with Cons.IH [OF Cons.prems] none show ?thesis by auto
  next
    case False
    let ?bs = "[(?cs - start) div g..(?ce - 1 - start) div g]"
    have span: "?cs - start < ?ce - start" "0 \<le> ?cs - start" using False by linarith+
    have blocks: "i \<in> set ?bs \<longleftrightarrow> (\<exists>x. ?cs - start \<le> x \<and> x < ?ce - start \<and> i * g \<le> x \<and> x < (i + 1) * g)" for i
      using block_range [OF g span, of i] by (simp only: diff_right_commute)
    have range: "0 \<le> b \<and> b < n" if "b \<in> set ?bs" for b
      using that False stop by (intro clipped_blocks_in_span [OF g, of ?cs ?ce start n b]) auto
    with Cons.prems obtain bits1 where 1: "mark_range ?bs bits = Inr bits1" "length bits1 = length bits"
      "\<And>i. i < 8 * length bits \<Longrightarrow> bit_at bits1 i \<longleftrightarrow> bit_at bits i \<or> int i \<in> set ?bs"
      using mark_range_ok [of ?bs bits] by force
    have hit: "int i \<in> set ?bs \<longleftrightarrow> int i < n \<and> overlaps (start + int i * g) (start + (int i + 1) * g) e" for i
      using blocks [of "int i"] inter [of i] range [of "int i"] by blast
    from False e 1(1) have "pack_loop start stop g (e # exts) bits = pack_loop start stop g exts bits1"
      by (simp add: Let_def)
    with Cons.IH [of bits1] Cons.prems 1(2,3) hit show ?thesis by auto
  qed
qed simp

text \<open>
  The result for a request of non-negative length: no exception, the size of the span, and
  bit \<open>i\<close> set exactly when block \<open>i\<close> of the span overlaps an extent; the padding bits are 0.
\<close>

lemma nblocks_nonneg:
  assumes "0 < g" and "0 \<le> len"
  shows "0 \<le> nblocks_of off len g"
proof -
  have "aligned_start off g \<le> aligned_end off len g"
    using span_covers(1,3) [OF assms(1), of off] assms(2) by (meson add_increasing2 order.trans)
  with assms(1) show ?thesis by (simp add: nblocks_of_def pos_imp_zdiv_nonneg_iff)
qed

lemma pack_extents_ok:
  assumes "0 < g" and "0 \<le> len"
  shows "\<exists>bits. pack_extents_to_bitmap exts off len g = Inr (b64encode bits) \<and>
     length bits = nat ((nblocks_of off len g + 7) div 8) \<and>
     (\<forall>i < 8 * length bits. bit_at bits i \<longleftrightarrow>
        int i < nblocks_of off len g \<and>
        (\<exists>e \<in> set exts. overlaps (aligned_start off g + int i * g)
                               (aligned_start off g + (int i + 1) * g) e))"
proof -
  let ?n = "nblocks_of off len g" and ?nb = "(nblocks_of off len g + 7) div 8"
  have n: "0 \<le> ?n" using assms by (rule nblocks_nonneg)
  then have nb: "0 \<le> ?nb" "?n \<le> 8 * ?nb" by presburger+
  then have "?n \<le> 8 * int (length (replicate (nat ?nb) (0 :: byte)))" by simp
  from pack_loop_ok [OF assms(1) span_blocks [OF assms(1), symmetric] this, of exts] obtain bits where
    b: "pack_loop (aligned_start off g) (aligned_end off len g) g exts (replicate (nat ?nb) 0) = Inr bits"
    "length bits = nat ?nb"
    "\<forall>i < 8 * nat ?nb. bit_at bits i \<longleftrightarrow> bit_at (replicate (nat ?nb) 0) i \<or>
       int i < ?n \<and> (\<exists>e \<in> set exts. overlaps (aligned_start off g + int i * g)
                               (aligned_start off g + (int i + 1) * g) e)"
    by auto
  have z: "\<not> bit_at (replicate (nat ?nb) 0) i" if "i < 8 * nat ?nb" for i
    using that by (simp add: bit_at_def less_mult_imp_div_less mult.commute)
  from b nb(1) assms(1) have "pack_extents_to_bitmap exts off len g = Inr (b64encode bits)"
    by (simp add: pack_extents_to_bitmap_def Let_def)
  with b(2,3) z show ?thesis by (intro exI [of _ bits]) auto
qed

lemma pack_empty:
  assumes "0 \<le> len"
  shows "empty_changed_blocks_result off len =
     [(''granularity'', PInt DEFAULT_CBT_GRANULARITY),
      (''bitmap'', PStr (case pack_extents_to_bitmap [] off len DEFAULT_CBT_GRANULARITY of
                           Inr s \<Rightarrow> s | Inl _ \<Rightarrow> []))]"
proof -
  have "0 \<le> (nblocks_of off len DEFAULT_CBT_GRANULARITY + 7) div 8"
    using nblocks_nonneg [of DEFAULT_CBT_GRANULARITY len off] assms
    by (simp add: DEFAULT_CBT_GRANULARITY_def)
  then show ?thesis
    by (simp add: empty_changed_blocks_result_def pack_extents_to_bitmap_def Let_def
        DEFAULT_CBT_GRANULARITY_def)
qed

end
