(* ===== verification/NbdWire.thy ===== *)
theory NbdWire
  imports CbtBitmap
begin

text \<open>
  The wire layer of \<^verbatim>\<open>src/src/datapath/nbd_client.py\<close>: big-endian integers as \<^verbatim>\<open>struct\<close>
  packs them, a stream socket, and the read loop that assembles a message from the segments
  the kernel hands over. A connection is what the server sends in it, as the list of segments
  in which \<^verbatim>\<open>recv\<close> finds them, and how it ends (end of file, or an exception such as a
  timeout); the bytes the client sent are kept in \<open>outbox\<close>.
\<close>

section \<open>Big-endian integers\<close>

fun be :: "nat \<Rightarrow> nat \<Rightarrow> byte list" where
  "be 0 x = []"
| "be (Suc n) x = be n (x div 256) @ [word_of_nat (x mod 256)]"

definition be_val :: "byte list \<Rightarrow> nat" where
  "be_val bs = foldl (\<lambda>acc b. acc * 256 + unat b) 0 bs"

lemma length_be [simp]: "length (be n x) = n"
  by (induction n arbitrary: x) auto

lemma be_val_snoc: "be_val (bs @ [b]) = be_val bs * 256 + unat b"
  by (simp add: be_val_def)

lemma be_val_be: "x < 256 ^ n \<Longrightarrow> be_val (be n x) = x"
proof (induction n arbitrary: x)
  case 0
  then show ?case by (simp add: be_val_def)
next
  case (Suc n)
  then have "x div 256 < 256 ^ n" by (simp add: less_mult_imp_div_less mult.commute)
  with Suc.IH have "be_val (be n (x div 256)) = x div 256" by blast
  moreover have "unat (word_of_nat (x mod 256) :: byte) = x mod 256"
    by (simp add: unat_of_nat take_bit_nat_def)
  ultimately show ?case by (simp add: be_val_snoc)
qed

text \<open>\<^verbatim>\<open>struct.unpack\<close> of one field of a slice: a slice of another length raises.\<close>

definition unpack_be :: "nat \<Rightarrow> byte list \<Rightarrow> exn + nat" where
  "unpack_be n bs = (if length bs = n then Inr (be_val bs) else Inl StructError)"

text \<open>A slice \<^verbatim>\<open>bs[i:i+n]\<close>.\<close>

definition slice :: "nat \<Rightarrow> nat \<Rightarrow> byte list \<Rightarrow> byte list" where
  "slice i n bs = take n (drop i bs)"

definition field :: "nat \<Rightarrow> nat \<Rightarrow> byte list \<Rightarrow> nat" where
  "field i n bs = be_val (slice i n bs)"

lemma slice_skip: "length a \<le> i \<Longrightarrow> slice i n (a @ b) = slice (i - length a) n b"
  by (simp add: slice_def)

lemma field_skip: "length a \<le> i \<Longrightarrow> field i n (a @ b) = field (i - length a) n b"
  by (simp add: field_def slice_skip)

lemma field_here: "x < 256 ^ n \<Longrightarrow> field 0 n (be n x @ b) = x"
  by (simp add: field_def slice_def be_val_be)

lemma field_last: "x < 256 ^ n \<Longrightarrow> field 0 n (be n x) = x"
  by (simp add: field_def slice_def be_val_be)

section \<open>A connection\<close>

record sock =
  inbox :: "byte list list"
  ending :: "exn option"
  outbox :: "byte list"

type_synonym 'a nbd = "sock \<Rightarrow> (exn + 'a) \<times> sock"

definition stream :: "sock \<Rightarrow> byte list" where
  "stream k = concat (inbox k)"

definition nret :: "'a \<Rightarrow> 'a nbd" where
  "nret x = (\<lambda>k. (Inr x, k))"

definition nraise :: "exn \<Rightarrow> 'a nbd" where
  "nraise e = (\<lambda>k. (Inl e, k))"

definition nbind :: "'a nbd \<Rightarrow> ('a \<Rightarrow> 'b nbd) \<Rightarrow> 'b nbd" where
  "nbind m f = (\<lambda>k. case m k of (Inl e, k') \<Rightarrow> (Inl e, k') | (Inr x, k') \<Rightarrow> f x k')"

definition nlift :: "exn + 'a \<Rightarrow> 'a nbd" where
  "nlift r = (\<lambda>k. (r, k))"

definition proto_error :: "string \<Rightarrow> 'a nbd" where
  "proto_error msg = nraise (NBDProtocolError msg)"

text \<open>
  \<^verbatim>\<open>sock.recv(n)\<close> hands over at most \<open>n\<close> bytes of the next segment and keeps the rest;
  an empty result is the end of the stream.
\<close>

definition recv :: "nat \<Rightarrow> (byte list) nbd" where
  "recv n k =
     (case inbox k of
        [] \<Rightarrow> (case ending k of None \<Rightarrow> (Inr [], k) | Some e \<Rightarrow> (Inl e, k))
      | seg # rest \<Rightarrow>
          (Inr (take n seg), k\<lparr>inbox := (if length seg \<le> n then rest else drop n seg # rest)\<rparr>))"

function recv_loop :: "nat \<Rightarrow> byte list \<Rightarrow> (byte list) nbd" where
  "recv_loop n buf k =
     (if length buf < n then
        case recv (n - length buf) k of
          (Inl e, k') \<Rightarrow> (Inl e, k')
        | (Inr chunk, k') \<Rightarrow>
            if chunk = [] then (Inl (NBDProtocolError ''short read''), k')
            else recv_loop n (buf @ chunk) k'
      else (Inr buf, k))"
  by pat_completeness auto
termination
  by (relation "measure (\<lambda>(n, buf, k). n - length buf)") (auto simp flip: length_greater_0_conv)

declare recv_loop.simps [simp del]

definition recv_exact :: "nat \<Rightarrow> (byte list) nbd" where
  "recv_exact n = recv_loop n []"

definition send_all :: "byte list \<Rightarrow> unit nbd" where
  "send_all bs k = (Inr (), k\<lparr>outbox := outbox k @ bs\<rparr>)"

section \<open>Reading does not depend on the segments\<close>

definition wf_sock :: "sock \<Rightarrow> bool" where
  "wf_sock k \<longleftrightarrow> [] \<notin> set (inbox k)"

text \<open>\<open>reads k bs k'\<close>: \<open>k'\<close> is \<open>k\<close> after the bytes \<open>bs\<close> were taken from its stream.\<close>

definition reads :: "sock \<Rightarrow> byte list \<Rightarrow> sock \<Rightarrow> bool" where
  "reads k bs k' \<longleftrightarrow> stream k = bs @ stream k' \<and> wf_sock k' \<and> ending k' = ending k \<and> outbox k' = outbox k"

lemma recv_reads:
  assumes "wf_sock k" and "stream k \<noteq> []" and "0 < n"
  obtains bs k' where "recv n k = (Inr bs, k')" and "bs \<noteq> []" and "length bs \<le> n" and "reads k bs k'"
proof -
  from assms(2) obtain seg rest where i: "inbox k = seg # rest" by (cases "inbox k") (auto simp: stream_def)
  with assms(1) have "seg \<noteq> []" "[] \<notin> set rest" by (auto simp: wf_sock_def)
  let ?k' = "k\<lparr>inbox := (if length seg \<le> n then rest else drop n seg # rest)\<rparr>"
  have "recv n k = (Inr (take n seg), ?k')" by (simp add: recv_def i)
  moreover have "reads k (take n seg) ?k'"
    using i \<open>[] \<notin> set rest\<close> by (auto simp: reads_def stream_def wf_sock_def)
  ultimately show ?thesis using that \<open>seg \<noteq> []\<close> assms(3) by simp
qed

lemma reads_trans: "reads k a k' \<Longrightarrow> reads k' b k'' \<Longrightarrow> reads k (a @ b) k''"
  by (simp add: reads_def)

lemma reads_wf: "reads k a k' \<Longrightarrow> wf_sock k'"
  by (simp add: reads_def)

lemma recv_loop_ok:
  assumes "wf_sock k" and "length buf \<le> n" and "n - length buf \<le> length (stream k)"
  shows "\<exists>k'. recv_loop n buf k = (Inr (buf @ take (n - length buf) (stream k)), k') \<and>
           reads k (take (n - length buf) (stream k)) k'"
  using assms
proof (induction n buf k rule: recv_loop.induct)
  case (1 n buf k)
  show ?case
  proof (cases "length buf < n")
    case False
    with 1 show ?thesis by (auto simp: recv_loop.simps [of n] reads_def)
  next
    case True
    with 1 have "stream k \<noteq> []" "0 < n - length buf" by auto
    with 1 obtain bs k' where r: "recv (n - length buf) k = (Inr bs, k')" "bs \<noteq> []"
      "length bs \<le> n - length buf" "reads k bs k'" using recv_reads [OF "1.prems"(1)] by metis
    then have s: "stream k = bs @ stream k'" by (simp add: reads_def)
    have "wf_sock k'" "length (buf @ bs) \<le> n" "n - length (buf @ bs) \<le> length (stream k')"
      using r s True "1.prems"(3) by (auto dest: reads_wf)
    from "1.IH" [OF True r(1) [symmetric] refl r(2) this] obtain k'' where
      "recv_loop n (buf @ bs) k' = (Inr ((buf @ bs) @ take (n - length (buf @ bs)) (stream k')), k'')"
      "reads k' (take (n - length (buf @ bs)) (stream k')) k''"
      by blast
    moreover have "recv_loop n buf k = recv_loop n (buf @ bs) k'"
      using r(1,2) True by (simp add: recv_loop.simps [of n buf k])
    moreover have "take (n - length buf) (stream k) = bs @ take (n - length (buf @ bs)) (stream k')"
      using r(3) s by simp
    ultimately show ?thesis using reads_trans [OF r(4)] by simp
  qed
qed

text \<open>A read of \<open>n\<close> bytes yields the next \<open>n\<close> bytes of the stream, however they arrive.\<close>

lemma recv_exact_ok:
  assumes "wf_sock k" and "stream k = bs @ rest" and "length bs = n"
  shows "\<exists>k'. recv_exact n k = (Inr bs, k') \<and> reads k bs k' \<and> stream k' = rest"
  using recv_loop_ok [of k "[]" n] assms by (auto simp: recv_exact_def reads_def)

lemma recv_shrinks:
  "recv n k = (Inr chunk, k') \<Longrightarrow> length chunk + length (stream k') = length (stream k)"
  by (auto simp: recv_def stream_def split: list.splits option.splits if_splits)

lemma recv_loop_shrinks:
  "recv_loop n buf k = (Inr bs, k') \<Longrightarrow> length bs + length (stream k') = length buf + length (stream k) \<and>
     (length buf \<le> n \<longrightarrow> length bs = n)"
proof (induction n buf k arbitrary: bs k' rule: recv_loop.induct)
  case (1 n buf k)
  show ?case
  proof (cases "length buf < n")
    case False
    with 1 show ?thesis by (auto simp: recv_loop.simps [of n])
  next
    case True
    with "1.prems" obtain chunk k1 where r: "recv (n - length buf) k = (Inr chunk, k1)" "chunk \<noteq> []"
      "recv_loop n (buf @ chunk) k1 = (Inr bs, k')"
      by (auto simp: recv_loop.simps [of n buf] split: prod.splits sum.splits if_splits)
    have "length chunk \<le> n - length buf"
      using r(1) by (auto simp: recv_def split: list.splits option.splits if_splits)
    with "1.IH" [OF True r(1) [symmetric] refl r(2,3)] recv_shrinks [OF r(1)] True show ?thesis by auto
  qed
qed

lemma recv_exact_shrinks:
  "recv_exact n k = (Inr bs, k') \<Longrightarrow> length bs = n \<and> n + length (stream k') = length (stream k)"
  using recv_loop_shrinks [of n "[]" k bs k'] by (auto simp: recv_exact_def)

end
