(* ===== verification/NbdClient.thy ===== *)
theory NbdClient
  imports NbdWire
begin

text \<open>
  The NBD client of \<^verbatim>\<open>src/src/datapath/nbd_client.py\<close>: handshake, option negotiation and
  the BLOCK_STATUS walk, as functions of the connection.
\<close>

section \<open>Constants\<close>

definition NBDMAGIC :: nat where "NBDMAGIC = 0x4E42444D41474943"
definition IHAVEOPT :: nat where "IHAVEOPT = 0x49484156454F5054"
definition NBD_OPTION_REPLY_MAGIC :: nat where "NBD_OPTION_REPLY_MAGIC = 0x3E889045565A9"
definition NBD_REQUEST_MAGIC :: nat where "NBD_REQUEST_MAGIC = 0x25609513"
definition NBD_STRUCTURED_REPLY_MAGIC :: nat where "NBD_STRUCTURED_REPLY_MAGIC = 0x668E33EF"
definition NBD_FLAG_C_FIXED_NEWSTYLE :: nat where "NBD_FLAG_C_FIXED_NEWSTYLE = 1"
definition NBD_OPT_GO :: nat where "NBD_OPT_GO = 7"
definition NBD_OPT_STRUCTURED_REPLY :: nat where "NBD_OPT_STRUCTURED_REPLY = 8"
definition NBD_OPT_SET_META_CONTEXT :: nat where "NBD_OPT_SET_META_CONTEXT = 10"
definition NBD_REP_ACK :: nat where "NBD_REP_ACK = 1"
definition NBD_REP_INFO :: nat where "NBD_REP_INFO = 3"
definition NBD_REP_META_CONTEXT :: nat where "NBD_REP_META_CONTEXT = 4"
definition NBD_INFO_EXPORT :: nat where "NBD_INFO_EXPORT = 0"
definition NBD_CMD_BLOCK_STATUS :: nat where "NBD_CMD_BLOCK_STATUS = 7"
definition NBD_REPLY_TYPE_NONE :: nat where "NBD_REPLY_TYPE_NONE = 0"
definition NBD_REPLY_TYPE_BLOCK_STATUS :: nat where "NBD_REPLY_TYPE_BLOCK_STATUS = 5"
definition NBD_REPLY_TYPE_ERROR :: nat where "NBD_REPLY_TYPE_ERROR = 32769"
definition BLOCK_STATUS_CHUNK :: nat where "BLOCK_STATUS_CHUNK = 2147483648"

lemmas nbd_consts = NBDMAGIC_def IHAVEOPT_def NBD_OPTION_REPLY_MAGIC_def NBD_REQUEST_MAGIC_def
  NBD_STRUCTURED_REPLY_MAGIC_def NBD_FLAG_C_FIXED_NEWSTYLE_def NBD_OPT_GO_def
  NBD_OPT_STRUCTURED_REPLY_def NBD_OPT_SET_META_CONTEXT_def NBD_REP_ACK_def NBD_REP_INFO_def
  NBD_REP_META_CONTEXT_def NBD_INFO_EXPORT_def NBD_CMD_BLOCK_STATUS_def NBD_REPLY_TYPE_NONE_def
  NBD_REPLY_TYPE_BLOCK_STATUS_def NBD_REPLY_TYPE_ERROR_def

text \<open>\<^verbatim>\<open>rep & NBD_REP_FLAG_ERROR\<close> and \<^verbatim>\<open>flags & NBD_REPLY_FLAG_DONE\<close>.\<close>

definition rep_is_error :: "nat \<Rightarrow> bool" where
  "rep_is_error rep \<longleftrightarrow> bit rep 31"

definition chunk_is_done :: "nat \<Rightarrow> bool" where
  "chunk_is_done flags \<longleftrightarrow> bit flags 0"

definition utf8 :: "string \<Rightarrow> byte list" where
  "utf8 s = map (\<lambda>c. word_of_nat (char_code c)) s"

section \<open>Handshake and options\<close>

definition handshake :: "nat nbd" where
  "handshake = nbind (recv_exact 18) (\<lambda>h.
     let magic = field 0 8 h; opts_magic = field 8 8 h; server_flags = field 16 2 h in
     if magic \<noteq> NBDMAGIC then proto_error ''bad NBD magic''
     else if opts_magic \<noteq> IHAVEOPT then proto_error ''bad IHAVEOPT magic''
     else nbind (send_all (be 4 NBD_FLAG_C_FIXED_NEWSTYLE)) (\<lambda>_. nret server_flags))"

definition send_option :: "nat \<Rightarrow> byte list \<Rightarrow> unit nbd" where
  "send_option opt payload =
     send_all (be 8 IHAVEOPT @ be 4 opt @ be 4 (length payload) @ payload)"

definition recv_option_reply :: "(nat \<times> nat \<times> byte list) nbd" where
  "recv_option_reply = nbind (recv_exact 20) (\<lambda>h.
     let magic = field 0 8 h; option = field 8 4 h; reply_type = field 12 4 h; len = field 16 4 h in
     if magic \<noteq> NBD_OPTION_REPLY_MAGIC then proto_error ''bad option-reply magic''
     else nbind (if len \<noteq> 0 then recv_exact len else nret [])
            (\<lambda>payload. nret (option, reply_type, payload)))"

definition opt_structured_reply :: "unit nbd" where
  "opt_structured_reply =
     nbind (send_option NBD_OPT_STRUCTURED_REPLY []) (\<lambda>_.
     nbind recv_option_reply (\<lambda>(opt, rep, _).
       if opt \<noteq> NBD_OPT_STRUCTURED_REPLY \<or> rep \<noteq> NBD_REP_ACK
       then proto_error ''structured-reply negotiation failed'' else nret ()))"

lemma recv_option_reply_shrinks:
  "recv_option_reply k = (Inr x, k') \<Longrightarrow> length (stream k') < length (stream k)"
  by (auto simp: recv_option_reply_def nbind_def nret_def proto_error_def nraise_def Let_def
      dest!: recv_exact_shrinks split: prod.splits sum.splits if_splits)

function meta_loop :: "nat option \<Rightarrow> (nat option) nbd" where
  "meta_loop ctx k =
     (case recv_option_reply k of
        (Inl e, k') \<Rightarrow> (Inl e, k')
      | (Inr (opt, rep, body), k') \<Rightarrow>
          if opt \<noteq> NBD_OPT_SET_META_CONTEXT then proto_error ''unexpected option in reply'' k'
          else if rep_is_error rep then proto_error ''NBD_OPT_SET_META_CONTEXT failed'' k'
          else if rep = NBD_REP_META_CONTEXT then
            (case unpack_be 4 (take 4 body) of
               Inl e \<Rightarrow> (Inl e, k')
             | Inr c \<Rightarrow> meta_loop (Some c) k')
          else if rep = NBD_REP_ACK then (Inr ctx, k')
          else meta_loop ctx k')"
  by pat_completeness auto
termination
  by (relation "measure (\<lambda>(ctx, k). length (stream k))") (auto dest: recv_option_reply_shrinks sym)

declare meta_loop.simps [simp del]

definition meta_query :: "string \<Rightarrow> string \<Rightarrow> byte list" where
  "meta_query export_name context =
     be 4 (length (utf8 export_name)) @ utf8 export_name @ be 4 1 @
     be 4 (length (utf8 context)) @ utf8 context"

definition opt_set_meta_context :: "string \<Rightarrow> string \<Rightarrow> nat nbd" where
  "opt_set_meta_context export_name context =
     nbind (send_option NBD_OPT_SET_META_CONTEXT (meta_query export_name context)) (\<lambda>_.
     nbind (meta_loop None) (\<lambda>ctx.
       case ctx of None \<Rightarrow> proto_error ''server did not assign a context id'' | Some c \<Rightarrow> nret c))"

function go_loop :: "nat option \<Rightarrow> (nat option) nbd" where
  "go_loop sz k =
     (case recv_option_reply k of
        (Inl e, k') \<Rightarrow> (Inl e, k')
      | (Inr (opt, rep, body), k') \<Rightarrow>
          if opt \<noteq> NBD_OPT_GO then proto_error ''unexpected option in reply'' k'
          else if rep_is_error rep then proto_error ''NBD_OPT_GO failed'' k'
          else if rep = NBD_REP_INFO then
            (case unpack_be 2 (take 2 body) of
               Inl e \<Rightarrow> (Inl e, k')
             | Inr info_type \<Rightarrow>
                 go_loop (if info_type = NBD_INFO_EXPORT \<and> length body \<ge> 12
                          then Some (field 2 8 body) else sz) k')
          else if rep = NBD_REP_ACK then (Inr sz, k')
          else go_loop sz k')"
  by pat_completeness auto
termination
  by (relation "measure (\<lambda>(sz, k). length (stream k))") (auto dest: recv_option_reply_shrinks sym)

declare go_loop.simps [simp del]

definition opt_go :: "string \<Rightarrow> nat nbd" where
  "opt_go export_name =
     nbind (send_option NBD_OPT_GO
              (be 4 (length (utf8 export_name)) @ utf8 export_name @ be 2 0)) (\<lambda>_.
     nbind (go_loop None) (\<lambda>sz.
       case sz of None \<Rightarrow> proto_error ''NBD_OPT_GO completed without NBD_INFO_EXPORT''
                | Some n \<Rightarrow> nret n))"

section \<open>Block status\<close>

definition request :: "nat \<Rightarrow> nat \<Rightarrow> nat \<Rightarrow> nat \<Rightarrow> unit nbd" where
  "request cmd handle offset len =
     send_all (be 4 NBD_REQUEST_MAGIC @ be 2 0 @ be 2 cmd @ be 8 handle @ be 8 offset @ be 4 len)"

text \<open>One chunk of a structured reply: type, body and the DONE flag.\<close>

definition read_structured_chunk :: "nat \<Rightarrow> (nat \<times> byte list \<times> bool) nbd" where
  "read_structured_chunk expected_handle = nbind (recv_exact 20) (\<lambda>h.
     let magic = field 0 4 h; flags = field 4 2 h; ctype = field 6 2 h;
         handle = field 8 8 h; len = field 16 4 h in
     if magic \<noteq> NBD_STRUCTURED_REPLY_MAGIC then proto_error ''bad structured-reply magic''
     else if handle \<noteq> expected_handle then proto_error ''handle mismatch''
     else nbind (if len \<noteq> 0 then recv_exact len else nret [])
            (\<lambda>body. nret (ctype, body, chunk_is_done flags)))"

lemma read_structured_chunk_shrinks:
  "read_structured_chunk h k = (Inr x, k') \<Longrightarrow> length (stream k') < length (stream k)"
  by (auto simp: read_structured_chunk_def nbind_def nret_def proto_error_def nraise_def Let_def
      dest!: recv_exact_shrinks split: prod.splits sum.splits if_splits)

fun descriptors :: "byte list \<Rightarrow> exn + (nat \<times> nat) list" where
  "descriptors bs =
     (if bs = [] then Inr []
      else if length bs < 8 then Inl StructError
      else case descriptors (drop 8 bs) of
             Inl e \<Rightarrow> Inl e
           | Inr ds \<Rightarrow> Inr ((field 0 4 bs, field 4 4 bs) # ds))"

declare descriptors.simps [simp del]

text \<open>\<^verbatim>\<open>yield cur, ext_len, status; cur += ext_len\<close>.\<close>

fun lay_out :: "nat \<Rightarrow> (nat \<times> nat) list \<Rightarrow> (nat \<times> nat \<times> nat) list" where
  "lay_out cur [] = []"
| "lay_out cur ((len, status) # ds) = (cur, len, status) # lay_out (cur + len) ds"

definition on_chunk :: "nat \<Rightarrow> nat \<Rightarrow> nat \<Rightarrow> byte list \<Rightarrow> exn + (nat \<times> nat) list" where
  "on_chunk context_id cur ctype body =
     (if ctype = NBD_REPLY_TYPE_NONE then Inr []
      else if ctype = NBD_REPLY_TYPE_ERROR then
        (case unpack_be 4 (take 4 body) of
           Inl e \<Rightarrow> Inl e
         | Inr code \<Rightarrow> Inl (NBDProtocolError ''BLOCK_STATUS error''))
      else if ctype \<noteq> NBD_REPLY_TYPE_BLOCK_STATUS then Inr []
      else case unpack_be 4 (take 4 body) of
             Inl e \<Rightarrow> Inl e
           | Inr ctx \<Rightarrow> if ctx \<noteq> context_id then Inr [] else descriptors (drop 4 body))"

text \<open>The chunks of one reply, until the one with the DONE flag; the ranges seen so far.\<close>

function status_loop :: "nat \<Rightarrow> nat \<Rightarrow> nat \<Rightarrow> ((nat \<times> nat \<times> nat) list) nbd" where
  "status_loop handle context_id cur k =
     (case read_structured_chunk handle k of
        (Inl e, k') \<Rightarrow> (Inl e, k')
      | (Inr (ctype, body, fin), k') \<Rightarrow>
          (case on_chunk context_id cur ctype body of
             Inl e \<Rightarrow> (Inl e, k')
           | Inr ds \<Rightarrow>
               let here = lay_out cur ds; cur' = cur + sum_list (map fst ds) in
               if fin then (Inr here, k')
               else (case status_loop handle context_id cur' k' of
                       (Inl e, k'') \<Rightarrow> (Inl e, k'')
                     | (Inr later, k'') \<Rightarrow> (Inr (here @ later), k''))))"
  by pat_completeness auto
termination
  by (relation "measure (\<lambda>(h, c, cur, k). length (stream k))")
    (auto dest: read_structured_chunk_shrinks sym)

declare status_loop.simps [simp del]

function walk_block_status :: "nat \<Rightarrow> nat \<Rightarrow> nat \<Rightarrow> nat \<Rightarrow> ((nat \<times> nat \<times> nat) list) nbd" where
  "walk_block_status context_id export_size handle offset k =
     (if offset < export_size then
        let len = min BLOCK_STATUS_CHUNK (export_size - offset) in
        nbind (request NBD_CMD_BLOCK_STATUS handle offset len) (\<lambda>_.
        nbind (status_loop handle context_id offset) (\<lambda>here.
        nbind (walk_block_status context_id export_size (handle + 1) (offset + len)) (\<lambda>later.
          nret (here @ later)))) k
      else (Inr [], k))"
  by pat_completeness auto
termination
  by (relation "measure (\<lambda>(c, sz, h, off, k). sz - off)") (auto simp: BLOCK_STATUS_CHUNK_def)

declare walk_block_status.simps [simp del]

definition fetch_dirty_extents :: "string \<Rightarrow> string \<Rightarrow> ((nat \<times> nat) list) nbd" where
  "fetch_dirty_extents export_name bitmap_context =
     nbind handshake (\<lambda>_.
     nbind opt_structured_reply (\<lambda>_.
     nbind (opt_set_meta_context export_name bitmap_context) (\<lambda>context_id.
     nbind (opt_go export_name) (\<lambda>export_size.
     nbind (walk_block_status context_id export_size 0 0) (\<lambda>exts.
       nret (map (\<lambda>(off, len, _). (off, len)) (filter (\<lambda>(_, _, status). status = 1) exts)))))))"

end
