(* ===== verification/ChangedBlocks.thy ===== *)
theory ChangedBlocks
  imports CbtBitmap NbdClient QemuDisk
begin

text \<open>
  \<^verbatim>\<open>Volume.list_changed_blocks\<close> of \<^verbatim>\<open>src/src/volume/volume.py\<close> over the reader of
  \<^verbatim>\<open>src/src/datapath/cbt_consumer.py\<close>: the bitmap state saved for the newer volume is read,
  the dirty ranges of each bitmap are fetched from its NBD export, and their union is packed.
\<close>

section \<open>Reading one volume's state\<close>

text \<open>A connection: what the server of the socket sends, or the failure to connect.\<close>

definition nbd_fetch :: "'w env \<Rightarrow> string \<Rightarrow> string \<Rightarrow> string \<Rightarrow> ('w, (nat \<times> nat) list) prog" where
  "nbd_fetch E socket_path export_name context =
     bind (call0 (NbdConnect socket_path) (e_nbd_connect E socket_path)) (\<lambda>(segs, fin).
       case fst (fetch_dirty_extents export_name context \<lparr>inbox = segs, ending = fin, outbox = []\<rparr>) of
         Inl e \<Rightarrow> raise e
       | Inr exts \<Rightarrow> ret exts)"

definition desc_field :: "pydict \<Rightarrow> string \<Rightarrow> ('w, string) prog" where
  "desc_field d k = bind (of_option (PyKeyError k) (dget d k)) as_str"

definition extract_dirty_extents :: "'w env \<Rightarrow> pyval \<Rightarrow> ('w, (nat \<times> nat) list) prog" where
  "extract_dirty_extents E payload =
     (let nbd = (case payload of PDict p \<Rightarrow> dget_or p ''nbd_export'' PNone | _ \<Rightarrow> PNone) in
      if \<not> py_truth nbd then ret []
      else bind (as_dict nbd) (\<lambda>d.
           bind (desc_field d ''socket'') (\<lambda>sock.
           bind (desc_field d ''export_name'') (\<lambda>name.
           bind (desc_field d ''bitmap_context'') (\<lambda>ctx.
             nbd_fetch E sock name ctx)))))"

fun extract_each :: "'w env \<Rightarrow> pydict \<Rightarrow> ('w, (string \<times> (nat \<times> nat) list) list) prog" where
  "extract_each E [] = ret []"
| "extract_each E ((name, single) # rest) =
     bind (catch (bind (extract_dirty_extents E single) (\<lambda>x. ret [(name, x)])) (\<lambda>_. ret [])) (\<lambda>here.
     bind (extract_each E rest) (\<lambda>later. ret (here @ later)))"

definition extract_dirty_extents_for ::
  "'w env \<Rightarrow> string \<Rightarrow> string \<Rightarrow> ('w, (string \<times> (nat \<times> nat) list) list) prog" where
  "extract_dirty_extents_for E sr_uri key =
     bind (load_cbt_metadata E sr_uri key) (\<lambda>multi.
       case multi of PDict d \<Rightarrow> extract_each E d | _ \<Rightarrow> ret [])"

section \<open>Granularity\<close>

definition granularity_of :: "pyval \<Rightarrow> int option" where
  "granularity_of payload =
     (case payload of
        PDict p \<Rightarrow> (case dget_or p ''granularity'' PNone of
                     PInt g \<Rightarrow> if g > 0 then Some g else None
                   | PBool b \<Rightarrow> if b then Some 1 else None
                   | _ \<Rightarrow> None)
      | _ \<Rightarrow> None)"

definition granularities :: "pyval \<Rightarrow> int list" where
  "granularities multi =
     (case multi of PDict d \<Rightarrow> List.map_filter (\<lambda>(_, p). granularity_of p) d | _ \<Rightarrow> [])"

definition resolve_changed_blocks_granularity :: "'w env \<Rightarrow> string \<Rightarrow> string \<Rightarrow> ('w, int) prog" where
  "resolve_changed_blocks_granularity E sr_uri key =
     (if \<not> e_has_qemudisk E then ret DEFAULT_CBT_GRANULARITY
      else bind (load_cbt_metadata E sr_uri key) (\<lambda>multi.
             ret (max_or DEFAULT_CBT_GRANULARITY (granularities multi))))"

lemma granularities_pos: "g \<in> set (granularities multi) \<Longrightarrow> 0 < g"
  by (auto simp: granularities_def granularity_of_def List.map_filter_def
      split: pyval.splits if_splits)

lemma resolved_pos: "0 < max_or DEFAULT_CBT_GRANULARITY (granularities multi)"
  using max_or_mem [of "granularities multi" DEFAULT_CBT_GRANULARITY] granularities_pos
  by (cases "granularities multi = []") (auto simp: DEFAULT_CBT_GRANULARITY_def)

section \<open>The call\<close>

definition union_extents :: "(string \<times> (nat \<times> nat) list) list \<Rightarrow> (int \<times> int) list" where
  "union_extents by_bitmap = map (\<lambda>(off, len). (int off, int len)) (concat (map snd by_bitmap))"

definition list_changed_blocks ::
  "'w env \<Rightarrow> string \<Rightarrow> string \<Rightarrow> string \<Rightarrow> int \<Rightarrow> int \<Rightarrow> ('w, pydict) prog" where
  "list_changed_blocks E sr key key2 off len =
     (if \<not> e_has_qemudisk E then ret (empty_changed_blocks_result off len)
      else
        let sr_uri = ''file://'' @ sr in
        bind (catch (bind (extract_dirty_extents_for E sr_uri key2) (\<lambda>x. ret (Some x)))
                (\<lambda>_. ret None)) (\<lambda>extents.
          case extents of
            None \<Rightarrow> ret (empty_changed_blocks_result off len)
          | Some by_bitmap \<Rightarrow>
              bind (resolve_changed_blocks_granularity E sr_uri key2) (\<lambda>g.
                case pack_extents_to_bitmap (union_extents by_bitmap) off len g of
                  Inl e \<Rightarrow> raise e
                | Inr b64 \<Rightarrow> ret [(''granularity'', PInt g), (''bitmap'', PStr b64)])))"

end
