(* ===== verification/NbdServer.thy ===== *)
theory NbdServer
  imports NbdClient
begin

text \<open>
  The other side of the NBD client: a server that follows the protocol, as the bytes it sends.
  It may spread the descriptors of a reply over chunks, end a reply with an empty chunk or with
  a chunk of descriptors, and send information replies the client does not ask for. What its
  answers mean is a set of dirty bytes. The client recovers exactly that set, however the stream
  is cut into segments, and asks for each part of the export once.
\<close>

section \<open>What a step takes and sends\<close>

text \<open>\<open>consumes m bs out x\<close>: from a stream that begins with \<open>bs\<close>, the step takes \<open>bs\<close>, sends \<open>out\<close>
  and returns \<open>x\<close>.\<close>

definition consumes :: "'a nbd \<Rightarrow> byte list \<Rightarrow> byte list \<Rightarrow> 'a \<Rightarrow> bool" where
  "consumes m bs out x \<longleftrightarrow> (\<forall>k rest. wf_sock k \<longrightarrow> stream k = bs @ rest \<longrightarrow>
     (\<exists>k'. m k = (Inr x, k') \<and> wf_sock k' \<and> stream k' = rest \<and> outbox k' = outbox k @ out))"

lemma consumesD:
  assumes "consumes m bs out x" and "wf_sock k" and "stream k = bs @ rest"
  obtains k' where "m k = (Inr x, k')" and "wf_sock k'" and "stream k' = rest" and "outbox k' = outbox k @ out"
  using assms unfolding consumes_def by blast

lemma consumes_bind:
  "consumes m a oa x \<Longrightarrow> consumes (f x) b ob y \<Longrightarrow> consumes (nbind m f) (a @ b) (oa @ ob) y"
  unfolding consumes_def nbind_def by fastforce

lemma consumes_ret: "consumes (nret x) [] [] x"
  by (simp add: consumes_def nret_def)

lemma consumes_send: "consumes (send_all bs) [] bs ()"
  by (simp add: consumes_def send_all_def wf_sock_def stream_def)

lemma consumes_recv: "length bs = n \<Longrightarrow> consumes (recv_exact n) bs [] bs"
  unfolding consumes_def
proof (intro allI impI)
  fix k rest assume "length bs = n" "wf_sock k" "stream k = bs @ rest"
  from recv_exact_ok [OF this(2,3,1)]
  show "\<exists>k'. recv_exact n k = (Inr bs, k') \<and> wf_sock k' \<and> stream k' = rest \<and> outbox k' = outbox k @ []"
    by (auto simp: reads_def)
qed

text \<open>Sequencing where one of the two steps does nothing on one side.\<close>

lemma consumes_then: "consumes m [] oa x \<Longrightarrow> consumes (f x) b ob y \<Longrightarrow> consumes (nbind m f) b (oa @ ob) y"
  using consumes_bind [of m "[]" oa x f b ob y] by simp

lemma consumes_take: "consumes m a [] x \<Longrightarrow> consumes (f x) b ob y \<Longrightarrow> consumes (nbind m f) (a @ b) ob y"
  using consumes_bind [of m a "[]" x f b ob y] by simp

lemma consumes_last: "consumes m a oa x \<Longrightarrow> consumes (f x) [] [] y \<Longrightarrow> consumes (nbind m f) a oa y"
  using consumes_bind [of m a oa x f "[]" "[]" y] by simp

lemma consumes_reply: "consumes m a [] x \<Longrightarrow> consumes (f x) [] ob y \<Longrightarrow> consumes (nbind m f) a ob y"
  using consumes_bind [of m a "[]" x f "[]" ob y] by simp

lemma consumes_recv_opt: "length bs = n \<Longrightarrow> consumes (if n \<noteq> 0 then recv_exact n else nret []) bs [] bs"
  by (auto intro: consumes_recv consumes_ret)

lemma consumes_bind_ret: "consumes m bs out x \<Longrightarrow> consumes (nbind m (\<lambda>x. nret (g x))) bs out (g x)"
  by (rule consumes_last [OF _ consumes_ret])

lemma consumes_lift: "consumes (f x) bs out y \<Longrightarrow> consumes (nbind (nlift (Inr x)) f) bs out y"
  by (simp add: consumes_def nbind_def nlift_def)

section \<open>The bytes of a server\<close>

definition srv_hello :: "nat \<Rightarrow> byte list" where
  "srv_hello flags = be 8 NBDMAGIC @ be 8 IHAVEOPT @ be 2 flags"

definition srv_reply :: "nat \<Rightarrow> nat \<Rightarrow> byte list \<Rightarrow> byte list" where
  "srv_reply opt rep payload =
     be 8 NBD_OPTION_REPLY_MAGIC @ be 4 opt @ be 4 rep @ be 4 (length payload) @ payload"

definition srv_chunk :: "nat \<Rightarrow> nat \<Rightarrow> nat \<Rightarrow> byte list \<Rightarrow> byte list" where
  "srv_chunk flags ctype handle body =
     be 4 NBD_STRUCTURED_REPLY_MAGIC @ be 2 flags @ be 2 ctype @ be 8 handle @
     be 4 (length body) @ body"

definition enc_descs :: "(nat \<times> nat) list \<Rightarrow> byte list" where
  "enc_descs ds = concat (map (\<lambda>(len, status). be 4 len @ be 4 status) ds)"

text \<open>A chunk of a reply: descriptors of the range, or nothing.\<close>

datatype chunk_sent = Extents "(nat \<times> nat) list" | NoExtents

fun extents_of :: "chunk_sent \<Rightarrow> (nat \<times> nat) list" where
  "extents_of (Extents ds) = ds"
| "extents_of NoExtents = []"

fun chunk_bytes :: "nat \<Rightarrow> nat \<Rightarrow> nat \<Rightarrow> chunk_sent \<Rightarrow> byte list" where
  "chunk_bytes flags ctx handle (Extents ds) =
     srv_chunk flags NBD_REPLY_TYPE_BLOCK_STATUS handle (be 4 ctx @ enc_descs ds)"
| "chunk_bytes flags ctx handle NoExtents = srv_chunk flags NBD_REPLY_TYPE_NONE handle []"

text \<open>One reply: the last chunk, of either kind, has the DONE flag.\<close>

fun srv_status :: "nat \<Rightarrow> nat \<Rightarrow> chunk_sent list \<Rightarrow> byte list" where
  "srv_status ctx handle [] = []"
| "srv_status ctx handle [c] = chunk_bytes 1 ctx handle c"
| "srv_status ctx handle (c # cs) = chunk_bytes 0 ctx handle c @ srv_status ctx handle cs"

fun srv_walk :: "nat \<Rightarrow> nat \<Rightarrow> chunk_sent list list \<Rightarrow> byte list" where
  "srv_walk ctx handle [] = []"
| "srv_walk ctx handle (cs # replies) = srv_status ctx handle cs @ srv_walk ctx (handle + 1) replies"

text \<open>An information reply other than the export's: its type and its data.\<close>

definition srv_infos :: "(nat \<times> byte list) list \<Rightarrow> byte list" where
  "srv_infos infos = concat (map (\<lambda>(t, body). srv_reply NBD_OPT_GO NBD_REP_INFO (be 2 t @ body)) infos)"

record nbd_server =
  sv_flags :: nat
  sv_context :: nat
  sv_context_name :: "byte list"
  sv_infos_before :: "(nat \<times> byte list) list"
  sv_size :: nat
  sv_export_flags :: nat
  sv_infos_after :: "(nat \<times> byte list) list"
  sv_replies :: "chunk_sent list list"

definition srv_meta :: "nat \<Rightarrow> byte list \<Rightarrow> byte list" where
  "srv_meta ctx name =
     srv_reply NBD_OPT_SET_META_CONTEXT NBD_REP_META_CONTEXT (be 4 ctx @ name) @
     srv_reply NBD_OPT_SET_META_CONTEXT NBD_REP_ACK []"

definition srv_go :: "nbd_server \<Rightarrow> byte list" where
  "srv_go V =
     srv_infos (sv_infos_before V) @
     srv_reply NBD_OPT_GO NBD_REP_INFO (be 2 NBD_INFO_EXPORT @ be 8 (sv_size V) @ be 2 (sv_export_flags V)) @
     srv_infos (sv_infos_after V) @
     srv_reply NBD_OPT_GO NBD_REP_ACK []"

definition srv_session :: "nbd_server \<Rightarrow> byte list" where
  "srv_session V =
     srv_hello (sv_flags V) @ srv_reply NBD_OPT_STRUCTURED_REPLY NBD_REP_ACK [] @
     srv_meta (sv_context V) (sv_context_name V) @ srv_go V @
     srv_walk (sv_context V) 0 (sv_replies V)"

section \<open>What its answers mean\<close>

text \<open>The status of byte \<open>x\<close> of a range that the descriptors cut up in order.\<close>

fun status_at :: "(nat \<times> nat) list \<Rightarrow> nat \<Rightarrow> nat option" where
  "status_at [] x = None"
| "status_at ((len, status) # ds) x = (if x < len then Some status else status_at ds (x - len))"

definition described :: "(nat \<times> nat) list \<Rightarrow> nat" where
  "described ds = sum_list (map fst ds)"

text \<open>
  The descriptors of a reply cover its request and give status 1 to the dirty bytes. They may
  go beyond the request.
\<close>

definition describes :: "nat \<Rightarrow> nat \<Rightarrow> (nat \<Rightarrow> bool) \<Rightarrow> (nat \<times> nat) list \<Rightarrow> bool" where
  "describes off len dirty ds \<longleftrightarrow> len \<le> described ds \<and>
     (\<forall>x < described ds. status_at ds x = Some 1 \<longleftrightarrow> dirty (off + x))"

definition u32 :: "nat \<Rightarrow> bool" where "u32 x \<longleftrightarrow> x < 2 ^ 32"

definition descs_ok :: "(nat \<times> nat) list \<Rightarrow> bool" where
  "descs_ok ds \<longleftrightarrow> list_all (\<lambda>(len, status). u32 len \<and> u32 status) ds \<and> u32 (4 + 8 * length ds)"

definition info_ok :: "nat \<times> byte list \<Rightarrow> bool" where
  "info_ok i \<longleftrightarrow> fst i < 2 ^ 16 \<and> fst i \<noteq> NBD_INFO_EXPORT \<and> u32 (2 + length (snd i))"

definition reply_ok :: "chunk_sent list \<Rightarrow> bool" where
  "reply_ok cs \<longleftrightarrow> cs \<noteq> [] \<and> (\<forall>c \<in> set cs. descs_ok (extents_of c))"

definition requests_of :: "nat \<Rightarrow> nat" where
  "requests_of sz = (sz + BLOCK_STATUS_CHUNK - 1) div BLOCK_STATUS_CHUNK"

definition request_len :: "nat \<Rightarrow> nat \<Rightarrow> nat" where
  "request_len sz i = min BLOCK_STATUS_CHUNK (sz - i * BLOCK_STATUS_CHUNK)"

text \<open>
  A server whose dirty bytes are \<open>dirty\<close>: its fields fit the wire, it sends one reply for each
  piece of the export, and the descriptors of the reply, over all its chunks, describe the piece.
\<close>

definition conforming :: "nbd_server \<Rightarrow> (nat \<Rightarrow> bool) \<Rightarrow> bool" where
  "conforming V dirty \<longleftrightarrow>
     sv_flags V < 2 ^ 16 \<and> u32 (sv_context V) \<and> u32 (4 + length (sv_context_name V)) \<and>
     sv_size V < 2 ^ 64 \<and> sv_export_flags V < 2 ^ 16 \<and>
     (\<forall>i \<in> set (sv_infos_before V @ sv_infos_after V). info_ok i) \<and>
     length (sv_replies V) = requests_of (sv_size V) \<and>
     (\<forall>i < requests_of (sv_size V). reply_ok (sv_replies V ! i) \<and>
        describes (i * BLOCK_STATUS_CHUNK) (request_len (sv_size V) i) dirty
          (concat (map extents_of (sv_replies V ! i)))) \<and>
     (\<forall>x. dirty x \<longrightarrow> x < sv_size V)"

text \<open>What a client sends: the options, then one request for each piece of the export.\<close>

definition option_bytes :: "nat \<Rightarrow> byte list \<Rightarrow> byte list" where
  "option_bytes opt payload = be 8 IHAVEOPT @ be 4 opt @ be 4 (length payload) @ payload"

definition status_request :: "nat \<Rightarrow> nat \<Rightarrow> nat \<Rightarrow> byte list" where
  "status_request handle off len =
     be 4 NBD_REQUEST_MAGIC @ be 2 0 @ be 2 NBD_CMD_BLOCK_STATUS @ be 8 handle @ be 8 off @ be 4 len"

definition client_session :: "string \<Rightarrow> string \<Rightarrow> nat \<Rightarrow> byte list" where
  "client_session export_name context sz =
     be 4 NBD_FLAG_C_FIXED_NEWSTYLE @ option_bytes NBD_OPT_STRUCTURED_REPLY [] @
     option_bytes NBD_OPT_SET_META_CONTEXT (meta_query export_name context) @
     option_bytes NBD_OPT_GO (be 4 (length (utf8 export_name)) @ utf8 export_name @ be 2 0) @
     concat (map (\<lambda>i. status_request i (i * BLOCK_STATUS_CHUNK) (request_len sz i)) [0..<requests_of sz])"

lemma length_enc_descs [simp]: "length (enc_descs ds) = 8 * length ds"
  by (induction ds) (auto simp: enc_descs_def)

lemma enc_descs_Cons: "enc_descs ((l, s) # ds) = be 4 l @ be 4 s @ enc_descs ds"
  by (simp add: enc_descs_def)

lemma descriptors_enc:
  "list_all (\<lambda>(len, status). u32 len \<and> u32 status) ds \<Longrightarrow> descriptors (enc_descs ds) = Inr ds"
proof (induction ds)
  case Nil
  then show ?case by (simp add: enc_descs_def descriptors.simps)
next
  case (Cons d ds)
  obtain l s where d: "d = (l, s)" by force
  with Cons.prems have "l < 256 ^ 4" "s < 256 ^ 4" by (simp_all add: u32_def)
  then have "field 0 4 (enc_descs (d # ds)) = l" "field 4 4 (enc_descs (d # ds)) = s"
    by (simp_all add: d enc_descs_Cons field_here field_skip)
  moreover have "drop 8 (enc_descs (d # ds)) = enc_descs ds" by (simp add: d enc_descs_Cons)
  moreover have "enc_descs (d # ds) \<noteq> []" "\<not> length (enc_descs (d # ds)) < 8"
    by (auto simp flip: length_greater_0_conv)
  ultimately show ?case using Cons d by (simp add: descriptors.simps [of "enc_descs ((l, s) # ds)"])
qed

section \<open>The client against that server\<close>

lemma consumes_option_reply:
  assumes "opt < 2 ^ 32" and "rep < 2 ^ 32" and "length payload < 2 ^ 32"
  shows "consumes recv_option_reply (srv_reply opt rep payload) [] (opt, rep, payload)"
proof -
  let ?h = "be 8 NBD_OPTION_REPLY_MAGIC @ be 4 opt @ be 4 rep @ be 4 (length payload)"
  have f: "field 0 8 ?h = NBD_OPTION_REPLY_MAGIC" "field 8 4 ?h = opt" "field 12 4 ?h = rep"
    "field 16 4 ?h = length payload"
    using assms by (simp_all add: field_here field_last field_skip NBD_OPTION_REPLY_MAGIC_def)
  have "consumes recv_option_reply (?h @ payload) [] (opt, rep, payload)"
    unfolding recv_option_reply_def
  proof (rule consumes_take [OF consumes_recv])
    have "consumes (nbind (if length payload \<noteq> 0 then recv_exact (length payload) else nret [])
        (\<lambda>payload. nret (opt, rep, payload))) payload [] (opt, rep, payload)"
      by (rule consumes_bind_ret, rule consumes_recv_opt) simp
    then show "consumes (let magic = field 0 8 ?h; option = field 8 4 ?h; reply_type = field 12 4 ?h;
         len = field 16 4 ?h in
       if magic \<noteq> NBD_OPTION_REPLY_MAGIC then proto_error ''bad option-reply magic''
       else nbind (if len \<noteq> 0 then recv_exact len else nret [])
            (\<lambda>payload. nret (option, reply_type, payload))) payload [] (opt, rep, payload)"
      by (simp only: f Let_def simp_thms if_False)
  qed simp
  then show ?thesis by (simp add: srv_reply_def)
qed

lemma consumes_handshake:
  assumes "flags < 2 ^ 16"
  shows "consumes handshake (srv_hello flags) (be 4 NBD_FLAG_C_FIXED_NEWSTYLE) flags"
proof -
  have f: "field 0 8 (srv_hello flags) = NBDMAGIC" "field 8 8 (srv_hello flags) = IHAVEOPT"
    "field 16 2 (srv_hello flags) = flags"
    using assms by (simp_all add: srv_hello_def field_here field_last field_skip NBDMAGIC_def IHAVEOPT_def)
  have "length (srv_hello flags) = 18" by (simp add: srv_hello_def)
  then show ?thesis
    unfolding handshake_def
    by (intro consumes_reply [OF consumes_recv])
      (auto simp: f Let_def intro: consumes_bind_ret [OF consumes_send])
qed

lemma consumes_option:
  "consumes (f ()) bs [] y \<Longrightarrow> consumes (nbind (send_option opt payload) f) bs (option_bytes opt payload) y"
  using consumes_then [OF consumes_send, of f bs "[]" y] by (simp add: send_option_def option_bytes_def)

lemma consumes_structured:
  "consumes opt_structured_reply (srv_reply NBD_OPT_STRUCTURED_REPLY NBD_REP_ACK [])
     (option_bytes NBD_OPT_STRUCTURED_REPLY []) ()"
proof -
  have "consumes (nbind recv_option_reply (\<lambda>(opt, rep, _).
       if opt \<noteq> NBD_OPT_STRUCTURED_REPLY \<or> rep \<noteq> NBD_REP_ACK
       then proto_error ''structured-reply negotiation failed'' else nret ()))
     (srv_reply NBD_OPT_STRUCTURED_REPLY NBD_REP_ACK []) [] ()"
    by (rule consumes_last [OF consumes_option_reply]) (simp_all add: nbd_consts consumes_ret)
  then show ?thesis
    unfolding opt_structured_reply_def by (intro consumes_option)
qed

lemma meta_loop_unfold:
  "meta_loop ctx = nbind recv_option_reply (\<lambda>(opt, rep, body).
     if opt \<noteq> NBD_OPT_SET_META_CONTEXT then proto_error ''unexpected option in reply''
     else if rep_is_error rep then proto_error ''NBD_OPT_SET_META_CONTEXT failed''
     else if rep = NBD_REP_META_CONTEXT then
       nbind (nlift (unpack_be 4 (take 4 body))) (\<lambda>c. meta_loop (Some c))
     else if rep = NBD_REP_ACK then nret ctx
     else meta_loop ctx)"
  by (rule ext, subst meta_loop.simps)
    (auto simp: nbind_def nlift_def nret_def split: sum.splits prod.splits)

lemma go_loop_unfold:
  "go_loop sz = nbind recv_option_reply (\<lambda>(opt, rep, body).
     if opt \<noteq> NBD_OPT_GO then proto_error ''unexpected option in reply''
     else if rep_is_error rep then proto_error ''NBD_OPT_GO failed''
     else if rep = NBD_REP_INFO then
       nbind (nlift (unpack_be 2 (take 2 body))) (\<lambda>info_type.
         go_loop (if info_type = NBD_INFO_EXPORT \<and> length body \<ge> 12 then Some (field 2 8 body) else sz))
     else if rep = NBD_REP_ACK then nret sz
     else go_loop sz)"
  by (rule ext, subst go_loop.simps)
    (auto simp: nbind_def nlift_def nret_def split: sum.splits prod.splits)

lemmas rep_simps = nbd_consts rep_is_error_def chunk_is_done_def

lemma small_reps [simp]:
  "\<not> rep_is_error NBD_REP_ACK" "\<not> rep_is_error NBD_REP_INFO" "\<not> rep_is_error NBD_REP_META_CONTEXT"
  by (simp_all add: rep_simps bit_iff_odd)

lemma consumes_meta_ack: "consumes (meta_loop ctx) (srv_reply NBD_OPT_SET_META_CONTEXT NBD_REP_ACK []) [] ctx"
  by (subst meta_loop_unfold, rule consumes_last [OF consumes_option_reply])
    (simp_all add: consumes_ret, simp_all add: nbd_consts consumes_ret)

lemma consumes_meta_context:
  assumes "c < 2 ^ 32" and "4 + length name < 2 ^ 32"
  shows "consumes (meta_loop ctx) (srv_meta c name) [] (Some c)"
  unfolding srv_meta_def
proof (subst meta_loop_unfold, rule consumes_take [OF consumes_option_reply])
  have "unpack_be 4 (take 4 (be 4 c @ name)) = Inr c"
    using assms(1) by (simp add: unpack_be_def be_val_be)
  then show "consumes (case (NBD_OPT_SET_META_CONTEXT, NBD_REP_META_CONTEXT, be 4 c @ name) of (opt, rep, body) \<Rightarrow>
     if opt \<noteq> NBD_OPT_SET_META_CONTEXT then proto_error ''unexpected option in reply''
     else if rep_is_error rep then proto_error ''NBD_OPT_SET_META_CONTEXT failed''
     else if rep = NBD_REP_META_CONTEXT then
       nbind (nlift (unpack_be 4 (take 4 body))) (\<lambda>c. meta_loop (Some c))
     else if rep = NBD_REP_ACK then nret ctx
     else meta_loop ctx) (srv_reply NBD_OPT_SET_META_CONTEXT NBD_REP_ACK []) [] (Some c)"
    by (simp only: prod.case small_reps simp_thms if_False if_True)
      (intro consumes_lift consumes_meta_ack)
qed (use assms in \<open>simp_all add: nbd_consts\<close>)

lemma consumes_set_meta:
  assumes "c < 2 ^ 32" and "4 + length name < 2 ^ 32"
  shows "consumes (opt_set_meta_context export_name context) (srv_meta c name)
     (option_bytes NBD_OPT_SET_META_CONTEXT (meta_query export_name context)) c"
proof -
  have "consumes (nbind (meta_loop None) (\<lambda>ctx.
       case ctx of None \<Rightarrow> proto_error ''server did not assign a context id'' | Some c \<Rightarrow> nret c))
     (srv_meta c name) [] c"
    by (rule consumes_last [OF consumes_meta_context [OF assms]]) (simp add: consumes_ret)
  then show ?thesis
    unfolding opt_set_meta_context_def by (intro consumes_option)
qed

lemma consumes_go_ack: "consumes (go_loop sz) (srv_reply NBD_OPT_GO NBD_REP_ACK []) [] sz"
  by (subst go_loop_unfold, rule consumes_last [OF consumes_option_reply])
    (simp_all add: consumes_ret, simp_all add: nbd_consts consumes_ret)

lemma consumes_go_info:
  assumes "t < 2 ^ 16" and "u32 (2 + length data)"
    and later: "consumes (go_loop (if t = NBD_INFO_EXPORT \<and> length (be 2 t @ data) \<ge> 12
                  then Some (field 2 8 (be 2 t @ data)) else old)) bs out r"
  shows "consumes (go_loop old) (srv_reply NBD_OPT_GO NBD_REP_INFO (be 2 t @ data) @ bs) out r"
proof (subst go_loop_unfold, rule consumes_take [OF consumes_option_reply])
  let ?b = "be 2 t @ data"
  have u: "unpack_be 2 (take 2 ?b) = Inr t"
    using assms(1) by (simp add: unpack_be_def be_val_be)
  have "consumes (nbind (nlift (unpack_be 2 (take 2 ?b))) (\<lambda>info_type.
         go_loop (if info_type = NBD_INFO_EXPORT \<and> length ?b \<ge> 12 then Some (field 2 8 ?b) else old)))
       bs out r"
    unfolding u by (rule consumes_lift) (rule later)
  then show "consumes (case (NBD_OPT_GO, NBD_REP_INFO, ?b) of (opt, rep, body) \<Rightarrow>
     if opt \<noteq> NBD_OPT_GO then proto_error ''unexpected option in reply''
     else if rep_is_error rep then proto_error ''NBD_OPT_GO failed''
     else if rep = NBD_REP_INFO then
       nbind (nlift (unpack_be 2 (take 2 body))) (\<lambda>info_type.
         go_loop (if info_type = NBD_INFO_EXPORT \<and> length body \<ge> 12 then Some (field 2 8 body) else old))
     else if rep = NBD_REP_ACK then nret old
     else go_loop old) bs out r"
    by (simp only: prod.case small_reps simp_thms if_False if_True)
qed (use assms in \<open>simp_all add: nbd_consts u32_def\<close>)

lemma consumes_go_infos:
  assumes "\<forall>i \<in> set infos. info_ok i" and "consumes (go_loop sz) bs out r"
  shows "consumes (go_loop sz) (srv_infos infos @ bs) out r"
  using assms
proof (induction infos)
  case (Cons i infos)
  obtain t data where i: "i = (t, data)" by force
  with Cons show ?case
    by (auto simp: srv_infos_def info_ok_def intro!: consumes_go_info)
qed (simp add: srv_infos_def)

lemma consumes_go_export:
  assumes "sz < 2 ^ 64" and "flags < 2 ^ 16" and "consumes (go_loop (Some sz)) bs out r"
  shows "consumes (go_loop old)
     (srv_reply NBD_OPT_GO NBD_REP_INFO (be 2 NBD_INFO_EXPORT @ be 8 sz @ be 2 flags) @ bs) out r"
proof (rule consumes_go_info)
  have "field 2 8 (be 2 NBD_INFO_EXPORT @ be 8 sz @ be 2 flags) = sz"
    using assms(1) by (simp add: field_skip field_here)
  with assms(3) show "consumes (go_loop (if NBD_INFO_EXPORT = NBD_INFO_EXPORT \<and>
        length (be 2 NBD_INFO_EXPORT @ be 8 sz @ be 2 flags) \<ge> 12
      then Some (field 2 8 (be 2 NBD_INFO_EXPORT @ be 8 sz @ be 2 flags)) else old)) bs out r"
    by simp
qed (simp_all add: nbd_consts u32_def)

lemma consumes_opt_go:
  assumes "sv_size V < 2 ^ 64" and "sv_export_flags V < 2 ^ 16"
    and "\<forall>i \<in> set (sv_infos_before V @ sv_infos_after V). info_ok i"
  shows "consumes (opt_go export_name) (srv_go V)
     (option_bytes NBD_OPT_GO (be 4 (length (utf8 export_name)) @ utf8 export_name @ be 2 0)) (sv_size V)"
proof -
  have "consumes (go_loop None) (srv_go V) [] (Some (sv_size V))"
    unfolding srv_go_def
    by (intro consumes_go_infos consumes_go_export consumes_go_ack) (use assms in auto)
  then have "consumes (nbind (go_loop None) (\<lambda>sz.
       case sz of None \<Rightarrow> proto_error ''NBD_OPT_GO completed without NBD_INFO_EXPORT''
                | Some n \<Rightarrow> nret n)) (srv_go V) [] (sv_size V)"
    by (rule consumes_last) (simp add: consumes_ret)
  then show ?thesis
    unfolding opt_go_def by (intro consumes_option)
qed

lemma consumes_chunk:
  assumes "flags < 2 ^ 16" and "ctype < 2 ^ 16" and "handle < 2 ^ 64" and "length body < 2 ^ 32"
  shows "consumes (read_structured_chunk handle) (srv_chunk flags ctype handle body) []
           (ctype, body, chunk_is_done flags)"
proof -
  let ?h = "be 4 NBD_STRUCTURED_REPLY_MAGIC @ be 2 flags @ be 2 ctype @ be 8 handle @ be 4 (length body)"
  have f: "field 0 4 ?h = NBD_STRUCTURED_REPLY_MAGIC" "field 4 2 ?h = flags" "field 6 2 ?h = ctype"
    "field 8 8 ?h = handle" "field 16 4 ?h = length body"
    using assms by (simp_all add: field_here field_last field_skip NBD_STRUCTURED_REPLY_MAGIC_def)
  have "consumes (read_structured_chunk handle) (?h @ body) [] (ctype, body, chunk_is_done flags)"
    unfolding read_structured_chunk_def
  proof (rule consumes_take [OF consumes_recv])
    have "consumes (nbind (if length body \<noteq> 0 then recv_exact (length body) else nret [])
        (\<lambda>body. nret (ctype, body, chunk_is_done flags))) body [] (ctype, body, chunk_is_done flags)"
      by (rule consumes_bind_ret, rule consumes_recv_opt) simp
    then show "consumes (let magic = field 0 4 ?h; flags = field 4 2 ?h; ctype = field 6 2 ?h;
         hd = field 8 8 ?h; len = field 16 4 ?h in
       if magic \<noteq> NBD_STRUCTURED_REPLY_MAGIC then proto_error ''bad structured-reply magic''
       else if hd \<noteq> handle then proto_error ''handle mismatch''
       else nbind (if len \<noteq> 0 then recv_exact len else nret [])
            (\<lambda>body. nret (ctype, body, chunk_is_done flags))) body [] (ctype, body, chunk_is_done flags)"
      by (simp only: f Let_def simp_thms if_False)
  qed simp
  then show ?thesis by (simp add: srv_chunk_def)
qed

lemma status_loop_unfold:
  "status_loop handle ctx cur = nbind (read_structured_chunk handle) (\<lambda>(ctype, body, fin).
     nbind (nlift (on_chunk ctx cur ctype body)) (\<lambda>ds.
       if fin then nret (lay_out cur ds)
       else nbind (status_loop handle ctx (cur + sum_list (map fst ds)))
              (\<lambda>later. nret (lay_out cur ds @ later))))"
  by (rule ext, subst status_loop.simps)
    (auto simp: nbind_def nlift_def nret_def Let_def split: sum.splits prod.splits)

lemma lay_out_append: "lay_out cur (a @ b) = lay_out cur a @ lay_out (cur + sum_list (map fst a)) b"
  by (induction a arbitrary: cur) (auto simp: add.assoc)

lemma done_flags: "chunk_is_done (Suc 0)" "\<not> chunk_is_done 0"
  by (simp_all add: chunk_is_done_def bit_iff_odd)

lemma on_chunk_status:
  assumes "ctx < 2 ^ 32" and "descs_ok ds"
  shows "on_chunk ctx cur NBD_REPLY_TYPE_BLOCK_STATUS (be 4 ctx @ enc_descs ds) = Inr ds"
proof -
  have "unpack_be 4 (take 4 (be 4 ctx @ enc_descs ds)) = Inr ctx"
    using assms(1) by (simp add: unpack_be_def be_val_be)
  moreover have "descriptors (enc_descs ds) = Inr ds"
    using assms(2) by (intro descriptors_enc) (simp add: descs_ok_def)
  ultimately show ?thesis by (simp add: on_chunk_def nbd_consts)
qed

lemma consumes_sent:
  assumes "ctx < 2 ^ 32" and "handle < 2 ^ 64" and "descs_ok (extents_of c)" and "flags < 2 ^ 16"
    and later: "consumes (if chunk_is_done flags then nret (lay_out cur (extents_of c))
       else nbind (status_loop handle ctx (cur + described (extents_of c)))
              (\<lambda>later. nret (lay_out cur (extents_of c) @ later))) bs [] r"
  shows "consumes (status_loop handle ctx cur) (chunk_bytes flags ctx handle c @ bs) [] r"
proof (cases c)
  case (Extents ds)
  with assms(3) have ds: "descs_ok ds" by simp
  then have "length (be 4 ctx @ enc_descs ds) < 2 ^ 32" by (simp add: descs_ok_def u32_def)
  then show ?thesis
    unfolding Extents chunk_bytes.simps
    by (subst status_loop_unfold, intro consumes_take [OF consumes_chunk])
      (use assms(2,4) later Extents on_chunk_status [OF assms(1) ds] in
        \<open>auto simp: NBD_REPLY_TYPE_BLOCK_STATUS_def described_def intro!: consumes_lift\<close>)
next
  case NoExtents
  then show ?thesis
    unfolding NoExtents chunk_bytes.simps
    by (subst status_loop_unfold, intro consumes_take [OF consumes_chunk])
      (use assms(2,4) later NoExtents in
        \<open>auto simp: on_chunk_def NBD_REPLY_TYPE_NONE_def described_def intro!: consumes_lift\<close>)
qed

lemma consumes_status:
  assumes "ctx < 2 ^ 32" and "handle < 2 ^ 64" and "reply_ok cs"
  shows "consumes (status_loop handle ctx cur) (srv_status ctx handle cs) []
     (lay_out cur (concat (map extents_of cs)))"
  using assms(3)
proof (induction cs arbitrary: cur)
  case (Cons c cs)
  then have c: "descs_ok (extents_of c)" by (simp add: reply_ok_def)
  show ?case
  proof (cases cs)
    case Nil
    have "consumes (status_loop handle ctx cur) (chunk_bytes 1 ctx handle c @ []) [] (lay_out cur (extents_of c))"
      by (rule consumes_sent [OF assms(1,2) c]) (simp_all add: done_flags consumes_ret)
    with Nil show ?thesis by simp
  next
    case (Cons d ds)
    with Cons.prems have "reply_ok cs" by (simp add: reply_ok_def)
    from Cons.IH [OF this, of "cur + described (extents_of c)"]
    have "consumes (status_loop handle ctx cur) (chunk_bytes 0 ctx handle c @ srv_status ctx handle cs) []
        (lay_out cur (extents_of c) @ lay_out (cur + described (extents_of c)) (concat (map extents_of cs)))"
      by (intro consumes_sent [OF assms(1,2) c]) (simp_all add: done_flags consumes_bind_ret)
    with Cons show ?thesis by (simp add: lay_out_append described_def)
  qed
qed (simp add: reply_ok_def)

lemma walk_unfold:
  "walk_block_status ctx sz handle offset =
     (if offset < sz then
        nbind (request NBD_CMD_BLOCK_STATUS handle offset (min BLOCK_STATUS_CHUNK (sz - offset))) (\<lambda>_.
        nbind (status_loop handle ctx offset) (\<lambda>here.
        nbind (walk_block_status ctx sz (handle + 1) (offset + min BLOCK_STATUS_CHUNK (sz - offset)))
          (\<lambda>later. nret (here @ later))))
      else nret [])"
  by (rule ext, subst walk_block_status.simps) (simp add: Let_def nret_def)

lemma consumes_request:
  "consumes (f ()) bs out y \<Longrightarrow>
   consumes (nbind (request NBD_CMD_BLOCK_STATUS handle off len) f) bs (status_request handle off len @ out) y"
  unfolding request_def status_request_def by (rule consumes_then [OF consumes_send])

text \<open>The pieces of an export.\<close>

lemma piece_starts: "i < requests_of sz \<longleftrightarrow> i * BLOCK_STATUS_CHUNK < sz"
proof -
  have "i < requests_of sz \<longleftrightarrow> Suc i \<le> requests_of sz" by auto
  also have "\<dots> \<longleftrightarrow> Suc i * BLOCK_STATUS_CHUNK \<le> sz + BLOCK_STATUS_CHUNK - 1"
    unfolding requests_of_def by (rule less_eq_div_iff_mult_less_eq) (simp add: BLOCK_STATUS_CHUNK_def)
  also have "\<dots> \<longleftrightarrow> i * BLOCK_STATUS_CHUNK < sz"
    by (auto simp: BLOCK_STATUS_CHUNK_def)
  finally show ?thesis .
qed

lemma piece_next:
  assumes "i < requests_of sz"
  shows "i * BLOCK_STATUS_CHUNK + request_len sz i = min (Suc i * BLOCK_STATUS_CHUNK) sz"
  using assms by (simp add: piece_starts request_len_def min_def) linarith

text \<open>The walk from piece \<open>i\<close> on: its requests, its replies and its ranges.\<close>

definition later_requests :: "nat \<Rightarrow> nat \<Rightarrow> byte list" where
  "later_requests sz i =
     concat (map (\<lambda>j. status_request j (j * BLOCK_STATUS_CHUNK) (request_len sz j)) [i..<requests_of sz])"

definition later_ranges :: "nat \<Rightarrow> chunk_sent list list \<Rightarrow> nat \<Rightarrow> (nat \<times> nat \<times> nat) list" where
  "later_ranges sz replies i =
     concat (map (\<lambda>j. lay_out (j * BLOCK_STATUS_CHUNK) (concat (map extents_of (replies ! j)))) [i..<requests_of sz])"

lemma later_Suc:
  assumes "i < requests_of sz"
  shows "later_requests sz i =
      status_request i (i * BLOCK_STATUS_CHUNK) (request_len sz i) @ later_requests sz (Suc i)"
    and "later_ranges sz replies i =
      lay_out (i * BLOCK_STATUS_CHUNK) (concat (map extents_of (replies ! i))) @ later_ranges sz replies (Suc i)"
  using assms by (simp_all add: later_requests_def later_ranges_def upt_conv_Cons)

lemma consumes_walk:
  assumes "ctx < 2 ^ 32" and "requests_of sz < 2 ^ 64" and "length replies = requests_of sz"
    and "\<forall>i < requests_of sz. reply_ok (replies ! i)" and "i \<le> requests_of sz"
  shows "consumes (walk_block_status ctx sz i (min (i * BLOCK_STATUS_CHUNK) sz)) (srv_walk ctx i (drop i replies))
           (later_requests sz i) (later_ranges sz replies i)"
  using assms(5)
proof (induction rule: inc_induct)
  case base
  have "min (requests_of sz * BLOCK_STATUS_CHUNK) sz = sz"
    using piece_starts [of "requests_of sz" sz] by simp
  then show ?case
    using assms(3) by (subst walk_unfold) (simp add: later_requests_def later_ranges_def consumes_ret)
next
  case (step i)
  let ?off = "i * BLOCK_STATUS_CHUNK"
  have lt: "?off < sz" using step.hyps by (simp add: piece_starts)
  then have off: "min ?off sz = ?off" by simp
  have step_off: "?off + min BLOCK_STATUS_CHUNK (sz - ?off) = min (Suc i * BLOCK_STATUS_CHUNK) sz"
    using piece_next [OF step.hyps(2)] by (simp add: request_len_def)
  have rest: "drop i replies = replies ! i # drop (Suc i) replies"
    using step.hyps assms(3) by (simp add: Cons_nth_drop_Suc)
  have "consumes (status_loop i ctx ?off) (srv_status ctx i (replies ! i)) []
      (lay_out ?off (concat (map extents_of (replies ! i))))"
    using step.hyps assms(2,4) by (intro consumes_status assms(1)) auto
  from consumes_take [OF this, of "\<lambda>here. nbind (walk_block_status ctx sz (i + 1) (min (Suc i * BLOCK_STATUS_CHUNK) sz))
      (\<lambda>later. nret (here @ later))"] step.IH
  have "consumes (nbind (status_loop i ctx ?off) (\<lambda>here.
        nbind (walk_block_status ctx sz (i + 1) (min (Suc i * BLOCK_STATUS_CHUNK) sz)) (\<lambda>later. nret (here @ later))))
      (srv_walk ctx i (drop i replies)) (later_requests sz (Suc i)) (later_ranges sz replies i)"
    by (simp add: rest later_Suc [OF step.hyps(2)] consumes_bind_ret)
  from consumes_request [OF this, of i ?off "request_len sz i"] lt show ?case
    by (subst walk_unfold) (simp add: off step_off later_Suc [OF step.hyps(2)] request_len_def)
qed

section \<open>The session\<close>

lemma consumes_fetch:
  assumes "conforming V dirty"
  shows "consumes (fetch_dirty_extents export_name meta) (srv_session V)
     (client_session export_name meta (sv_size V))
     (map (\<lambda>(off, len, _). (off, len)) (filter (\<lambda>(_, _, status). status = 1) (later_ranges (sv_size V) (sv_replies V) 0)))"
proof -
  note ok = assms [unfolded conforming_def u32_def]
  have "requests_of (sv_size V) \<le> sv_size V"
    using piece_starts [of "sv_size V" "sv_size V"] by (auto simp: BLOCK_STATUS_CHUNK_def)
  with ok have "requests_of (sv_size V) < 2 ^ 64" by linarith
  from consumes_walk [OF _ this, of "sv_context V" "sv_replies V" 0] ok
  have walk: "consumes (walk_block_status (sv_context V) (sv_size V) 0 0) (srv_walk (sv_context V) 0 (sv_replies V))
      (later_requests (sv_size V) 0) (later_ranges (sv_size V) (sv_replies V) 0)" by simp
  show ?thesis
    unfolding fetch_dirty_extents_def srv_session_def client_session_def later_requests_def [symmetric]
    by (intro consumes_bind [OF consumes_handshake] consumes_bind [OF consumes_structured]
        consumes_bind [OF consumes_set_meta] consumes_bind [OF consumes_opt_go]
        consumes_bind_ret walk)
      (use ok in auto)
qed

section \<open>The ranges are the dirty bytes\<close>

lemma lay_out_status:
  "(\<exists>off len. (off, len, st) \<in> set (lay_out cur ds) \<and> off \<le> x \<and> x < off + len) \<longleftrightarrow>
   cur \<le> x \<and> status_at ds (x - cur) = Some st"
proof (induction ds arbitrary: cur)
  case (Cons d ds)
  obtain l s where d: "d = (l, s)" by force
  have "(\<exists>off len. (off, len, st) \<in> set (lay_out cur (d # ds)) \<and> off \<le> x \<and> x < off + len) \<longleftrightarrow>
      (st = s \<and> cur \<le> x \<and> x < cur + l) \<or> (cur + l \<le> x \<and> status_at ds (x - (cur + l)) = Some st)"
    using Cons.IH [of "cur + l"] by (auto simp: d)
  also have "\<dots> \<longleftrightarrow> cur \<le> x \<and> status_at (d # ds) (x - cur) = Some st"
    by (auto simp: d)
  finally show ?case .
qed simp


lemma status_at_beyond: "described ds \<le> x \<Longrightarrow> status_at ds x = None"
  by (induction ds arbitrary: x) (auto simp: described_def)

definition covers :: "(nat \<times> nat) list \<Rightarrow> nat \<Rightarrow> bool" where
  "covers exts x \<longleftrightarrow> (\<exists>(off, len) \<in> set exts. off \<le> x \<and> x < off + len)"

lemma ranges_dirty:
  assumes "conforming V dirty"
  shows "covers (map (\<lambda>(off, len, _). (off, len)) (filter (\<lambda>(_, _, status). status = 1)
           (later_ranges (sv_size V) (sv_replies V) 0))) x \<longleftrightarrow> dirty x"
proof -
  let ?n = "requests_of (sv_size V)" and ?C = "BLOCK_STATUS_CHUNK"
  let ?ds = "\<lambda>i. concat (map extents_of (sv_replies V ! i))"
  have described: "i < ?n \<Longrightarrow> describes (i * ?C) (request_len (sv_size V) i) dirty (?ds i)" for i
    using assms by (simp add: conforming_def)
  have "covers (map (\<lambda>(off, len, _). (off, len)) (filter (\<lambda>(_, _, status). status = 1)
      (later_ranges (sv_size V) (sv_replies V) 0))) x \<longleftrightarrow>
      (\<exists>i < ?n. \<exists>off len. (off, len, 1) \<in> set (lay_out (i * ?C) (?ds i)) \<and> off \<le> x \<and> x < off + len)"
    by (force simp: covers_def later_ranges_def)
  also have "\<dots> \<longleftrightarrow> (\<exists>i < ?n. i * ?C \<le> x \<and> status_at (?ds i) (x - i * ?C) = Some 1)"
    by (simp add: lay_out_status)
  also have "\<dots> \<longleftrightarrow> dirty x"
  proof
    assume "\<exists>i < ?n. i * ?C \<le> x \<and> status_at (?ds i) (x - i * ?C) = Some 1"
    then obtain i where i: "i < ?n" "i * ?C \<le> x" "status_at (?ds i) (x - i * ?C) = Some 1" by blast
    then have "x - i * ?C < described (?ds i)" using status_at_beyond by (metis not_le option.distinct(1))
    with described [OF i(1)] i(2,3) show "dirty x" by (auto simp: describes_def)
  next
    assume "dirty x"
    then have lt: "x < sv_size V" using assms by (simp add: conforming_def)
    let ?i = "x div ?C"
    have le: "?i * ?C \<le> x" by simp
    with lt have i: "?i < ?n" unfolding piece_starts by linarith
    have "x < Suc ?i * ?C" using div_less_iff_less_mult [of ?C x "Suc ?i"] by (simp add: BLOCK_STATUS_CHUNK_def)
    with piece_next [OF i] lt have "x < ?i * ?C + request_len (sv_size V) ?i" by simp
    with le have "x - ?i * ?C < request_len (sv_size V) ?i" by linarith
    with described [OF i] have "x - ?i * ?C < described (?ds ?i)" by (simp add: describes_def)
    with described [OF i] have "status_at (?ds ?i) (x - ?i * ?C) = Some 1 \<longleftrightarrow> dirty (?i * ?C + (x - ?i * ?C))"
      unfolding describes_def by blast
    with \<open>dirty x\<close> have "status_at (?ds ?i) (x - ?i * ?C) = Some 1" by simp
    with i le show "\<exists>i < ?n. i * ?C \<le> x \<and> status_at (?ds i) (x - i * ?C) = Some 1" by blast
  qed
  finally show ?thesis .
qed

text \<open>The whole session, with the connection the kernel gives.\<close>

lemma fetch_dirty:
  assumes "conforming V dirty" and "concat segs = srv_session V" and "[] \<notin> set segs"
  shows "\<exists>exts k. fetch_dirty_extents export_name meta \<lparr>inbox = segs, ending = fin, outbox = []\<rparr> = (Inr exts, k) \<and>
     (\<forall>x. covers exts x \<longleftrightarrow> dirty x) \<and> outbox k = client_session export_name meta (sv_size V)"
proof -
  let ?k = "\<lparr>inbox = segs, ending = fin, outbox = []\<rparr>"
  have "wf_sock ?k" "stream ?k = srv_session V @ []"
    using assms(2,3) by (simp_all add: wf_sock_def stream_def)
  then show ?thesis
    by (rule consumesD [OF consumes_fetch [OF assms(1), of export_name meta]])
      (use ranges_dirty [OF assms(1)] in auto)
qed

end
