(* ===== verification/CbtProps.thy ===== *)
theory CbtProps
  imports Footprint ChangedBlocks NbdServer Samples
begin

text \<open>
  What changed-block tracking promises: the bitmap answered for a volume is the set of blocks
  the NBD server reported dirty, whatever the segments the answer came in; the files of bitmap
  state; the order in which a snapshot freezes the tracking bitmap.
\<close>

section \<open>The wire\<close>

text \<open>
  C4. Whatever way the stream of a conforming NBD server is cut into segments, the ranges that
  fetch_dirty_extents returns cover exactly the server's dirty bytes, and what the client
  sends is the three options and then one request for each 2 GiB piece of the export. A
  conforming server accepts the options with one meta context, may announce further
  information, and answers each request for its whole range (a shorter answer, which the
  protocol allows, is a finding), in chunks of descriptors among which may be empty ones, the
  last of either kind with the DONE flag.
\<close>

theorem nbd_fetch_exact:
  assumes "conforming V dirty" and "concat segs = srv_session V" and "[] \<notin> set segs"
  shows "\<exists>exts k. fetch_dirty_extents export_name meta \<lparr>inbox = segs, ending = fin, outbox = []\<rparr> = (Inr exts, k) \<and>
     (\<forall>x. covers exts x \<longleftrightarrow> dirty x) \<and> outbox k = client_session export_name meta (sv_size V)"
  by (rule fetch_dirty [OF assms])

text \<open>
  An export of 128 KiB whose second half is dirty, from a server that announces its block sizes
  too, sends two chunks of descriptors, the second with the DONE flag, and one byte at a time.
\<close>

definition sample_server :: nbd_server where
  "sample_server = \<lparr>sv_flags = 3, sv_context = 7, sv_context_name = [], sv_infos_before = [(3, be 4 1 @ be 4 4096 @ be 4 65536)],
     sv_size = 131072, sv_export_flags = 1, sv_infos_after = [],
     sv_replies = [[Extents [(65536, 0)], Extents [(65536, 1)]]]\<rparr>"

definition sample_dirty :: "nat \<Rightarrow> bool" where
  "sample_dirty x \<longleftrightarrow> 65536 \<le> x \<and> x < 131072"

definition sample_stream :: "byte list" where
  "sample_stream = srv_session sample_server"

lemma sample_conforming: "conforming sample_server sample_dirty"
proof -
  have "requests_of 131072 = 1" by (simp add: requests_of_def BLOCK_STATUS_CHUNK_def)
  then show ?thesis
    by (simp add: conforming_def sample_server_def info_ok_def reply_ok_def descs_ok_def u32_def describes_def
        described_def request_len_def BLOCK_STATUS_CHUNK_def NBD_INFO_EXPORT_def sample_dirty_def)
      (intro allI impI, linarith)
qed

lemma sample_segs: "concat (map (\<lambda>b. [b]) sample_stream) = srv_session sample_server"
  "[] \<notin> set (map (\<lambda>b. [b]) sample_stream)"
  by (auto simp: sample_stream_def)

theorem nbd_fetch_exact_witness:
  "\<exists>exts k. fetch_dirty_extents ''e'' ''c'' \<lparr>inbox = map (\<lambda>b. [b]) sample_stream, ending = None, outbox = []\<rparr> = (Inr exts, k) \<and>
     (\<forall>x. covers exts x \<longleftrightarrow> 65536 \<le> x \<and> x < 131072) \<and> outbox k = client_session ''e'' ''c'' 131072"
  using nbd_fetch_exact [OF sample_conforming sample_segs, of "''e''" "''c''" None]
  by (simp add: sample_dirty_def sample_server_def)

lemma recv_loop_total:
  assumes "wf_sock k" and "length buf \<le> n"
  shows "fst (recv_loop n buf k) =
     (if n \<le> length (buf @ stream k) then Inr (take n (buf @ stream k))
      else case ending k of None \<Rightarrow> Inl (NBDProtocolError ''short read'') | Some e \<Rightarrow> Inl e)"
  using assms
proof (induction n buf k rule: recv_loop.induct)
  case (1 n buf k)
  show ?case
  proof (cases "length buf < n")
    case False
    with "1.prems"(2) show ?thesis by (simp add: recv_loop.simps [of n])
  next
    case less: True
    show ?thesis
    proof (cases "stream k = []")
      case True
      with "1.prems"(1) have "inbox k = []" by (cases "inbox k") (auto simp: stream_def wf_sock_def)
      with less True show ?thesis
        by (cases "ending k") (simp_all add: recv_loop.simps [of n] recv_def)
    next
      case False
      with less "1.prems" obtain bs k' where r: "recv (n - length buf) k = (Inr bs, k')" "bs \<noteq> []"
        "length bs \<le> n - length buf" "reads k bs k'" using recv_reads [OF "1.prems"(1)] by (metis zero_less_diff)
      then have "wf_sock k'" "length (buf @ bs) \<le> n" "stream k = bs @ stream k'" "ending k' = ending k"
        using less by (auto simp: reads_def)
      moreover have "recv_loop n buf k = recv_loop n (buf @ bs) k'"
        using r(1,2) less by (simp add: recv_loop.simps [of n buf k])
      ultimately show ?thesis using "1.IH" [OF less r(1) [symmetric] refl r(2)] by simp
    qed
  qed
qed

text \<open>
  Receiving n bytes ends for every segmentation of the stream: with the first n bytes when
  there are that many, with the stream's failure otherwise.
\<close>

theorem recv_exact_total:
  assumes "[] \<notin> set (inbox k)"
  shows "fst (recv_exact n k) =
     (if n \<le> length (concat (inbox k)) then Inr (take n (concat (inbox k)))
      else case ending k of None \<Rightarrow> Inl (NBDProtocolError ''short read'') | Some e \<Rightarrow> Inl e)"
  using recv_loop_total [of k "[]" n] assms by (simp add: recv_exact_def wf_sock_def stream_def)

theorem recv_exact_total_witness:
  "fst (recv_exact 3 \<lparr>inbox = [[1], [2]], ending = None, outbox = []\<rparr>) =
     (if 3 \<le> length (concat [[1], [2 :: byte]]) then Inr (take 3 (concat [[1], [2]]))
      else case None of None \<Rightarrow> Inl (NBDProtocolError ''short read'') | Some e \<Rightarrow> Inl e)"
  using recv_exact_total [of "\<lparr>inbox = [[1], [2]], ending = None, outbox = []\<rparr>" 3] by simp

section \<open>The bitmap\<close>

text \<open>
  C5. The packed bitmap of a range has one bit per block of the aligned range, in whole bytes,
  and a bit is set exactly when some extent meets its block; the bits after the last block are
  0.
\<close>

theorem bitmap_exact:
  assumes "0 < g" and "0 \<le> len"
  shows "\<exists>bits. pack_extents_to_bitmap exts off len g = Inr (b64encode bits) \<and>
     int (length bits) = (nblocks_of off len g + 7) div 8 \<and>
     (\<forall>i < 8 * length bits. bit_at bits i \<longleftrightarrow> int i < nblocks_of off len g \<and>
        (\<exists>(eo, el) \<in> set exts. \<exists>x. eo \<le> x \<and> x < eo + el \<and>
           aligned_start off g + int i * g \<le> x \<and> x < aligned_start off g + (int i + 1) * g))"
proof -
  have "0 \<le> (nblocks_of off len g + 7) div 8" using nblocks_nonneg [OF assms, of off] by simp
  then show ?thesis
    using pack_extents_ok [OF assms, of exts off]
    by (elim exE conjE) (auto simp: overlaps_iff case_prod_beta intro!: exI; blast)
qed

theorem bitmap_exact_witness:
  "\<exists>bits. pack_extents_to_bitmap [(65536, 1)] 0 131072 65536 = Inr (b64encode bits) \<and>
     int (length bits) = (nblocks_of 0 131072 65536 + 7) div 8 \<and>
     (\<forall>i < 8 * length bits. bit_at bits i \<longleftrightarrow> int i < nblocks_of 0 131072 65536 \<and>
        (\<exists>(eo, el) \<in> set [(65536, 1)]. \<exists>x. eo \<le> x \<and> x < eo + el \<and>
           aligned_start 0 65536 + int i * 65536 \<le> x \<and> x < aligned_start 0 65536 + (int i + 1) * 65536))"
  by (rule bitmap_exact) simp_all

text \<open>Decoding what was encoded gives the bytes back.\<close>

theorem base64_roundtrip: "b64decode (b64encode bytes) = Some bytes"
  by (rule b64decode_encode)

section \<open>The answer to a changed-blocks request\<close>

text \<open>
  The state of one bitmap, as \<open>export_bitmap\<close> describes it: what qemu says of the bitmap, the
  socket of the daemon's NBD server and the names the driver gives the export and its context.
\<close>

definition bitmap_payload :: "string \<Rightarrow> pydict \<Rightarrow> string \<Rightarrow> pydict" where
  "bitmap_payload bm info sock = export_payload bm info
     [(''nbd_unix_sock'', PStr sock), (''export_name'', PStr (''cbt_'' @ bm)),
      (''bitmap_context'', PStr (''qemu:dirty-bitmap:'' @ bm))]"

definition saved_state :: "string \<Rightarrow> pydict \<Rightarrow> string \<Rightarrow> pyval" where
  "saved_state bm info sock = PDict [(bm, PDict (bitmap_payload bm info sock))]"

lemma spec_export_payload:
  "spec (export_bitmap E qd name)
     (\<lambda>p _. \<exists>info. p = bitmap_payload name info (qd_nbd_unix_sock qd)) (\<lambda>_ _. True)"
proof -
  have info: "extends (frozen_info E qd name)"
    unfolding qemu_op_defs Let_def by (intro emits_intros; simp)
  have server: "spec (ensure_nbd_server E qd) (\<lambda>qd' _. qd_nbd_unix_sock qd' = qd_nbd_unix_sock qd) (\<lambda>_ _. True)"
    unfolding ensure_nbd_server_def by (intro spec_intros) (auto intro!: spec_intros)
  have "spec (cbt_export_bitmap E qd name)
      (\<lambda>nbd _. \<forall>info. export_payload name info nbd = bitmap_payload name info (qd_nbd_unix_sock qd)) (\<lambda>_ _. True)"
    unfolding cbt_export_bitmap_def add_export_def bitmap_payload_def
    by (intro spec_bind [OF spec_mono [OF server]]) (auto intro!: spec_intros)
  then show ?thesis
    unfolding export_bitmap_def
    by (intro spec_bind [OF spec_mono [OF info [unfolded emits_def]]] spec_bind)
      (auto intro!: spec_intros elim!: spec_mono)
qed

text \<open>
  What a snapshot's capture writes: the file it replaces is the one a changed-blocks query for
  that snapshot reads, and its contents are the state of the snapshot's frozen bitmap.
\<close>

definition captures_state :: "string \<Rightarrow> string \<Rightarrow> event \<Rightarrow> bool" where
  "captures_state sr uuid e \<longleftrightarrow>
     (case fst e of
        Fs (WriteFile f v) \<Rightarrow> f = cbt_metadata_path (file_uri sr) uuid @ ''.tmp'' \<and>
          (\<exists>info sock. v = saved_state (CBT_SNAPSHOT_BITMAP_PREFIX @ uuid) info sock)
      | Fs (Rename f g) \<Rightarrow> f = cbt_metadata_path (file_uri sr) uuid @ ''.tmp'' \<and> g = cbt_metadata_path (file_uri sr) uuid
      | _ \<Rightarrow> True)"

lemma emits_bind_value:
  assumes "emits A m" and "spec m (\<lambda>x _. P x) (\<lambda>_ _. True)" and "\<And>x. P x \<Longrightarrow> emits A (f x)"
  shows "emits A (bind m f)"
  unfolding emits_def
  by (intro spec_bind spec_mono [OF spec_emits_conj [OF assms(2,1)]])
    (auto elim!: spec_mono [OF assms(3) [unfolded emits_def]])

lemma captures_simps [simp]:
  "captures_state sr uuid (Qmp sock cmd args, r)" "captures_state sr uuid (Fs (MakeDirs p), r)"
  "captures_state sr uuid (Fs (Glob p), r)" "captures_state sr uuid (Fs (IsDir p), r)"
  "captures_state sr uuid (Fs (Exists p), r)" "captures_state sr uuid (Fs (ReadFile p), r)"
  by (simp_all add: captures_state_def)

lemma captures_first [emits_intros]: "emits (captures_state sr uuid) (first_socket E dev socks)"
  by (induction socks) (auto simp: qemu_op_defs intro!: emits_intros)

lemma emits_capture: "emits (captures_state sr uuid) (cbt_capture_at_snapshot E sr ds p uuid)"
proof -
  let ?A = "captures_state sr uuid" and ?b = "CBT_SNAPSHOT_BITMAP_PREFIX @ uuid"
  have export: "emits ?A (export_bitmap E q n)" for q n
    unfolding qemu_op_defs Let_def by (intro emits_intros; simp)
  have "emits ?A (save_cbt_metadata E (''file://'' @ sr) uuid (PDict [(?b, PDict (bitmap_payload ?b info sock))]))" for info sock
    unfolding save_cbt_metadata_def mkdir_p_def Let_def
    by (intro emits_intros) (auto simp: captures_state_def saved_state_def file_uri_def)
  then have save: "emits ?A (bind (export_bitmap E q ?b) (\<lambda>payload.
      save_cbt_metadata E (''file://'' @ sr) uuid (PDict [(?b, PDict payload)])))" for q
    by (intro emits_bind_value [OF export spec_export_payload]) auto
  have freeze: "emits ?A (freeze_bitmap E q n g)" "emits ?A (cbt_list_bitmaps E q)"
    "emits ?A (find_xenopsd_qemu_for_device E dev)" "emits ?A (load_metadata E k)" for q n g dev k
    unfolding qemu_op_defs Let_def by (intro emits_intros; simp)+
  show ?thesis
    unfolding cbt_capture_at_snapshot_def Let_def
    by (intro emits_intros freeze save)
qed

definition has_saved :: "'w env \<Rightarrow> string \<Rightarrow> pyval \<Rightarrow> bool" where
  "has_saved E f v \<longleftrightarrow> e_has_qemudisk E \<and> (\<forall>w. fst (e_fs_bool E (Exists f) w) = Inr True) \<and>
     (\<forall>w. fst (e_fs_read E f w) = Inr v)"

lemma raises_perform: "(\<And>w. fst (f w) = Inl e) \<Longrightarrow> fst (perform c code f s) = Inl e"
  by (simp add: perform_def case_prod_beta)

lemma returns_saved: "has_saved E (cbt_metadata_path uri key) v \<Longrightarrow> returns (load_cbt_metadata E uri key) v"
  unfolding load_cbt_metadata_def Let_def path_exists_def read_pickle_def has_saved_def
  by (rule returns_bind [where x = True]) (auto intro: returns_perform)

lemma saved_granularity:
  "0 < g \<Longrightarrow> dget_or info ''granularity'' DEFAULT_GRANULARITY = PInt g \<Longrightarrow>
   granularities (saved_state bm info sock) = [g]"
  by (simp add: granularities_def saved_state_def bitmap_payload_def export_payload_def granularity_of_def
      dget_or_def [of "[_, _, _, _]"] List.map_filter_def)

lemma returns_granularity:
  assumes "has_saved E (cbt_metadata_path uri key) (saved_state bm info sock)" and "0 < g"
    and "dget_or info ''granularity'' DEFAULT_GRANULARITY = PInt g"
  shows "returns (resolve_changed_blocks_granularity E uri key) g"
  using assms returns_bind [OF returns_saved [OF assms(1)], of "\<lambda>multi. ret (max_or DEFAULT_CBT_GRANULARITY (granularities multi))" g]
  by (simp add: resolve_changed_blocks_granularity_def has_saved_def max_or_def returns_ret saved_granularity)

lemma extract_payload:
  "extract_dirty_extents E (PDict (bitmap_payload bm info sock)) =
     nbd_fetch E sock (''cbt_'' @ bm) (''qemu:dirty-bitmap:'' @ bm)"
  by (simp add: extract_dirty_extents_def bitmap_payload_def export_payload_def dget_or_def as_dict_def
      desc_field_def dget_def of_option_def as_str_def bind_def ret_def)

lemma returns_extract_for:
  assumes "has_saved E (cbt_metadata_path uri key) (saved_state bm info sock)"
    and one: "returns (catch (bind (extract_dirty_extents E (PDict (bitmap_payload bm info sock))) (\<lambda>x. ret [(bm, x)]))
      (\<lambda>_. ret [])) found"
  shows "returns (extract_dirty_extents_for E uri key) found"
proof -
  from returns_bind [OF one, of "\<lambda>here. bind (extract_each E []) (\<lambda>later. ret (here @ later))" found]
  have "returns (extract_each E [(bm, PDict (bitmap_payload bm info sock))]) found"
    by (simp add: bind_def ret_def returns_def)
  then show ?thesis
    unfolding extract_dirty_extents_for_def
    by (intro returns_bind [OF returns_saved [OF assms(1)]]) (simp add: saved_state_def)
qed

lemma returns_changed_blocks:
  assumes saved: "has_saved E (cbt_metadata_path (file_uri sr) key2) (saved_state bm info sock)"
    and g: "0 < g" "dget_or info ''granularity'' DEFAULT_GRANULARITY = PInt g"
    and one: "returns (catch (bind (extract_dirty_extents E (PDict (bitmap_payload bm info sock))) (\<lambda>x. ret [(bm, x)]))
      (\<lambda>_. ret [])) found"
    and packed: "pack_extents_to_bitmap (union_extents found) off len g = Inr b64"
  shows "returns (list_changed_blocks E sr key key2 off len) [(''granularity'', PInt g), (''bitmap'', PStr b64)]"
proof -
  have "returns (catch (bind (extract_dirty_extents_for E (file_uri sr) key2) (\<lambda>x. ret (Some x))) (\<lambda>_. ret None))
      (Some found)"
    by (intro returns_catch) (rule returns_bind [OF returns_extract_for [OF saved one]], rule returns_ret)
  moreover have "returns (bind (resolve_changed_blocks_granularity E (file_uri sr) key2) (\<lambda>g.
      case pack_extents_to_bitmap (union_extents found) off len g of
        Inl e \<Rightarrow> raise e | Inr b64 \<Rightarrow> ret [(''granularity'', PInt g), (''bitmap'', PStr b64)]))
      [(''granularity'', PInt g), (''bitmap'', PStr b64)]"
    by (rule returns_bind [OF returns_granularity [OF saved g]]) (simp add: packed returns_ret)
  ultimately show ?thesis
    using saved unfolding list_changed_blocks_def
    by (auto simp: has_saved_def Let_def file_uri_def intro: returns_bind)
qed

text \<open>An extent of the driver meets a block of the bitmap when some byte of it is in the block.\<close>

lemma covers_overlaps:
  "(\<exists>e \<in> set (union_extents [(bm, exts)]). overlaps lo hi e) \<longleftrightarrow> (\<exists>x. covers exts x \<and> lo \<le> int x \<and> int x < hi)"
proof -
  have "overlaps lo hi (int eo, int el) \<longleftrightarrow> (\<exists>x. (eo \<le> x \<and> x < eo + el) \<and> lo \<le> int x \<and> int x < hi)" for eo el
  proof
    assume "overlaps lo hi (int eo, int el)"
    then obtain y where y: "int eo \<le> y" "y < int eo + int el" "lo \<le> y" "y < hi" by (auto simp: overlaps_iff)
    then have "y = int (nat y)" by simp
    with y show "\<exists>x. (eo \<le> x \<and> x < eo + el) \<and> lo \<le> int x \<and> int x < hi" by (intro exI [of _ "nat y"]) linarith
  qed (force simp: overlaps_iff)
  note one = this
  have "(\<exists>e \<in> set (union_extents [(bm, exts)]). overlaps lo hi e) \<longleftrightarrow>
      (\<exists>(eo, el) \<in> set exts. overlaps lo hi (int eo, int el))"
    by (force simp: union_extents_def)
  also have "\<dots> \<longleftrightarrow> (\<exists>x. covers exts x \<and> lo \<le> int x \<and> int x < hi)"
    unfolding one covers_def by blast
  finally show ?thesis .
qed

text \<open>
  C3. VDI.list_changed_blocks, when the state saved under the key of the newer snapshot is one
  bitmap's as the capture of a snapshot saves it (four entries, with any dirty count) and the
  NBD connection plays a conforming server's session, in any segments, answers the bitmap
  whose bit i is set exactly when the server has a dirty byte in block i of the range.
  Conforming is as for fetch_dirty_extents: one meta context, and each request answered for
  its whole range.
\<close>

theorem changed_blocks_exact:
  assumes "has_saved E (cbt_metadata_path (file_uri sr) key2) (saved_state bm info sock)" and "0 < g"
    and "dget_or info ''granularity'' DEFAULT_GRANULARITY = PInt g"
    and "\<And>w. fst (e_nbd_connect E sock w) = Inr (segs, fin)"
    and "conforming V dirty" and "concat segs = srv_session V" and "[] \<notin> set segs" and "0 \<le> len"
  shows "\<exists>bits. returns (list_changed_blocks E sr key key2 off len)
       [(''granularity'', PInt g), (''bitmap'', PStr (b64encode bits))] \<and>
     int (length bits) = (nblocks_of off len g + 7) div 8 \<and>
     (\<forall>i < 8 * length bits. bit_at bits i \<longleftrightarrow> int i < nblocks_of off len g \<and>
        (\<exists>x. dirty x \<and> aligned_start off g + int i * g \<le> int x \<and> int x < aligned_start off g + (int i + 1) * g))"
proof -
  from fetch_dirty [OF assms(5-7)] obtain exts k where
    f: "fetch_dirty_extents (''cbt_'' @ bm) (''qemu:dirty-bitmap:'' @ bm) \<lparr>inbox = segs, ending = fin, outbox = []\<rparr> = (Inr exts, k)"
    and dirty: "\<forall>x. covers exts x \<longleftrightarrow> dirty x" by blast
  have "returns (nbd_fetch E sock (''cbt_'' @ bm) (''qemu:dirty-bitmap:'' @ bm)) exts"
    unfolding nbd_fetch_def by (intro returns_bind [OF returns_perform [OF assms(4)]]) (simp only: prod.case f fst_conv sum.case returns_ret)
  then have one: "returns (catch (bind (extract_dirty_extents E (PDict (bitmap_payload bm info sock))) (\<lambda>x. ret [(bm, x)]))
      (\<lambda>_. ret [])) [(bm, exts)]"
    unfolding extract_payload by (intro returns_catch) (rule returns_bind, assumption, rule returns_ret)
  have "0 \<le> (nblocks_of off len g + 7) div 8" using nblocks_nonneg [OF assms(2,8), of off] by simp
  moreover obtain bits where b: "pack_extents_to_bitmap (union_extents [(bm, exts)]) off len g = Inr (b64encode bits)"
    "length bits = nat ((nblocks_of off len g + 7) div 8)"
    "\<forall>i < 8 * length bits. bit_at bits i \<longleftrightarrow> int i < nblocks_of off len g \<and>
        (\<exists>e \<in> set (union_extents [(bm, exts)]). overlaps (aligned_start off g + int i * g)
                               (aligned_start off g + (int i + 1) * g) e)"
    using pack_extents_ok [OF assms(2,8)] by metis
  ultimately show ?thesis
    using returns_changed_blocks [OF assms(1-3) one b(1)] dirty
    by (intro exI [of _ bits]) (simp add: covers_overlaps)
qed

definition sample_info :: pydict where
  "sample_info = [(''name'', PStr ''cbt-snap-1''), (''granularity'', PInt 65536), (''count'', PInt 1)]"

definition cbt_env :: "byte list list \<Rightarrow> unit env" where
  "cbt_env segs = bare_env\<lparr>e_has_qemudisk := True, e_fs_bool := \<lambda>_. returning True,
     e_fs_read := \<lambda>_. returning (saved_state ''cbt-snap-1'' sample_info ''s''),
     e_nbd_connect := \<lambda>_. returning (segs, None)\<rparr>"

lemma cbt_env_saved: "has_saved (cbt_env segs) f (saved_state ''cbt-snap-1'' sample_info ''s'')"
  by (simp add: has_saved_def cbt_env_def returning_def)

lemma sample_granularity: "dget_or sample_info ''granularity'' DEFAULT_GRANULARITY = PInt 65536"
  by (simp add: sample_info_def dget_or_def)

theorem changed_blocks_exact_witness:
  "\<exists>bits. returns (list_changed_blocks (cbt_env (map (\<lambda>b. [b]) sample_stream)) ''sr'' ''k'' ''k2'' 0 131072)
       [(''granularity'', PInt 65536), (''bitmap'', PStr (b64encode bits))] \<and>
     int (length bits) = (nblocks_of 0 131072 65536 + 7) div 8 \<and>
     (\<forall>i < 8 * length bits. bit_at bits i \<longleftrightarrow> int i < nblocks_of 0 131072 65536 \<and>
        (\<exists>x. sample_dirty x \<and> aligned_start 0 65536 + int i * 65536 \<le> int x \<and>
           int x < aligned_start 0 65536 + (int i + 1) * 65536))"
  by (rule changed_blocks_exact [OF cbt_env_saved _ sample_granularity _ sample_conforming sample_segs])
    (simp_all add: cbt_env_def returning_def)

text \<open>
  C22. When the NBD connection fails, VDI.list_changed_blocks, with the state of the bitmap
  saved as a capture saves it, still returns normally, with a bitmap of the full length that
  says that nothing changed.
\<close>

theorem changed_blocks_hides_failure:
  assumes "has_saved E (cbt_metadata_path (file_uri sr) key2) (saved_state bm info sock)" and "0 < g"
    and "dget_or info ''granularity'' DEFAULT_GRANULARITY = PInt g"
    and "\<And>w. \<exists>e. fst (e_nbd_connect E sock w) = Inl e" and "0 \<le> len"
  shows "\<exists>bits. returns (list_changed_blocks E sr key key2 off len)
       [(''granularity'', PInt g), (''bitmap'', PStr (b64encode bits))] \<and>
     int (length bits) = (nblocks_of off len g + 7) div 8 \<and>
     (\<forall>i < 8 * length bits. \<not> bit_at bits i)"
proof -
  obtain bits where b: "pack_extents_to_bitmap (union_extents []) off len g = Inr (b64encode bits)"
    "length bits = nat ((nblocks_of off len g + 7) div 8)" "\<forall>i < 8 * length bits. \<not> bit_at bits i"
    using pack_extents_ok [OF assms(2,5), of "[]" off] by (auto simp: union_extents_def)
  have fetch: "\<exists>e s'. nbd_fetch E sock ex mt s = (Inl e, s')" for s ex mt
    using assms(4) [of "world s"] by (auto simp: nbd_fetch_def bind_def perform_def split: prod.splits sum.splits)
  have "returns (catch (bind (extract_dirty_extents E (PDict (bitmap_payload bm info sock))) (\<lambda>x. ret [(bm, x)]))
      (\<lambda>_. ret [])) []"
    unfolding extract_payload
    using fetch by (auto simp: returns_def catch_def bind_def ret_def split: prod.splits sum.splits) (metis Pair_inject sum.distinct(1))+
  from returns_changed_blocks [OF assms(1-3) this b(1)] b(2,3) nblocks_nonneg [OF assms(2,5), of off]
  show ?thesis by (intro exI [of _ bits]) simp
qed

theorem changed_blocks_hides_failure_witness:
  "\<exists>bits. returns (list_changed_blocks (cbt_env []\<lparr>e_nbd_connect := \<lambda>_. failing\<rparr>) ''sr'' ''k'' ''k2'' 0 131072)
       [(''granularity'', PInt 65536), (''bitmap'', PStr (b64encode bits))] \<and>
     int (length bits) = (nblocks_of 0 131072 65536 + 7) div 8 \<and>
     (\<forall>i < 8 * length bits. \<not> bit_at bits i)"
  by (rule changed_blocks_hides_failure [where bm = "''cbt-snap-1''" and sock = "''s''" and info = sample_info])
    (simp_all add: has_saved_def cbt_env_def returning_def failing_def sample_granularity)

text \<open>Answering the query changes nothing.\<close>

theorem changed_blocks_quiet: "emits quiet (list_changed_blocks E sr key key2 off len)"
proof -
  have load: "emits quiet (load_cbt_metadata E uri k)" for uri k
    unfolding load_cbt_metadata_def Let_def by (intro emits_intros; simp add: quiet_simps)
  have fetch: "emits quiet (nbd_fetch E sock ex mt)" for sock ex mt
    unfolding nbd_fetch_def by (intro emits_intros; simp add: quiet_simps)
  have single: "emits quiet (extract_dirty_extents E p)" for p
    unfolding extract_dirty_extents_def desc_field_def Let_def by (intro emits_intros fetch)
  have each: "emits quiet (extract_each E d)" for d
  proof (induction d)
    case (Cons x d)
    then show ?case by (cases x) (auto intro!: emits_intros single)
  qed (simp add: emits_ret)
  have all: "emits quiet (extract_dirty_extents_for E uri k)" for uri k
    unfolding extract_dirty_extents_for_def
    by (intro emits_bind load) (auto intro: each emits_ret split: pyval.split)
  show ?thesis
    unfolding list_changed_blocks_def resolve_changed_blocks_granularity_def Let_def
    by (intro emits_intros all load)
qed

section \<open>Freezing, and the files\<close>

text \<open>
  Freezing makes its five bitmap commands in order and stops at the first that fails; no
  later command, the re-enabling included, is made after a failure.
\<close>

theorem freeze_in_order:
  "spec (freeze_bitmap E qd frozen g)
     (\<lambda>_ t. t = map (\<lambda>c. (c, Some 0)) (freeze_calls qd frozen g))
     (\<lambda>_ t. \<exists>k < 5. t = map (\<lambda>c. (c, Some 0)) (take k (freeze_calls qd frozen g)) @
                      [(freeze_calls qd frozen g ! k, None)])"
  by (rule spec_freeze_bitmap)

text \<open>
  The state of the bitmaps is written to a temporary file and renamed over the old one,
  in this order, so that a failure at any point leaves the old file whole.
\<close>

theorem cbt_state_replaced_whole:
  "spec (save_cbt_metadata E uri key v)
     (\<lambda>_ t. t = [(Fs (MakeDirs (cbt_metadata_dir uri)), Some 0),
                (Fs (WriteFile (cbt_metadata_path uri key @ ''.tmp'') v), Some 0),
                (Fs (Rename (cbt_metadata_path uri key @ ''.tmp'') (cbt_metadata_path uri key)), Some 0)])
     (\<lambda>_ t. \<exists>c. t = [(Fs (MakeDirs (cbt_metadata_dir uri)), None)] \<or>
        t = [(Fs (MakeDirs (cbt_metadata_dir uri)), Some 0),
             (Fs (WriteFile (cbt_metadata_path uri key @ ''.tmp'') v), None)] \<or>
        t = [(Fs (MakeDirs (cbt_metadata_dir uri)), Some 0),
             (Fs (WriteFile (cbt_metadata_path uri key @ ''.tmp'') v), Some 0),
             (Fs (Rename (cbt_metadata_path uri key @ ''.tmp'') (cbt_metadata_path uri key)), None)])"
  unfolding save_cbt_metadata_def mkdir_p_def fs_do_def Let_def
  by (intro spec_intros) auto

text \<open>A file store: what is written or moved to a path is what a later read of it gives.\<close>

definition file_store :: "'w env \<Rightarrow> ('w \<Rightarrow> string \<Rightarrow> pyval option) \<Rightarrow> bool" where
  "file_store E files \<longleftrightarrow> (\<forall>w.
     (\<forall>p. e_fs_bool E (Exists p) w = (Inr (files w p \<noteq> None), w)) \<and>
     (\<forall>p v. files w p = Some v \<longrightarrow> e_fs_read E p w = (Inr v, w)) \<and>
     (\<forall>p. \<exists>w'. e_fs_unit E (MakeDirs p) w = (Inr (), w') \<and> files w' = files w) \<and>
     (\<forall>p v. \<exists>w'. e_fs_unit E (WriteFile p v) w = (Inr (), w') \<and> files w' = (files w)(p \<mapsto> v)) \<and>
     (\<forall>p. \<exists>w'. e_fs_unit E (Unlink p) w = (Inr (), w') \<and> files w' = (files w)(p := None)) \<and>
     (\<forall>p q. files w p \<noteq> None \<longrightarrow>
        (\<exists>w'. e_fs_unit E (Rename p q) w = (Inr (), w') \<and> files w' = (files w)(p := None, q := files w p))))"

lemma perform_world: "f (world s) = (Inr x, w) \<Longrightarrow> \<exists>s'. perform c code f s = (Inr x, s') \<and> world s' = w"
  by (simp add: perform_def)

lemma file_ops:
  assumes "file_store E files"
  shows "\<exists>s'. fs_do E (MakeDirs p) s = (Inr (), s') \<and> files (world s') = files (world s)"
    and "\<exists>s'. fs_do E (WriteFile p v) s = (Inr (), s') \<and> files (world s') = (files (world s))(p \<mapsto> v)"
    and "\<exists>s'. fs_do E (Unlink p) s = (Inr (), s') \<and> files (world s') = (files (world s))(p := None)"
    and "files (world s) p \<noteq> None \<Longrightarrow> \<exists>s'. fs_do E (Rename p q) s = (Inr (), s') \<and>
           files (world s') = (files (world s))(p := None, q := files (world s) p)"
    and "\<exists>s'. path_exists E p s = (Inr (files (world s) p \<noteq> None), s') \<and> files (world s') = files (world s)"
    and "files (world s) p = Some v \<Longrightarrow> \<exists>s'. read_pickle E p s = (Inr v, s') \<and> files (world s') = files (world s)"
proof -
  note st = assms [unfolded file_store_def, rule_format, of "world s"]
  have via: "\<exists>w'. f (world s) = (Inr x, w') \<and> files w' = F \<Longrightarrow>
      \<exists>s'. perform c code f s = (Inr x, s') \<and> files (world s') = F" for c code x F and f :: "('a, 'b) ext"
    using perform_world by metis
  show "\<exists>s'. fs_do E (MakeDirs p) s = (Inr (), s') \<and> files (world s') = files (world s)"
    unfolding fs_do_def using st by (intro via) blast
  show "\<exists>s'. fs_do E (WriteFile p v) s = (Inr (), s') \<and> files (world s') = (files (world s))(p \<mapsto> v)"
    unfolding fs_do_def using st by (intro via) blast
  show "\<exists>s'. fs_do E (Unlink p) s = (Inr (), s') \<and> files (world s') = (files (world s))(p := None)"
    unfolding fs_do_def using st by (intro via) blast
  show "files (world s) p \<noteq> None \<Longrightarrow> \<exists>s'. fs_do E (Rename p q) s = (Inr (), s') \<and>
           files (world s') = (files (world s))(p := None, q := files (world s) p)"
    unfolding fs_do_def using st by (intro via) blast
  show "\<exists>s'. path_exists E p s = (Inr (files (world s) p \<noteq> None), s') \<and> files (world s') = files (world s)"
    unfolding path_exists_def using st perform_world by metis
  show "files (world s) p = Some v \<Longrightarrow> \<exists>s'. read_pickle E p s = (Inr v, s') \<and> files (world s') = files (world s)"
    unfolding read_pickle_def using st perform_world by metis
qed

text \<open>
  C23. The state of the bitmaps saved under a key is the state loaded under it.
\<close>

theorem cbt_state_roundtrip:
  assumes "file_store E files"
  shows "fst (bind (save_cbt_metadata E uri key v) (\<lambda>_. load_cbt_metadata E uri key) s) = Inr v"
proof -
  let ?f = "cbt_metadata_path uri key"
  note ops = file_ops [OF assms]
  from ops(1) [of "cbt_metadata_dir uri" s] obtain s1 where
    1: "fs_do E (MakeDirs (cbt_metadata_dir uri)) s = (Inr (), s1)" by blast
  from ops(2) [of "?f @ ''.tmp''" v s1] obtain s2 where
    2: "fs_do E (WriteFile (?f @ ''.tmp'') v) s1 = (Inr (), s2)" "files (world s2) (?f @ ''.tmp'') = Some v" by auto
  with ops(4) [of s2 "?f @ ''.tmp''" ?f] obtain s3 where
    3: "fs_do E (Rename (?f @ ''.tmp'') ?f) s2 = (Inr (), s3)" "files (world s3) ?f = Some v" by auto
  with ops(5) [of ?f s3] obtain s4 where
    4: "path_exists E ?f s3 = (Inr True, s4)" "files (world s4) ?f = Some v" by auto
  with ops(6) [of s4 ?f v] obtain s5 where 5: "read_pickle E ?f s4 = (Inr v, s5)" by blast
  show ?thesis
    using 1 2(1) 3(1) 4(1) 5
    by (simp add: save_cbt_metadata_def load_cbt_metadata_def mkdir_p_def bind_def andthen_def Let_def)
qed

definition mem_env :: "(string \<Rightarrow> pyval option) env" where
  "mem_env = any_env\<lparr>
     e_fs_bool := \<lambda>c fs. (Inr (case c of Exists p \<Rightarrow> fs p \<noteq> None | _ \<Rightarrow> False), fs),
     e_fs_read := \<lambda>p fs. (case fs p of Some v \<Rightarrow> Inr v | None \<Rightarrow> Inl PyOSError, fs),
     e_fs_unit := \<lambda>c fs. case c of MakeDirs _ \<Rightarrow> (Inr (), fs) | WriteFile p v \<Rightarrow> (Inr (), fs(p \<mapsto> v))
        | Unlink p \<Rightarrow> (Inr (), fs(p := None)) | Rename p q \<Rightarrow> (Inr (), fs(p := None, q := fs p))
        | _ \<Rightarrow> (Inl PyOSError, fs)\<rparr>"

lemma mem_env_store: "file_store mem_env (\<lambda>w. w)"
  by (simp add: file_store_def mem_env_def)

theorem cbt_state_roundtrip_witness:
  "fst (bind (save_cbt_metadata mem_env ''file:///sr'' ''k'' (PInt 7)) (\<lambda>_. load_cbt_metadata mem_env ''file:///sr'' ''k'')
     \<lparr>world = (\<lambda>_. None), libs = no_libs, trace = []\<rparr>) = Inr (PInt 7)"
  by (rule cbt_state_roundtrip [OF mem_env_store])

text \<open>
  Moving the state from its legacy key loses nothing: afterwards the key holds its own state,
  or the legacy one where it had none.
\<close>

theorem migration_keeps_state:
  assumes "file_store E files" and "cbt_metadata_path uri legacy \<noteq> cbt_metadata_path uri key"
    and "files (world s) (cbt_metadata_path uri legacy) = Some old"
  shows "fst (bind (migrate_legacy_cbt_metadata E uri legacy key) (\<lambda>_. load_cbt_metadata E uri key) s) =
     Inr (case files (world s) (cbt_metadata_path uri key) of None \<Rightarrow> old | Some current \<Rightarrow> current)"
proof -
  let ?o = "cbt_metadata_path uri legacy" and ?n = "cbt_metadata_path uri key"
  note ops = file_ops [OF assms(1)]
  from ops(5) [of ?o s] assms(3) obtain s1 where
    1: "path_exists E ?o s = (Inr True, s1)" "files (world s1) = files (world s)" by auto
  from ops(5) [of ?n s1] 1 obtain s2 where
    2: "path_exists E ?n s1 = (Inr (files (world s) ?n \<noteq> None), s2)" "files (world s2) = files (world s)" by auto
  show ?thesis
  proof (cases "files (world s) ?n")
    case None
    from ops(4) [of s2 ?o ?n] assms(3) 2 obtain s3 where
      3: "fs_do E (Rename ?o ?n) s2 = (Inr (), s3)" "files (world s3) ?n = Some old" by auto
    with ops(5) [of ?n s3] obtain s4 where 4: "path_exists E ?n s3 = (Inr True, s4)" "files (world s4) ?n = Some old" by auto
    with ops(6) [of s4 ?n old] obtain s5 where "read_pickle E ?n s4 = (Inr old, s5)" by blast
    with None 1(1) 2(1) 3(1) 4(1) show ?thesis
      by (simp add: migrate_legacy_cbt_metadata_def load_cbt_metadata_def bind_def andthen_def ret_def Let_def)
  next
    case (Some current)
    from ops(3) [of ?o s2] 2 Some assms(2) obtain s3 where
      3: "fs_do E (Unlink ?o) s2 = (Inr (), s3)" "files (world s3) ?n = Some current" by auto
    with ops(5) [of ?n s3] obtain s4 where 4: "path_exists E ?n s3 = (Inr True, s4)" "files (world s4) ?n = Some current" by auto
    with ops(6) [of s4 ?n current] obtain s5 where "read_pickle E ?n s4 = (Inr current, s5)" by blast
    with Some 1(1) 2(1) 3(1) 4(1) show ?thesis
      by (simp add: migrate_legacy_cbt_metadata_def load_cbt_metadata_def bind_def andthen_def ret_def Let_def)
  qed
qed

theorem migration_keeps_state_witness:
  "fst (bind (migrate_legacy_cbt_metadata mem_env ''file:///sr'' ''l'' ''k'') (\<lambda>_. load_cbt_metadata mem_env ''file:///sr'' ''k'')
     \<lparr>world = (\<lambda>_. Some (PInt 7)), libs = no_libs, trace = []\<rparr>) = Inr (PInt 7)"
proof -
  have "cbt_metadata_path ''file:///sr'' ''l'' \<noteq> cbt_metadata_path ''file:///sr'' ''k''" by code_simp
  from migration_keeps_state [OF mem_env_store this, of "\<lparr>world = (\<lambda>_. Some (PInt 7)), libs = no_libs, trace = []\<rparr>" "PInt 7"]
  show ?thesis by simp
qed

text \<open>
  The record of a qemu daemon is restored from its metadata in every field but two: the
  NBD server counts as running and the node has its default name.
\<close>

theorem daemon_record_roundtrip:
  "disk_of_metadata (metadata_of (QemuDiskRaw pid sock key dev nbd running node scm scm_sock)) =
     Inr ((QemuDiskRaw pid sock key dev nbd running node scm scm_sock)
       \<lparr>qd_nbd_server_running := True, qd_block_node_name := BLOCK_NODE_NAME\<rparr>)"
  by (rule metadata_roundtrip [OF nbd_sock_nonempty])

end
