(* ===== verification/SnapshotWindow.thy ===== *)
theory SnapshotWindow
  imports CbtCapture Samples
begin

text \<open>
  A snapshot of a running guest as a state machine: the driver's calls, in the order in which
  \<^verbatim>\<open>Volume.snapshot\<close> and \<^verbatim>\<open>_cbt_capture_at_snapshot\<close> make them, interleaved with the writes of the
  guest. qemu is a parameter with the documented meaning of its bitmap commands as hypotheses.
\<close>

section \<open>Bitmaps of a node\<close>

record tracked =
  tb_on :: bool
  tb_dirty :: "nat set"

definition dirty_in :: "tracked option \<Rightarrow> nat set" where
  "dirty_in b = (case b of None \<Rightarrow> {} | Some t \<Rightarrow> tb_dirty t)"

definition is_on :: "tracked option \<Rightarrow> bool" where
  "is_on b = (case b of None \<Rightarrow> False | Some t \<Rightarrow> tb_on t)"

definition touch :: "nat \<Rightarrow> tracked option \<Rightarrow> tracked option" where
  "touch blk b = map_option (\<lambda>t. if tb_on t then t\<lparr>tb_dirty := insert blk (tb_dirty t)\<rparr> else t) b"

lemma touch_simps [simp]:
  "dirty_in (touch blk b) = (if is_on b then insert blk (dirty_in b) else dirty_in b)"
  "is_on (touch blk b) = is_on b" "touch blk b = None \<longleftrightarrow> b = None"
  by (auto simp: touch_def dirty_in_def is_on_def split: option.splits)

lemma touch_Some [simp]: "(\<exists>t. touch blk b = Some t) \<longleftrightarrow> (\<exists>t. b = Some t)"
  by (auto simp: touch_def)

lemma is_on_None [simp]: "\<not> is_on None"
  by (simp add: is_on_def)

text \<open>
  What the manual of qemu says of the five commands on bitmaps that exist, of adding a new
  one, and of a write of the guest.
\<close>

definition bitmap_semantics ::
  "qemu_disk \<Rightarrow> (call \<Rightarrow> 'q \<Rightarrow> 'q) \<Rightarrow> (nat \<Rightarrow> 'q \<Rightarrow> 'q) \<Rightarrow> ('q \<Rightarrow> string \<Rightarrow> tracked option) \<Rightarrow> bool" where
  "bitmap_semantics qd eff guest view \<longleftrightarrow> (\<forall>q n t m u g blk.
     (view q n = Some t \<longrightarrow>
        view (eff (bitmap_call qd ''block-dirty-bitmap-disable'' n) q) = (view q)(n \<mapsto> t\<lparr>tb_on := False\<rparr>) \<and>
        view (eff (bitmap_call qd ''block-dirty-bitmap-enable'' n) q) = (view q)(n \<mapsto> t\<lparr>tb_on := True\<rparr>) \<and>
        view (eff (bitmap_call qd ''block-dirty-bitmap-clear'' n) q) = (view q)(n \<mapsto> t\<lparr>tb_dirty := {}\<rparr>) \<and>
        (view q m = Some u \<longrightarrow>
           view (eff (merge_call qd n m) q) = (view q)(n \<mapsto> t\<lparr>tb_dirty := tb_dirty t \<union> tb_dirty u\<rparr>))) \<and>
     (view q n = None \<longrightarrow> view (eff (add_call qd n g) q) = (view q)(n \<mapsto> \<lparr>tb_on = True, tb_dirty = {}\<rparr>)) \<and>
     view (guest blk q) = (\<lambda>n. touch blk (view q n)))"

section \<open>The machine\<close>

record 'q window =
  todo :: "call list"
  qemu :: 'q
  snapped :: bool
  before :: "nat set"
  after :: "nat set"

text \<open>The calls of the driver: the snapshot, the five of the capture, the first of the export.\<close>

definition window_calls :: "qemu_disk \<Rightarrow> string \<Rightarrow> string \<Rightarrow> pyval \<Rightarrow> call list" where
  "window_calls qd sn frozen g =
     LzcSnapshot sn # freeze_calls qd frozen g @ [bitmap_call qd ''block-dirty-bitmap-disable'' frozen]"

inductive wstep :: "(call \<Rightarrow> 'q \<Rightarrow> 'q) \<Rightarrow> (nat \<Rightarrow> 'q \<Rightarrow> 'q) \<Rightarrow> 'q window \<Rightarrow> 'q window \<Rightarrow> bool"
  for eff :: "call \<Rightarrow> 'q \<Rightarrow> 'q" and guest :: "nat \<Rightarrow> 'q \<Rightarrow> 'q" where
  write_before: "\<not> snapped w \<Longrightarrow>
     wstep eff guest w (w\<lparr>qemu := guest blk (qemu w), before := insert blk (before w)\<rparr>)"
| write_after: "snapped w \<Longrightarrow>
     wstep eff guest w (w\<lparr>qemu := guest blk (qemu w), after := insert blk (after w)\<rparr>)"
| snap: "todo w = LzcSnapshot sn # cs \<Longrightarrow> wstep eff guest w (w\<lparr>todo := cs, snapped := True\<rparr>)"
| command: "todo w = Qmp sock cmd args # cs \<Longrightarrow>
     wstep eff guest w (w\<lparr>todo := cs, qemu := eff (Qmp sock cmd args) (qemu w)\<rparr>)"

text \<open>
  It starts with the tracking bitmap on and holding the writes since it was last cleared, and
  no bitmap of the new name.
\<close>

definition wstart ::
  "qemu_disk \<Rightarrow> string \<Rightarrow> string \<Rightarrow> pyval \<Rightarrow> ('q \<Rightarrow> string \<Rightarrow> tracked option) \<Rightarrow> 'q window \<Rightarrow> bool" where
  "wstart qd sn frozen g view w \<longleftrightarrow> todo w = window_calls qd sn frozen g \<and> \<not> snapped w \<and> after w = {} \<and>
     is_on (view (qemu w) CBT_ACTIVE_BITMAP) \<and> dirty_in (view (qemu w) CBT_ACTIVE_BITMAP) = before w \<and>
     view (qemu w) frozen = None \<and> frozen \<noteq> CBT_ACTIVE_BITMAP"

inductive wreach :: "(call \<Rightarrow> 'q \<Rightarrow> 'q) \<Rightarrow> (nat \<Rightarrow> 'q \<Rightarrow> 'q) \<Rightarrow> 'q window \<Rightarrow> 'q window \<Rightarrow> bool"
  for eff guest w0 where
  wreach_start: "wreach eff guest w0 w0"
| wreach_step: "wreach eff guest w0 w \<Longrightarrow> wstep eff guest w w' \<Longrightarrow> wreach eff guest w0 w'"

section \<open>The invariant\<close>

text \<open>After \<open>k\<close> of the seven calls; equalities where the guest has not written since the snapshot.\<close>

definition window_ok ::
  "nat \<Rightarrow> string \<Rightarrow> ('q \<Rightarrow> string \<Rightarrow> tracked option) \<Rightarrow> 'q window \<Rightarrow> bool" where
  "window_ok k frozen view w \<longleftrightarrow>
     (let a = view (qemu w) CBT_ACTIVE_BITMAP; f = view (qemu w) frozen in
      frozen \<noteq> CBT_ACTIVE_BITMAP \<and>
      snapped w = (1 \<le> k) \<and> (k = 0 \<longrightarrow> after w = {}) \<and>
      a \<noteq> None \<and> is_on a = (k \<le> 1 \<or> 6 \<le> k) \<and>
      (f = None) = (k \<le> 2) \<and> is_on f = (3 \<le> k \<and> k \<le> 6) \<and>
      (k \<le> 4 \<longrightarrow> before w \<subseteq> dirty_in a) \<and> (4 \<le> k \<longrightarrow> before w \<subseteq> dirty_in f) \<and>
      (after w = {} \<longrightarrow> (k \<le> 4 \<longrightarrow> dirty_in a = before w) \<and> (k = 3 \<longrightarrow> dirty_in f = {}) \<and>
         (4 \<le> k \<longrightarrow> dirty_in f = before w) \<and> (5 \<le> k \<longrightarrow> dirty_in a = {})))"

definition in_window ::
  "qemu_disk \<Rightarrow> string \<Rightarrow> string \<Rightarrow> pyval \<Rightarrow> ('q \<Rightarrow> string \<Rightarrow> tracked option) \<Rightarrow> 'q window \<Rightarrow> bool" where
  "in_window qd sn frozen g view w \<longleftrightarrow>
     (\<exists>k \<le> 7. todo w = drop k (window_calls qd sn frozen g) \<and> window_ok k frozen view w)"

lemma window_ok_start: "wstart qd sn frozen g view w \<Longrightarrow> window_ok 0 frozen view w"
  unfolding wstart_def by (auto simp: window_ok_def is_on_def dirty_in_def split: option.splits)

lemma in_window_start: "wstart qd sn frozen g view w \<Longrightarrow> in_window qd sn frozen g view w"
  using window_ok_start [of qd sn frozen g view w] unfolding in_window_def wstart_def
  by (intro exI [of _ 0]) simp

lemma window_ok_write:
  assumes "bitmap_semantics qd eff guest view" and "window_ok k frozen view w"
  shows "\<not> snapped w \<Longrightarrow> window_ok k frozen view (w\<lparr>qemu := guest blk (qemu w), before := insert blk (before w)\<rparr>)"
    and "snapped w \<Longrightarrow> window_ok k frozen view (w\<lparr>qemu := guest blk (qemu w), after := insert blk (after w)\<rparr>)"
proof -
  have v: "view (guest blk (qemu w)) = (\<lambda>n. touch blk (view (qemu w) n))"
    using assms(1) unfolding bitmap_semantics_def by blast
  have "\<not> snapped w \<Longrightarrow> k = 0" using assms(2) by (simp add: window_ok_def Let_def)
  with assms(2) show "\<not> snapped w \<Longrightarrow>
      window_ok k frozen view (w\<lparr>qemu := guest blk (qemu w), before := insert blk (before w)\<rparr>)"
    by (simp add: window_ok_def Let_def v subset_insertI)
  have "snapped w \<Longrightarrow> 1 \<le> k" using assms(2) by (simp add: window_ok_def Let_def)
  with assms(2) show "snapped w \<Longrightarrow>
      window_ok k frozen view (w\<lparr>qemu := guest blk (qemu w), after := insert blk (after w)\<rparr>)"
    by (simp add: window_ok_def Let_def v subset_insertI2)
qed

lemma dirty_in_Some [simp]: "dirty_in (Some t) = tb_dirty t" "is_on (Some t) = tb_on t"
  by (simp_all add: dirty_in_def is_on_def)

lemma semantics_simps:
  assumes "bitmap_semantics qd eff guest view"
  shows "view q n = Some t \<Longrightarrow>
      view (eff (bitmap_call qd ''block-dirty-bitmap-disable'' n) q) = (view q)(n \<mapsto> t\<lparr>tb_on := False\<rparr>)"
    and "view q n = Some t \<Longrightarrow>
      view (eff (bitmap_call qd ''block-dirty-bitmap-enable'' n) q) = (view q)(n \<mapsto> t\<lparr>tb_on := True\<rparr>)"
    and "view q n = Some t \<Longrightarrow>
      view (eff (bitmap_call qd ''block-dirty-bitmap-clear'' n) q) = (view q)(n \<mapsto> t\<lparr>tb_dirty := {}\<rparr>)"
    and "view q n = Some t \<Longrightarrow> view q m = Some u \<Longrightarrow>
      view (eff (merge_call qd n m) q) = (view q)(n \<mapsto> t\<lparr>tb_dirty := tb_dirty t \<union> tb_dirty u\<rparr>)"
    and "view q n = None \<Longrightarrow> view (eff (add_call qd n g) q) = (view q)(n \<mapsto> \<lparr>tb_on = True, tb_dirty = {}\<rparr>)"
    and "view (guest blk q) = (\<lambda>n. touch blk (view q n))"
  using assms unfolding bitmap_semantics_def by blast+

text \<open>The commands of the capture that change the tracking bitmap, and those that change the frozen one.\<close>

lemma window_call_numerals:
  "window_calls qd sn frozen g ! Suc 0 = bitmap_call qd ''block-dirty-bitmap-disable'' CBT_ACTIVE_BITMAP"
  "window_calls qd sn frozen g ! 2 = add_call qd frozen g"
  "window_calls qd sn frozen g ! 3 = merge_call qd frozen CBT_ACTIVE_BITMAP"
  "window_calls qd sn frozen g ! 4 = bitmap_call qd ''block-dirty-bitmap-clear'' CBT_ACTIVE_BITMAP"
  "window_calls qd sn frozen g ! 5 = bitmap_call qd ''block-dirty-bitmap-enable'' CBT_ACTIVE_BITMAP"
  "window_calls qd sn frozen g ! 6 = bitmap_call qd ''block-dirty-bitmap-disable'' frozen"
  by (simp_all add: window_calls_def freeze_calls_def eval_nat_numeral)

lemma window_ok_named: "window_ok k frozen view w \<Longrightarrow> frozen \<noteq> CBT_ACTIVE_BITMAP"
  by (simp add: window_ok_def Let_def)

lemma window_ok_active:
  assumes "window_ok k frozen view w"
  obtains a where "view (qemu w) CBT_ACTIVE_BITMAP = Some a"
proof -
  have "view (qemu w) CBT_ACTIVE_BITMAP \<noteq> None" using assms by (simp add: window_ok_def Let_def)
  with that show thesis by blast
qed

lemma window_ok_frozen:
  assumes "window_ok k frozen view w" and "3 \<le> k"
  obtains f where "view (qemu w) frozen = Some f"
proof -
  have "view (qemu w) frozen \<noteq> None" using assms by (simp add: window_ok_def Let_def)
  with that show thesis by blast
qed

lemma active_command:
  assumes sem: "bitmap_semantics qd eff guest view" and ok: "window_ok k frozen view w" and "k \<in> {1, 4, 5}"
  shows "window_ok (Suc k) frozen view (w\<lparr>todo := cs, qemu := eff (window_calls qd sn frozen g ! k) (qemu w)\<rparr>)"
proof -
  obtain a where a: "view (qemu w) CBT_ACTIVE_BITMAP = Some a" using ok by (rule window_ok_active)
  note s = semantics_simps(1-3) [OF sem a] and ne = window_ok_named [OF ok] window_ok_named [OF ok, symmetric]
  consider "k = 1" | "k = 4" | "k = 5" using assms(3) by auto
  then show ?thesis
  proof cases
    case 1 with ok a show ?thesis by (simp add: window_call_numerals(1) s(1) ne window_ok_def Let_def)
  next
    case 2 with ok a show ?thesis by (auto simp: window_call_numerals(4) s(3) ne window_ok_def Let_def)
  next
    case 3 with ok a show ?thesis by (auto simp: window_call_numerals(5) s(2) ne window_ok_def Let_def)
  qed
qed

lemma frozen_command:
  assumes sem: "bitmap_semantics qd eff guest view" and ok: "window_ok k frozen view w" and "k \<in> {2, 3, 6}"
  shows "window_ok (Suc k) frozen view (w\<lparr>todo := cs, qemu := eff (window_calls qd sn frozen g ! k) (qemu w)\<rparr>)"
proof -
  obtain a where a: "view (qemu w) CBT_ACTIVE_BITMAP = Some a" using ok by (rule window_ok_active)
  note s = semantics_simps [OF sem] and ne = window_ok_named [OF ok] window_ok_named [OF ok, symmetric]
  show ?thesis
  proof (cases "k = 2")
    case True
    with ok have "view (qemu w) frozen = None" by (simp add: window_ok_def Let_def)
    with ok a True show ?thesis by (simp add: window_call_numerals(2) s(5) ne window_ok_def Let_def)
  next
    case False
    with assms(3) have k: "k = 3 \<or> k = 6" by blast
    then have "3 \<le> k" by auto
    then obtain f where f: "view (qemu w) frozen = Some f" by (rule window_ok_frozen [OF ok])
    from k ok a f show ?thesis
      by (elim disjE) (auto simp: window_call_numerals(3,6) s(4) [OF f a] s(1) [OF f] ne window_ok_def Let_def)
  qed
qed

lemma window_ok_command:
  assumes "bitmap_semantics qd eff guest view" and "window_ok k frozen view w"
    and k: "1 \<le> k" "k \<le> 6" and "c = window_calls qd sn frozen g ! k"
  shows "window_ok (Suc k) frozen view (w\<lparr>todo := cs, qemu := eff c (qemu w)\<rparr>)"
proof -
  have "k \<in> {1, 4, 5} \<or> k \<in> {2, 3, 6}" using k by auto
  then show ?thesis using assms active_command frozen_command by blast
qed

lemma window_ok_snap:
  assumes "window_ok 0 frozen view w"
  shows "window_ok 1 frozen view (w\<lparr>todo := cs, snapped := True\<rparr>)"
  using assms by (simp add: window_ok_def Let_def)

lemma window_calls_nth:
  "length (window_calls qd sn frozen g) = 7"
  "window_calls qd sn frozen g ! 0 = LzcSnapshot sn"
  by (simp_all add: window_calls_def freeze_calls_def)

lemma window_calls_qmp:
  assumes "0 < k" and "k < 7"
  shows "window_calls qd sn frozen g ! k \<noteq> LzcSnapshot sn'"
proof -
  obtain j where "k = Suc j" and "j < 6" using assms by (cases k) auto
  then have "window_calls qd sn frozen g ! k \<in> set (tl (window_calls qd sn frozen g))"
    using nth_mem [of j "tl (window_calls qd sn frozen g)"] by (simp add: nth_tl window_calls_nth)
  then show ?thesis
    by (auto simp: window_calls_def freeze_calls_def bitmap_call_def merge_call_def add_call_def)
qed

lemma in_window_step:
  assumes sem: "bitmap_semantics qd eff guest view" and inv: "in_window qd sn frozen g view w"
    and step: "wstep eff guest w w'"
  shows "in_window qd sn frozen g view w'"
proof -
  obtain k where k: "k \<le> 7" "todo w = drop k (window_calls qd sn frozen g)" and ok: "window_ok k frozen view w"
    using inv unfolding in_window_def by blast
  have next_call: "k < 7 \<and> c = window_calls qd sn frozen g ! k \<and> cs = drop (Suc k) (window_calls qd sn frozen g)"
    if "todo w = c # cs" for c cs
    using that k Cons_nth_drop_Suc [of k "window_calls qd sn frozen g"]
    by (cases "k < 7") (auto simp: window_calls_nth)
  from step show ?thesis
  proof (cases rule: wstep.cases)
    case (write_before blk)
    then show ?thesis using k window_ok_write(1) [OF sem ok] unfolding in_window_def by auto
  next
    case (write_after blk)
    then show ?thesis using k window_ok_write(2) [OF sem ok] unfolding in_window_def by auto
  next
    case (snap sn' cs)
    note n = next_call [OF snap(2)]
    have "k = 0"
    proof (rule ccontr)
      assume "k \<noteq> 0"
      then show False using n window_calls_qmp [of k qd sn frozen g sn'] by simp
    qed
    with snap n ok window_ok_snap [of frozen view w cs] show ?thesis
      unfolding in_window_def by (intro exI [of _ 1]) simp
  next
    case (command sock cmd args cs)
    note n = next_call [OF command(2)]
    then have "1 \<le> k" by (cases k) (auto simp: window_calls_nth)
    from window_ok_command [OF sem ok this] n command(1) show ?thesis
      unfolding in_window_def by (intro exI [of _ "Suc k"]) simp
  qed
qed

lemma in_window_reach:
  assumes "bitmap_semantics qd eff guest view" and "wstart qd sn frozen g view w0"
    and "wreach eff guest w0 w"
  shows "in_window qd sn frozen g view w"
  using assms(3)
proof induction
  case wreach_start
  show ?case by (rule in_window_start [OF assms(2)])
next
  case (wreach_step w w')
  show ?case by (rule in_window_step [OF assms(1) wreach_step.IH wreach_step.hyps(2)])
qed

lemma window_done:
  assumes "bitmap_semantics qd eff guest view" and "wstart qd sn frozen g view w0"
    and "wreach eff guest w0 w" and "todo w = []"
  shows "window_ok 7 frozen view w"
  using in_window_reach [OF assms(1-3)] assms(4) unfolding in_window_def
  by (auto simp: window_calls_nth)

end
