(* ===== verification/WindowProps.thy ===== *)
theory WindowProps
  imports SnapshotWindow
begin

text \<open>
  What the machine of SnapshotWindow shows: which writes the frozen bitmap records, that the
  driver can always finish, and that a write between the ZFS snapshot and the clearing of the
  tracking bitmap is recorded nowhere for the next interval.
\<close>

section \<open>Running the rest of the calls\<close>

lemma wreach_trans:
  assumes "wreach eff guest w1 w2"
  shows "wreach eff guest w0 w1 \<Longrightarrow> wreach eff guest w0 w2"
  using assms by induction (auto intro: wreach_step)

lemma clearing_leaves_nothing:
  assumes sem: "bitmap_semantics qd eff guest view" and ok: "window_ok k frozen view w"
    and k: "4 \<le> k" "k \<le> 6" and c: "c = window_calls qd sn frozen g ! k"
    and now: "k = 4 \<or> dirty_in (view (qemu w) CBT_ACTIVE_BITMAP) = {}"
  shows "dirty_in (view (eff c (qemu w)) CBT_ACTIVE_BITMAP) = {}"
proof -
  have ne: "frozen \<noteq> CBT_ACTIVE_BITMAP" "view (qemu w) CBT_ACTIVE_BITMAP \<noteq> None"
    using ok by (simp_all add: window_ok_def Let_def)
  then obtain a where a: "view (qemu w) CBT_ACTIVE_BITMAP = Some a" by blast
  note s = semantics_simps [OF sem]
  consider "k = 4" | "k = 5" | "k = 6" using k by linarith
  then show ?thesis
  proof cases
    case 1
    then show ?thesis using c s(3) [OF a] by (simp add: window_calls_def freeze_calls_def eval_nat_numeral)
  next
    case 2
    then show ?thesis using c now a s(2) [OF a]
      by (simp add: window_calls_def freeze_calls_def eval_nat_numeral)
  next
    case 3
    with ok obtain f where "view (qemu w) frozen = Some f" by (auto simp: window_ok_def Let_def)
    then show ?thesis using 3 c now a ne s(1) [of "qemu w" frozen f]
      by (simp add: window_calls_def freeze_calls_def eval_nat_numeral)
  qed
qed

lemma next_command:
  assumes "1 \<le> k" and "k < 7" and "todo w = drop k (window_calls qd sn frozen g)"
  shows "wstep eff guest w (w\<lparr>todo := drop (Suc k) (window_calls qd sn frozen g),
           qemu := eff (window_calls qd sn frozen g ! k) (qemu w)\<rparr>)"
proof -
  have "window_calls qd sn frozen g ! k \<in> set (tl (window_calls qd sn frozen g))"
    using assms nth_mem [of "k - 1" "tl (window_calls qd sn frozen g)"]
    by (simp add: nth_tl window_calls_nth)
  then obtain sock cmd args where c: "window_calls qd sn frozen g ! k = Qmp sock cmd args"
    by (auto simp: window_calls_def freeze_calls_def bitmap_call_def merge_call_def add_call_def)
  then show ?thesis
    using assms Cons_nth_drop_Suc [of k "window_calls qd sn frozen g"] wstep.command [of w sock cmd args]
    by (simp add: window_calls_nth)
qed

lemma run_commands:
  assumes sem: "bitmap_semantics qd eff guest view"
  shows "window_ok k frozen view w \<Longrightarrow> 1 \<le> k \<Longrightarrow> k \<le> 7 \<Longrightarrow>
     todo w = drop k (window_calls qd sn frozen g) \<Longrightarrow>
     k \<le> 4 \<or> dirty_in (view (qemu w) CBT_ACTIVE_BITMAP) = {} \<Longrightarrow>
     \<exists>w'. wreach eff guest w w' \<and> todo w' = [] \<and> after w' = after w \<and> before w' = before w \<and>
          dirty_in (view (qemu w') CBT_ACTIVE_BITMAP) = {}"
proof (induction "7 - k" arbitrary: k w)
  case 0
  then have "k = 7" by simp
  with 0 show ?case by (auto intro!: exI [of _ w] wreach_start simp: window_calls_nth)
next
  case (Suc n)
  then have k: "k < 7" by simp
  let ?c = "window_calls qd sn frozen g ! k"
  let ?w = "w\<lparr>todo := drop (Suc k) (window_calls qd sn frozen g), qemu := eff ?c (qemu w)\<rparr>"
  have ok: "window_ok (Suc k) frozen view ?w"
    using window_ok_command [OF sem Suc.prems(1)] Suc.prems k by simp
  have "Suc k \<le> 4 \<or> dirty_in (view (qemu ?w) CBT_ACTIVE_BITMAP) = {}"
    using clearing_leaves_nothing [OF sem Suc.prems(1) _ _ refl] Suc.prems(5) k by (cases "k \<le> 3") auto
  moreover have "n = 7 - Suc k" using Suc.hyps(2) by simp
  ultimately obtain w' where w': "wreach eff guest ?w w'" "todo w' = []" "after w' = after w" "before w' = before w"
      "dirty_in (view (qemu w') CBT_ACTIVE_BITMAP) = {}"
    using Suc.hyps(1) [of "Suc k" ?w] ok k by (simp add: Suc_le_eq) blast
  have "wstep eff guest w ?w" using next_command Suc.prems k by blast
  then have "wreach eff guest w ?w" using wreach_step [OF wreach_start] by blast
  with w' wreach_trans show ?case by blast
qed

lemma after_snapshot:
  assumes sem: "bitmap_semantics qd eff guest view" and ok: "window_ok 0 frozen view w"
    and todo: "todo w = window_calls qd sn frozen g"
  shows "\<exists>w1. wreach eff guest w w1 \<and> todo w1 = drop 1 (window_calls qd sn frozen g) \<and> after w1 = {} \<and>
           before w1 = before w \<and> window_ok 1 frozen view w1 \<and> snapped w1"
proof -
  let ?w1 = "w\<lparr>todo := drop 1 (window_calls qd sn frozen g), snapped := True\<rparr>"
  have "wstep eff guest w ?w1"
    using todo by (intro wstep.snap [of _ sn]) (simp add: window_calls_def)
  moreover have "after w = {}" using ok by (simp add: window_ok_def Let_def)
  ultimately show ?thesis
    using window_ok_snap [OF ok] wreach_step [OF wreach_start] by (intro exI [of _ ?w1]) auto
qed

lemma can_finish:
  assumes sem: "bitmap_semantics qd eff guest view" and inv: "in_window qd sn frozen g view w"
  shows "\<exists>w'. wreach eff guest w w' \<and> todo w' = [] \<and> after w' = after w \<and> before w' = before w"
proof -
  obtain k where k: "k \<le> 7" "todo w = drop k (window_calls qd sn frozen g)" and ok: "window_ok k frozen view w"
    using inv unfolding in_window_def by blast
  have finish: "\<exists>w'. wreach eff guest v w' \<and> todo w' = [] \<and> after w' = after v \<and> before w' = before v"
    if "window_ok j frozen view v" "1 \<le> j" "j \<le> 7" "todo v = drop j (window_calls qd sn frozen g)" for j v
    using that
  proof (induction "7 - j" arbitrary: j v)
    case 0
    then show ?case by (auto intro!: exI [of _ v] wreach_start simp: window_calls_nth)
  next
    case (Suc n)
    let ?v = "v\<lparr>todo := drop (Suc j) (window_calls qd sn frozen g),
                 qemu := eff (window_calls qd sn frozen g ! j) (qemu v)\<rparr>"
    have j: "j < 7" "n = 7 - Suc j" using Suc.hyps(2) by simp_all
    have "window_ok (Suc j) frozen view ?v" using window_ok_command [OF sem Suc.prems(1)] Suc.prems j by simp
    from Suc.hyps(1) [OF j(2) this] j obtain w' where
      w': "wreach eff guest ?v w'" "todo w' = []" "after w' = after v" "before w' = before v" by auto
    have "wreach eff guest v ?v" using next_command Suc.prems j wreach_step [OF wreach_start] by blast
    with w' wreach_trans show ?case by blast
  qed
  show ?thesis
  proof (cases "k = 0")
    case True
    with ok k have "window_ok 0 frozen view w" "todo w = window_calls qd sn frozen g" by simp_all
    from after_snapshot [OF sem this] obtain w1 where
      w1: "wreach eff guest w w1" "todo w1 = drop 1 (window_calls qd sn frozen g)"
        "after w1 = {}" "before w1 = before w" "window_ok 1 frozen view w1" by blast
    obtain w' where "wreach eff guest w1 w'" "todo w' = []" "after w' = after w1" "before w' = before w1"
      using finish [OF w1(5) _ _ w1(2)] by auto
    moreover have "after w = {}" using ok True by (simp add: window_ok_def Let_def)
    ultimately show ?thesis using w1 wreach_trans [of eff guest w1 w' w] by (intro exI [of _ w']) simp
  next
    case False
    with finish [OF ok] k show ?thesis by simp
  qed
qed

section \<open>A qemu with one node\<close>

text \<open>An instance of the hypotheses, on which the properties are evaluated.\<close>

definition str_arg :: "string \<Rightarrow> (string \<times> pyval) list \<Rightarrow> string" where
  "str_arg k args = (case map_of args k of Some (PStr s) \<Rightarrow> s | _ \<Rightarrow> [])"

definition merge_source :: "(string \<times> pyval) list \<Rightarrow> string" where
  "merge_source args = (case map_of args ''bitmaps'' of Some (PList [PDict d]) \<Rightarrow> str_arg ''name'' d | _ \<Rightarrow> [])"

definition node_eff :: "call \<Rightarrow> (string \<Rightarrow> tracked option) \<Rightarrow> (string \<Rightarrow> tracked option)" where
  "node_eff c q =
     (case c of
        Qmp sock cmd args \<Rightarrow>
          (let n = str_arg ''name'' args; t = str_arg ''target'' args in
           if cmd = ''block-dirty-bitmap-disable'' then q(n := map_option (tb_on_update (\<lambda>_. False)) (q n))
           else if cmd = ''block-dirty-bitmap-enable'' then q(n := map_option (tb_on_update (\<lambda>_. True)) (q n))
           else if cmd = ''block-dirty-bitmap-clear'' then q(n := map_option (tb_dirty_update (\<lambda>_. {})) (q n))
           else if cmd = ''block-dirty-bitmap-add'' then q(n \<mapsto> \<lparr>tb_on = True, tb_dirty = {}\<rparr>)
           else if cmd = ''block-dirty-bitmap-merge''
             then q(t := map_option (\<lambda>u. u\<lparr>tb_dirty := tb_dirty u \<union> dirty_in (q (merge_source args))\<rparr>) (q t))
           else q)
      | _ \<Rightarrow> q)"

definition node_write :: "nat \<Rightarrow> (string \<Rightarrow> tracked option) \<Rightarrow> (string \<Rightarrow> tracked option)" where
  "node_write blk q = (\<lambda>n. touch blk (q n))"

lemma node_semantics: "bitmap_semantics qd node_eff node_write (\<lambda>q. q)"
  unfolding bitmap_semantics_def node_write_def
  by (simp add: node_eff_def bitmap_call_def merge_call_def add_call_def str_arg_def merge_source_def)

definition demo_disk :: qemu_disk where
  "demo_disk = \<lparr>qd_pid = PInt 7, qd_qmp_sock = ''/q'', qd_key = PStr ''k'', qd_device_path = PNone,
     qd_nbd_unix_sock = ''/n'', qd_nbd_server_running = False, qd_block_node_name = ''d'',
     qd_scm_proxy_pid = PNone, qd_scm_sock_path = PNone\<rparr>"

definition demo_window :: "(string \<Rightarrow> tracked option) window" where
  "demo_window = \<lparr>todo = window_calls demo_disk ''p@s'' ''cbt-snap-s'' (PInt 65536),
     qemu = Map.empty(CBT_ACTIVE_BITMAP \<mapsto> \<lparr>tb_on = True, tb_dirty = {4}\<rparr>), snapped = False,
     before = {4}, after = {}\<rparr>"

lemma demo_start: "wstart demo_disk ''p@s'' ''cbt-snap-s'' (PInt 65536) (\<lambda>q. q) demo_window"
  by (simp add: wstart_def demo_window_def CBT_ACTIVE_BITMAP_def)

lemma demo_finish:
  "\<exists>w. wreach node_eff node_write demo_window w \<and> todo w = [] \<and> after w = {} \<and> before w = {4}"
  using can_finish [OF node_semantics in_window_start [OF demo_start]] by (simp add: demo_window_def)

section \<open>What the capture records\<close>

text \<open>
  C6. In every interleaving of the guest's writes with the calls of a snapshot and its
  capture, the frozen bitmap ends up off and recording every write made before the ZFS
  snapshot, and the tracking bitmap is on again.
\<close>

theorem frozen_covers_interval:
  assumes "bitmap_semantics qd eff guest view" and "wstart qd sn frozen g view w0"
    and "wreach eff guest w0 w" and "todo w = []"
  shows "before w \<subseteq> dirty_in (view (qemu w) frozen) \<and> \<not> is_on (view (qemu w) frozen) \<and>
         is_on (view (qemu w) CBT_ACTIVE_BITMAP)"
  using window_done [OF assms] by (simp add: window_ok_def Let_def)

theorem frozen_covers_interval_witness:
  "\<exists>w. wreach node_eff node_write demo_window w \<and> todo w = [] \<and> {4} \<subseteq> dirty_in (qemu w ''cbt-snap-s'')"
  using demo_finish frozen_covers_interval [OF node_semantics demo_start] by metis

text \<open>
  C7. When the guest does not write between the ZFS snapshot and the end of the capture, the
  capture implements an atomic snapshot of the bitmap: the frozen bitmap records exactly the
  writes before it and the tracking bitmap starts empty.
\<close>

theorem quiet_window_exact:
  assumes "bitmap_semantics qd eff guest view" and "wstart qd sn frozen g view w0"
    and "wreach eff guest w0 w" and "todo w = []" and "after w = {}"
  shows "dirty_in (view (qemu w) frozen) = before w \<and> dirty_in (view (qemu w) CBT_ACTIVE_BITMAP) = {}"
  using window_done [OF assms(1-4)] assms(5) by (simp add: window_ok_def Let_def)

theorem quiet_window_exact_witness:
  "\<exists>w. wreach node_eff node_write demo_window w \<and> todo w = [] \<and> dirty_in (qemu w ''cbt-snap-s'') = {4}"
  using demo_finish quiet_window_exact [OF node_semantics demo_start] by metis

text \<open>
  C9. For every qemu with the documented commands there is a run in which the guest writes a
  block after the ZFS snapshot and, at the end of the capture, the tracking bitmap does not
  record it, so the increment since this snapshot misses the block.
\<close>

theorem late_write_lost:
  assumes sem: "bitmap_semantics qd eff guest view" and start: "wstart qd sn frozen g view w0"
  shows "\<exists>w. wreach eff guest w0 w \<and> todo w = [] \<and> after w = {blk} \<and>
             dirty_in (view (qemu w) CBT_ACTIVE_BITMAP) = {}"
proof -
  have todo: "todo w0 = window_calls qd sn frozen g" using start by (simp add: wstart_def)
  have ok: "window_ok 0 frozen view w0" by (rule window_ok_start [OF start])
  from after_snapshot [OF sem ok todo] obtain w1 where
    w1: "wreach eff guest w0 w1" "todo w1 = drop 1 (window_calls qd sn frozen g)" "after w1 = {}"
      "window_ok 1 frozen view w1" "snapped w1" by blast
  let ?w2 = "w1\<lparr>qemu := guest blk (qemu w1), after := insert blk (after w1)\<rparr>"
  have w2: "window_ok 1 frozen view ?w2" by (rule window_ok_write(2) [OF sem w1(4,5)])
  have "wreach eff guest w0 ?w2" by (rule wreach_step [OF w1(1) write_after [OF w1(5)]])
  moreover obtain w where "wreach eff guest ?w2 w" "todo w = []" "after w = {blk}"
      "dirty_in (view (qemu w) CBT_ACTIVE_BITMAP) = {}"
    using run_commands [OF sem w2, of sn g] w1(2,3) by auto
  ultimately show ?thesis using wreach_trans [of eff guest ?w2 w w0] by (intro exI [of _ w]) simp
qed

theorem late_write_lost_witness:
  "\<exists>w. wreach node_eff node_write demo_window w \<and> todo w = [] \<and> after w = {9} \<and>
       dirty_in (qemu w ''cbt-active'') = {}"
  using late_write_lost [OF node_semantics demo_start, of 9] unfolding CBT_ACTIVE_BITMAP_def by blast

end
