(* ===== verification/WindowOrder.thy ===== *)
theory WindowOrder
  imports VolumeProps WindowProps
begin

text \<open>
  Where the window of calls comes from: the bitmap commands that the whole \<^verbatim>\<open>Volume.snapshot\<close> sends are a
  beginning of the window, sent only after the ZFS snapshot they belong to.
\<close>

section \<open>The bitmap commands of a run\<close>

definition bitmap_command :: "event \<Rightarrow> bool" where
  "bitmap_command e = (case fst e of Qmp _ cmd _ \<Rightarrow> startswith cmd ''block-dirty-bitmap-'' | _ \<Rightarrow> False)"

text \<open>The commands sent are a beginning of the window, and each but the last succeeded.\<close>

definition in_window_order :: "string \<Rightarrow> string \<Rightarrow> event list \<Rightarrow> bool" where
  "in_window_order sn frozen t \<longleftrightarrow>
     (\<exists>qd g. prefix (LzcSnapshot sn # map fst (filter bitmap_command t)) (window_calls qd sn frozen g)) \<and>
     (\<forall>e \<in> set (butlast (filter bitmap_command t)). snd e = Some 0)"

text \<open>The bitmap is frozen under the name of the new snapshot, after the snapshot was taken.\<close>

definition follows_for :: "string \<Rightarrow> string \<Rightarrow> event list \<Rightarrow> bool" where
  "follows_for ds uuid t \<longleftrightarrow> (\<exists>parent. let sn = format_snap_name ds parent uuid in
     guards (did [at_snapshot sn]) bitmap_command t \<and> in_window_order sn (CBT_SNAPSHOT_BITMAP_PREFIX @ uuid) t)"

definition follows_window :: "event list \<Rightarrow> bool" where
  "follows_window t \<longleftrightarrow> (\<exists>ds uuid. follows_for ds uuid t)"

lemma bitmap_command_simps [simp]:
  "\<not> bitmap_command (Fs c, r)" "\<not> bitmap_command (Db opq d, r)"
  "\<not> bitmap_command (LockEnter opq n, r)" "\<not> bitmap_command (LockExit opq ok, r)"
  "\<not> bitmap_command (DbEnter opq, r)" "\<not> bitmap_command (DbExit opq ok, r)"
  "bitmap_command (Qmp sock cmd args, r) \<longleftrightarrow> startswith cmd ''block-dirty-bitmap-''"
  by (simp_all add: bitmap_command_def)

lemma inspects_no_command: "inspects e \<Longrightarrow> \<not> bitmap_command e"
  by (auto simp: inspects_def quiet_simps bitmap_command_def split: call.splits)

lemma admin_no_command: "admin e \<Longrightarrow> \<not> bitmap_command e"
  by (auto simp: admin_def bitmap_command_def split: call.splits)

lemma no_commands: "\<forall>e \<in> set t. \<not> bitmap_command e \<Longrightarrow> filter bitmap_command t = []"
  by (simp add: filter_empty_conv)

text \<open>A condition on runs that looks only at the events of \<open>P\<close>.\<close>

definition framed :: "(event \<Rightarrow> bool) \<Rightarrow> (event list \<Rightarrow> bool) \<Rightarrow> bool" where
  "framed P F \<longleftrightarrow> (\<forall>t. (\<forall>e \<in> set t. \<not> P e) \<longrightarrow> F t) \<and>
     (\<forall>a t b. (\<forall>e \<in> set (a @ b). \<not> P e) \<longrightarrow> F t \<longrightarrow> F (a @ t @ b))"

definition keeps :: "(event list \<Rightarrow> bool) \<Rightarrow> ('w, 'a) prog \<Rightarrow> bool" where
  "keeps F m \<longleftrightarrow> spec m (\<lambda>_ t. F t) (\<lambda>_ t. F t)"

lemma framedD:
  assumes "framed P F"
  shows "\<forall>e \<in> set t. \<not> P e \<Longrightarrow> F t" and "\<forall>e \<in> set a. \<not> P e \<Longrightarrow> \<forall>e \<in> set b. \<not> P e \<Longrightarrow> F t \<Longrightarrow> F (a @ t @ b)"
    and "\<forall>e \<in> set a. \<not> P e \<Longrightarrow> F t \<Longrightarrow> F (a @ t)" and "\<forall>e \<in> set b. \<not> P e \<Longrightarrow> F t \<Longrightarrow> F (t @ b)"
proof -
  show both: "F (a @ t @ b)" if "\<forall>e \<in> set a. \<not> P e" "\<forall>e \<in> set b. \<not> P e" "F t" for a b t
    using assms that unfolding framed_def by (metis Un_iff set_append)
  show "\<forall>e \<in> set t. \<not> P e \<Longrightarrow> F t" using assms by (simp add: framed_def)
  show "\<forall>e \<in> set a. \<not> P e \<Longrightarrow> F t \<Longrightarrow> F (a @ t)" using both [of a "[]" t] by simp
  show "\<forall>e \<in> set b. \<not> P e \<Longrightarrow> F t \<Longrightarrow> F (t @ b)" using both [of "[]" b t] by simp
qed

lemma keeps_never: "framed P F \<Longrightarrow> never P m \<Longrightarrow> keeps F m"
  unfolding keeps_def never_def emits_def by (erule spec_mono) (rule framedD(1), assumption+)+

lemma keeps_later:
  assumes "framed P F" and "never P m" and "\<And>x. keeps F (f x)"
  shows "keeps F (bind m f)"
  unfolding keeps_def
  by (intro spec_bind spec_mono [OF assms(2) [unfolded never_def emits_def]] spec_mono [OF assms(3) [unfolded keeps_def]])
    (auto intro: framedD [OF assms(1)])

lemma keeps_end:
  assumes "framed P F" and "keeps F m" and "\<And>x. never P (f x)"
  shows "keeps F (bind m f)"
  unfolding keeps_def
  by (intro spec_bind spec_mono [OF assms(2) [unfolded keeps_def]] spec_mono [OF assms(3) [unfolded never_def emits_def]])
    (auto intro: framedD [OF assms(1)])

lemma keeps_ctx:
  assumes "framed P F" and "never P enter" and "\<And>c ok. never P (leave c ok)" and "\<And>c. keeps F (body c)"
  shows "keeps F (with_ctx enter leave body)"
  unfolding keeps_def
  by (intro spec_with_ctx spec_mono [OF assms(2) [unfolded never_def emits_def]]
      spec_mono [OF assms(4) [unfolded keeps_def]] spec_mono [OF assms(3) [unfolded never_def emits_def]])
    (auto intro: framedD [OF assms(1)])

lemma framed_in_window_order: "framed bitmap_command (in_window_order sn fr)"
  by (auto simp: framed_def in_window_order_def window_calls_def filter_empty_conv)

lemmas order_keeps = keeps_later [OF framed_in_window_order] keeps_never [OF framed_in_window_order]

section \<open>The capture\<close>

lemma no_command_first [emits_intros]: "emits (\<lambda>e. \<not> bitmap_command e) (first_socket E dev socks)"
  by (induction socks) (auto simp: qemu_op_defs startswith_def intro!: emits_intros)

lemma never_capture_reads:
  "never bitmap_command (load_metadata E k)" "never bitmap_command (find_xenopsd_qemu_for_device E dev)"
  "never bitmap_command (cbt_list_bitmaps E q)" "never bitmap_command (save_cbt_metadata E uri k v)"
  "never bitmap_command (cbt_export_bitmap E q n)"
  unfolding never_def qemu_op_defs Let_def by (intro emits_intros; simp add: startswith_def)+

text \<open>After the five commands of the freeze comes the one that turns the frozen bitmap off.\<close>

lemma spec_frozen_off:
  "spec (export_bitmap E q fr)
     (\<lambda>_ t. filter bitmap_command t = [(bitmap_call q ''block-dirty-bitmap-disable'' fr, Some 0)])
     (\<lambda>_ t. \<exists>r. filter bitmap_command t = [(bitmap_call q ''block-dirty-bitmap-disable'' fr, r)])"
proof -
  have off: "spec (cbt_bitmap_disable E q fr)
      (\<lambda>_ t. t = [(bitmap_call q ''block-dirty-bitmap-disable'' fr, Some 0)])
      (\<lambda>_ t. t = [(bitmap_call q ''block-dirty-bitmap-disable'' fr, None)])"
    unfolding cbt_bitmap_disable_def on_bitmap_def bitmap_call_def by (intro spec_intros) simp_all
  have cmd: "bitmap_command (bitmap_call q ''block-dirty-bitmap-disable'' fr, r)" for r
    by (simp add: bitmap_call_def startswith_def)
  have rest: "never bitmap_command (bind (bind (bind (cbt_list_bitmaps E q) (find_bitmap fr))
        (of_option (QMPError (''export_bitmap: bitmap '' @ fr @ '' not found''))))
      (\<lambda>info. bind (cbt_export_bitmap E q fr) (\<lambda>nbd. ret (export_payload fr info nbd))))"
    by (intro never_intros never_capture_reads) (auto simp: never_def intro!: emits_intros)
  have eq: "export_bitmap E q fr = bind (cbt_bitmap_disable E q fr) (\<lambda>_.
      bind (bind (bind (cbt_list_bitmaps E q) (find_bitmap fr))
        (of_option (QMPError (''export_bitmap: bitmap '' @ fr @ '' not found''))))
      (\<lambda>info. bind (cbt_export_bitmap E q fr) (\<lambda>nbd. ret (export_payload fr info nbd))))"
    by (simp add: export_bitmap_def frozen_info_def andthen_def bind_assoc)
  show ?thesis
    unfolding eq
    by (rule spec_bind, rule spec_mono [OF off], rule spec_mono [OF rest [unfolded never_def emits_def]])
      (auto simp: cmd no_commands)
qed

lemma freeze_calls_commands: "c \<in> set (freeze_calls q fr g) \<Longrightarrow> bitmap_command (c, r)"
  by (auto simp: freeze_calls_def bitmap_call_def add_call_def merge_call_def startswith_def)

lemma spec_freeze_and_export:
  fixes E :: "'w env"
  assumes "\<And>p. never bitmap_command (f p :: ('w, 'a) prog)"
  shows "keeps (in_window_order sn fr) (andthen (freeze_bitmap E q fr g) (bind (export_bitmap E q fr) f))"
proof -
  let ?calls = "freeze_calls q fr g" and ?off = "bitmap_call q ''block-dirty-bitmap-disable'' fr"
  have all: "filter bitmap_command (map (\<lambda>c. (c, Some 0)) ?calls) = map (\<lambda>c. (c, Some 0)) ?calls"
    using freeze_calls_commands [of _ q fr g] by (auto simp: filter_id_conv)
  have some: "in_window_order sn fr (map (\<lambda>c. (c, Some 0)) (take k ?calls) @ [(?calls ! k, None)])" if "k < 5" for k
  proof -
    have len: "length ?calls = 5" by (simp add: freeze_calls_def)
    with that have "filter bitmap_command (map (\<lambda>c. (c, Some 0)) (take k ?calls) @ [(?calls ! k, None)])
        = map (\<lambda>c. (c, Some 0)) (take k ?calls) @ [(?calls ! k, None)]"
      using freeze_calls_commands [of _ q fr g] by (auto simp: filter_id_conv dest: in_set_takeD)
    moreover have "take k ?calls @ [?calls ! k] = take (Suc k) ?calls"
      using that len by (simp add: take_Suc_conv_app_nth)
    ultimately show ?thesis
      unfolding in_window_order_def window_calls_def
      by (auto simp: comp_def butlast_append prefix_def) (metis append.assoc append_take_drop_id)
  qed
  have done_all: "in_window_order sn fr (map (\<lambda>c. (c, Some 0)) ?calls @ u)"
    if "filter bitmap_command u = [(?off, r)]" for u r
    using that by (auto simp: in_window_order_def all window_calls_def comp_def butlast_append)
  have rest: "spec (bind (export_bitmap E q fr) f) (\<lambda>_ u. \<exists>r. filter bitmap_command u = [(?off, r)])
      (\<lambda>_ u. \<exists>r. filter bitmap_command u = [(?off, r)])"
    by (rule spec_bind, rule spec_mono [OF spec_frozen_off])
      (auto intro!: spec_mono [OF assms [unfolded never_def emits_def]] simp: no_commands)
  show ?thesis
    unfolding keeps_def
    by (rule spec_andthen, rule spec_mono [OF spec_freeze_bitmap], rule spec_mono [OF rest])
      (auto intro: some done_all)
qed

lemma capture_keeps_order:
  "keeps (in_window_order sn (CBT_SNAPSHOT_BITMAP_PREFIX @ u)) (cbt_capture_at_snapshot E sr ds p u)"
proof -
  have find: "never bitmap_command (bind (load_metadata E k) (\<lambda>qd. case qd of Some q \<Rightarrow> ret (Some q)
      | None \<Rightarrow> if e_has_datapath E then find_xenopsd_qemu_for_device E dev else ret None))" for k dev
    by (intro never_intros never_capture_reads)
  have active: "never bitmap_command (bind (cbt_list_bitmaps E q) (find_bitmap n))" for q n
    by (intro never_intros never_capture_reads) (auto simp: never_def intro!: emits_intros)
  have body: "keeps (in_window_order sn fr) (case qd of None \<Rightarrow> ret () | Some q \<Rightarrow>
      bind (bind (cbt_list_bitmaps E q) (find_bitmap CBT_ACTIVE_BITMAP)) (\<lambda>active. case active of None \<Rightarrow> ret ()
        | Some bm \<Rightarrow> andthen (freeze_bitmap E q fr (dget_or bm ''granularity'' DEFAULT_GRANULARITY))
            (bind (export_bitmap E q fr) (\<lambda>payload. save_cbt_metadata E uri u (PDict [(fr, PDict payload)])))))"
    for qd fr uri
    by (auto split: option.split intro!: order_keeps(2) [OF never_ret] order_keeps(1) [OF active]
        spec_freeze_and_export never_capture_reads)
  show ?thesis
    unfolding cbt_capture_at_snapshot_def Let_def
    by (cases "e_has_qemudisk E") (simp_all only: not_True_eq_False not_False_eq_True if_True if_False
        order_keeps(2) [OF never_ret] order_keeps(1) [OF find body])
qed

section \<open>The whole snapshot\<close>

lemma no_commands_here:
  "never bitmap_command (get_sr_metadata E uri)" "never bitmap_command (getVolumeUriPrefix E opq)"
  "never bitmap_command (uuid4 E)" "never bitmap_command (the_vdi E opq key)"
  "never bitmap_command (recover_vdi_vsize E opq ds v)" "never bitmap_command (get_format E it)"
  "never bitmap_command (sr_dataset_of meta)" "never bitmap_command (snapshot_parent E opq v)"
  "never bitmap_command (insert_child_volume E opq p vs sn)" "never bitmap_command (get_zvol_used_bytes E vol)"
  "never bitmap_command (db_unit E opq c)"
  unfolding never_def snapshot_parent_def
  by (intro emits_intros inspect_mono_intros; auto dest: inspects_no_command)+

lemma storage_no_commands:
  "never bitmap_command (take_snapshot E sn)" "never bitmap_command (clone_snapshot E sn cl)"
  "never bitmap_command (vol_set_property E z n w)"
  unfolding never_def
  by (intro emits_intros; auto simp: bitmap_command_def at_snapshot_def at_clone_def at_set_def dest: inspects_no_command)+

text \<open>The database part takes the snapshot that the bitmap is frozen for.\<close>

abbreviation snapped_for :: "string \<Rightarrow> string \<Rightarrow> string \<Rightarrow> event list \<Rightarrow> bool" where
  "snapped_for ds parent uuid t \<equiv> did [at_snapshot (format_snap_name ds parent uuid)] t \<and> (\<forall>e \<in> set t. \<not> bitmap_command e)"

lemma snapped_later:
  assumes "never bitmap_command m"
    and "\<And>x. spec (f x) (\<lambda>(v, fmt, parent, sn) t. snapped_for ds parent uuid t) (\<lambda>_ t. \<forall>e \<in> set t. \<not> bitmap_command e)"
  shows "spec (bind m f) (\<lambda>(v, fmt, parent, sn) t. snapped_for ds parent uuid t) (\<lambda>_ t. \<forall>e \<in> set t. \<not> bitmap_command e)"
  by (intro spec_bind spec_mono [OF assms(1) [unfolded never_def emits_def]] spec_mono [OF assms(2)])
    (auto intro: did_before)

lemma spec_body_snapped:
  "spec (snapshot_body E opq ds key uuid)
     (\<lambda>(v, fmt, parent, sn) t. snapped_for ds parent uuid t) (\<lambda>_ t. \<forall>e \<in> set t. \<not> bitmap_command e)"
proof -
  have taken: "spec (take_snapshot E sn) (\<lambda>_ t. did [at_snapshot sn] t \<and> (\<forall>e \<in> set t. \<not> bitmap_command e))
      (\<lambda>_ t. \<forall>e \<in> set t. \<not> bitmap_command e)" for sn
    using spec_emits_conj [OF spec_take_snapshot storage_no_commands(1) [unfolded never_def]]
    by (rule spec_mono) (auto intro: did_acted)
  have rest: "never bitmap_command (andthen (clone_snapshot E sn cl)
      (andthen (vol_set_property E cl ''readonly'' ''on'') (db_unit E opq c)))" for sn cl c
    by (intro never_intros storage_no_commands no_commands_here)
  have stored: "spec (andthen (take_snapshot E (format_snap_name ds parent uuid))
        (andthen (clone_snapshot E (format_snap_name ds parent uuid) cl)
          (andthen (vol_set_property E cl ''readonly'' ''on'')
            (andthen (db_unit E opq c) (ret (v, fmt, parent, sn'))))))
      (\<lambda>(v, fmt, parent, sn) t. snapped_for ds parent uuid t) (\<lambda>_ t. \<forall>e \<in> set t. \<not> bitmap_command e)"
    for parent cl c v fmt sn'
  proof -
    have "spec (andthen (take_snapshot E (format_snap_name ds parent uuid))
        (bind (andthen (clone_snapshot E (format_snap_name ds parent uuid) cl)
          (andthen (vol_set_property E cl ''readonly'' ''on'') (db_unit E opq c))) (\<lambda>_. ret (v, fmt, parent, sn'))))
      (\<lambda>(v, fmt, parent, sn) t. snapped_for ds parent uuid t) (\<lambda>_ t. \<forall>e \<in> set t. \<not> bitmap_command e)"
      by (intro spec_andthen spec_bind spec_mono [OF taken] spec_mono [OF rest [unfolded never_def emits_def]])
        (auto intro!: spec_ret did_after)
    then show ?thesis by (simp add: andthen_def bind_assoc)
  qed
  show ?thesis
    unfolding snapshot_body_def Let_def
    by (intro snapped_later no_commands_here spec_prod_case stored)
qed

lemma framed_follows: "framed bitmap_command (follows_for ds uuid)"
proof -
  have "guards (did C) bitmap_command (a @ t @ b)"
    if "\<forall>e \<in> set (a @ b). \<not> bitmap_command e" "guards (did C) bitmap_command t" for a b t C
    using that by (auto simp: guards_append intro: guards_none guards_from_none guards_from_guards did_before)
  then show ?thesis
    using framed_in_window_order unfolding framed_def follows_for_def Let_def by (blast intro: guards_none)
qed

lemma keeps_after_body:
  assumes "spec m (\<lambda>(v, fmt, parent, sn) t. snapped_for ds parent uuid t) (\<lambda>_ t. \<forall>e \<in> set t. \<not> bitmap_command e)"
    and "\<And>v fmt parent sn. keeps (in_window_order (format_snap_name ds parent uuid) (CBT_SNAPSHOT_BITMAP_PREFIX @ uuid)) (f (v, fmt, parent, sn))"
  shows "keeps (follows_for ds uuid) (bind m f)"
  unfolding keeps_def
proof (rule spec_bind, rule spec_mono [OF assms(1)])
  fix r :: "'b \<times> 'c \<times> char list \<times> 'd" and t
  obtain v fmt parent sn where r: "r = (v, fmt, parent, sn)" by (cases r rule: prod_cases4)
  assume "(\<lambda>(v, fmt, parent, sn) t. snapped_for ds parent uuid t) r t"
  then have t: "snapped_for ds parent uuid t" by (simp add: r)
  have "follows_for ds uuid (t @ u)"
    if "in_window_order (format_snap_name ds parent uuid) (CBT_SNAPSHOT_BITMAP_PREFIX @ uuid) u" for u
    unfolding follows_for_def Let_def guards_append
    using t that by (intro exI [of _ parent])
      (simp add: guards_none guards_from_ready lasting_did framedD(3) [OF framed_in_window_order])
  then show "spec (f r) (\<lambda>_ u. follows_for ds uuid (t @ u)) (\<lambda>_ u. follows_for ds uuid (t @ u))"
    unfolding r by (intro spec_mono [OF assms(2) [unfolded keeps_def]])
qed (rule framedD(1) [OF framed_follows])

lemma keeps_caught: "keeps F m \<Longrightarrow> keeps F (catch m (\<lambda>_. ret ()))"
  unfolding keeps_def by (intro spec_catch) (erule spec_mono; auto intro: spec_ret)

lemma locked_snapped:
  "spec (with_locked_db E opq (snapshot_body E opq ds key uuid))
     (\<lambda>(v, fmt, parent, sn) t. snapped_for ds parent uuid t) (\<lambda>_ t. \<forall>e \<in> set t. \<not> bitmap_command e)"
  unfolding with_locked_db_def
  by (rule spec_mono [OF spec_with_poll_lock [OF spec_with_db [OF spec_body_snapped]]])
    (auto intro!: did_Cons_event did_after)

text \<open>
  C10. The bitmap commands that Volume.snapshot sends, on every path, are a beginning of the
  window of the invariants above (disable, add, merge, clear, enable, and turning the frozen
  bitmap off), each but the last successful, on the bitmap named after the new snapshot and
  only after the ZFS snapshot of that name has been taken.
\<close>

theorem snapshot_follows_window:
  "spec (snapshot E sr key) (\<lambda>_ t. follows_window t) (\<lambda>_ t. follows_window t)"
proof -
  have prefix_read: "never bitmap_command (bind (getVolumeUriPrefix E opq) (\<lambda>pre. ret (y pre)))" for opq y
    by (intro never_intros no_commands_here)
  have after: "keeps (in_window_order sn (CBT_SNAPSHOT_BITMAP_PREFIX @ uuid))
      (andthen (catch (cbt_capture_at_snapshot E sr ds parent uuid) (\<lambda>_. ret ()))
        (bind (getVolumeUriPrefix E opq) (\<lambda>pre. ret (y pre))))" for sn uuid ds parent opq y
    unfolding andthen_def
    by (rule keeps_end [OF framed_in_window_order keeps_caught [OF capture_keeps_order] prefix_read])
  have ctx: "keeps (follows_for ds uuid) (with_volume_context E sr ''w'' (\<lambda>opq.
        bind (with_locked_db E opq (snapshot_body E opq ds key uuid)) (\<lambda>(v, fmt, parent, sn).
        andthen (catch (cbt_capture_at_snapshot E sr ds parent uuid) (\<lambda>_. ret ()))
          (bind (getVolumeUriPrefix E opq) (\<lambda>pre. ret (v, fmt @ pre @ uuid, sn))))))" for ds uuid
    unfolding with_volume_context_def
    by (intro keeps_ctx [OF framed_follows] keeps_after_body [OF locked_snapped])
      (auto intro!: after emits_call0 simp: never_def admin_no_command admin_def)
  have used: "never bitmap_command (case r of (v, uri, sn) \<Rightarrow>
        bind (get_zvol_used_bytes E sn) (\<lambda>used. ret (info_of v u False used uri)))" for r u
    by (cases r rule: prod_cases3) (simp only: prod.case, intro never_intros no_commands_here)
  have whole: "keeps (follows_for ds uuid) m \<Longrightarrow> keeps follows_window m" for ds uuid m
    unfolding keeps_def by (erule spec_mono) (auto simp: follows_window_def)
  have all: "framed bitmap_command follows_window"
    using framed_follows unfolding framed_def follows_window_def by blast
  show ?thesis
    unfolding keeps_def [symmetric] snapshot_def
    by (rule keeps_later [OF all], rule no_commands_here)+ (rule whole keeps_end [OF framed_follows] ctx used)+
qed

end
