(* ===== verification/QemuProcess.thy ===== *)
theory QemuProcess
  imports QemuDisk ZfsRun
begin

text \<open>
  The processes behind the datapath: spawning a qemu-storage-daemon and ending it with its
  SCM proxy (\<^verbatim>\<open>create\<close>, \<^verbatim>\<open>quit\<close> and \<^verbatim>\<open>stop_scm_proxy\<close> of \<^verbatim>\<open>src/src/datapath/qemudisk_raw.py\<close>),
  and \<^verbatim>\<open>start_scm_daemon\<close> of \<^verbatim>\<open>src/src/datapath/nbd_proxy.py\<close> on the parent's side of the fork.
\<close>

section \<open>Signals\<close>

definition SIGKILL :: int where "SIGKILL = 9"
definition SIGTERM :: int where "SIGTERM = 15"

definition is_OSError :: "exn \<Rightarrow> bool" where
  "is_OSError e \<longleftrightarrow> e = PyOSError"

text \<open>A pid is unpickled: \<^verbatim>\<open>os.kill\<close> of anything but an integer raises TypeError.\<close>

definition kill_pid :: "'w env \<Rightarrow> pyval \<Rightarrow> int \<Rightarrow> ('w, unit) prog" where
  "kill_pid E pid sig = (case pid of PInt p \<Rightarrow> os_kill E p sig | _ \<Rightarrow> raise PyTypeError)"

text \<open>
  \<^verbatim>\<open>for _ in range(n): try: kill 0; sleep / except OSError: break\<close>; the result tells whether the
  loop was left by its \<^verbatim>\<open>break\<close>.
\<close>

fun wait_gone :: "'w env \<Rightarrow> pyval \<Rightarrow> nat \<Rightarrow> ('w, bool) prog" where
  "wait_gone E pid 0 = ret False"
| "wait_gone E pid (Suc n) =
     bind (catch_if is_OSError
             (andthen (kill_pid E pid 0) (andthen (sleep E (1 / 10)) (ret False)))
             (\<lambda>_. ret True))
       (\<lambda>gone. if gone then ret True else wait_gone E pid n)"

section \<open>Ending a daemon\<close>

definition unlink_quietly :: "'w env \<Rightarrow> string \<Rightarrow> ('w, unit) prog" where
  "unlink_quietly E p = catch_if is_OSError (fs_do E (Unlink p)) (\<lambda>_. ret ())"

definition stop_scm_proxy :: "'w env \<Rightarrow> qemu_disk \<Rightarrow> ('w, qemu_disk) prog" where
  "stop_scm_proxy E qd =
     (if qd_scm_proxy_pid qd = PNone then ret qd
      else
        andthen
          (catch_if is_OSError
            (andthen (kill_pid E (qd_scm_proxy_pid qd) SIGTERM)
              (bind (wait_gone E (qd_scm_proxy_pid qd) 20) (\<lambda>gone.
                 only_if (\<not> gone) (kill_pid E (qd_scm_proxy_pid qd) SIGKILL))))
            (\<lambda>_. ret ()))
          (andthen
            (if py_truth (qd_scm_sock_path qd)
             then bind (as_str (qd_scm_sock_path qd)) (unlink_quietly E) else ret ())
            (ret (qd\<lparr>qd_scm_proxy_pid := PNone, qd_scm_sock_path := PNone\<rparr>))))"

definition quit :: "'w env \<Rightarrow> qemu_disk \<Rightarrow> ('w, unit) prog" where
  "quit E qd =
     (if qd_pid qd = PNone then raise (QMPError ''quit() called on a connect_existing() instance'')
      else
        bind (stop_scm_proxy E qd) (\<lambda>qd'.
        andthen
          (catch (qmp_do E qd' ''quit'' [])
            (\<lambda>_. catch_if is_OSError (kill_pid E (qd_pid qd') SIGKILL) (\<lambda>_. ret ())))
          (andthen (wait_gone E (qd_pid qd') 20) (ret ()))))"

section \<open>Spawning a daemon\<close>

definition QEMU_STORAGE_DAEMON :: string where
  "QEMU_STORAGE_DAEMON = ''/usr/lib64/qemu-dp/bin/qemu-storage-daemon''"
definition QEMU_DP_CGROUP_BLKIO :: string where "QEMU_DP_CGROUP_BLKIO = ''blkio:/vm.slice/''"
definition QEMU_DP_CGROUP_CPU :: string where "QEMU_DP_CGROUP_CPU = ''cpu,cpuacct:/''"

definition socket_dir :: string where "socket_dir = ''/var/run/nonpersistent/qemu-dp-raw''"

definition set_cgroup :: "'w env \<Rightarrow> int \<Rightarrow> string \<Rightarrow> ('w, unit) prog" where
  "set_cgroup E pid cgroup =
     (case split1 CHR '':'' cgroup of
        [cgroup_type, _] \<Rightarrow>
          let cgroup_file = ''/sys/fs/cgroup/'' @ cgroup_type @ ''/cgroup.procs'' in
          bind (path_exists E cgroup_file) (\<lambda>ex.
            only_if ex (fs_do E (WriteFile cgroup_file (PStr (str_int pid)))))
      | _ \<Rightarrow> raise PyValueError)"

definition read_text :: "'w env \<Rightarrow> string \<Rightarrow> ('w, string) prog" where
  "read_text E p = bind (read_pickle E p) as_str"

fun read_pidfile :: "'w env \<Rightarrow> string \<Rightarrow> nat \<Rightarrow> ('w, int) prog" where
  "read_pidfile E p 0 = raise (RuntimeError ''qemu-storage-daemon pidfile not found'')"
| "read_pidfile E p (Suc n) =
     bind (catch_if (\<lambda>e. is_OSError e \<or> e = PyValueError)
             (bind (read_text E p) (\<lambda>s. bind (parse_int s) (\<lambda>i. ret (Some i))))
             (\<lambda>_. andthen (sleep E (1 / 10)) (ret None)))
       (\<lambda>r. case r of Some i \<Rightarrow> ret i | None \<Rightarrow> read_pidfile E p n)"

definition daemon_cmd :: "string \<Rightarrow> string \<Rightarrow> string \<Rightarrow> string \<Rightarrow> string list" where
  "daemon_cmd pidfile qmp_sock nbd_sock dev =
     [QEMU_STORAGE_DAEMON, ''--daemonize'', ''--pidfile'', pidfile,
      ''--chardev'', ''socket,id=qmp,path='' @ qmp_sock @ '',server=on,wait=off'',
      ''--monitor'', ''chardev=qmp'',
      ''--blockdev'', ''driver=host_device,filename='' @ dev @
        '',aio=native,cache.direct=on,node-name='' @ BLOCK_NODE_NAME,
      ''--nbd-server'', ''addr.type=unix,addr.path='' @ nbd_sock,
      ''--export'', ''type=nbd,id=exp1,node-name='' @ BLOCK_NODE_NAME @ '',writable=on,name='' @ BLOCK_NODE_NAME]"

definition create_daemon :: "'w env \<Rightarrow> string \<Rightarrow> string \<Rightarrow> ('w, qemu_disk) prog" where
  "create_daemon E key dev =
     (let qmp_sock = path_join socket_dir (''qmp_sock.'' @ key);
          nbd_sock = path_join socket_dir (''qemu-nbd.'' @ key);
          pidfile = path_join socket_dir (''pid.'' @ key) in
      andthen (mkdir_p E socket_dir)
        (bind (popen E (daemon_cmd pidfile qmp_sock nbd_sock dev)) (\<lambda>(out, err, rc).
           if rc \<noteq> 0 then raise (RuntimeError (''qemu-storage-daemon failed to start: '' @ out @ '' '' @ err))
           else
             bind (read_pidfile E pidfile 50) (\<lambda>pid.
             andthen
               (catch (andthen (set_cgroup E pid QEMU_DP_CGROUP_BLKIO) (set_cgroup E pid QEMU_DP_CGROUP_CPU))
                 (\<lambda>_. ret ()))
               (ret (QemuDiskRaw (PInt pid) qmp_sock (PStr key) (PStr dev) (Some nbd_sock) True None
                       PNone PNone))))))"

section \<open>The SCM proxy\<close>

text \<open>\<^verbatim>\<open>Listen\<close> is the creation, bind and listen of the socket; \<^verbatim>\<open>Fork\<close> gives the pid of the child.\<close>

definition start_scm_daemon :: "'w env \<Rightarrow> string \<Rightarrow> string \<Rightarrow> ('w, int) prog" where
  "start_scm_daemon E scm_path nbd_target =
     andthen (unlink_quietly E scm_path)
       (andthen (call0 (Listen scm_path) (e_listen E scm_path))
         (call0 (Fork scm_path nbd_target) (e_fork E scm_path nbd_target)))"

section \<open>Waiting is bounded\<close>

lemma wait_gone_polls:
  "spec (wait_gone E pid n)
     (\<lambda>gone t. length t \<le> 2 * n \<and> (\<not> gone \<longrightarrow> length t = 2 * n) \<and>
        (gone \<longrightarrow> (\<exists>p. pid = PInt p)) \<and> list_all (\<lambda>e. fst e = Sleep (1 / 10) \<or> (\<exists>p. fst e = Kill p 0)) t)
     (\<lambda>_ t. length t \<le> 2 * n \<and> list_all (\<lambda>e. fst e = Sleep (1 / 10) \<or> (\<exists>p. fst e = Kill p 0)) t)"
proof (induction n)
  case 0
  show ?case by (auto intro: spec_ret)
next
  case (Suc n)
  show ?case
    unfolding wait_gone.simps
  proof (cases pid)
    case (PInt p)
    note ih = Suc.IH [unfolded PInt]
    show "spec (bind (catch_if is_OSError (andthen (kill_pid E pid 0) (andthen (sleep E (1 / 10)) (ret False)))
          (\<lambda>_. ret True)) (\<lambda>gone. if gone then ret True else wait_gone E pid n))
       (\<lambda>gone t. length t \<le> 2 * Suc n \<and> (\<not> gone \<longrightarrow> length t = 2 * Suc n) \<and>
          (gone \<longrightarrow> (\<exists>p. pid = PInt p)) \<and> list_all (\<lambda>e. fst e = Sleep (1 / 10) \<or> (\<exists>p. fst e = Kill p 0)) t)
       (\<lambda>_ t. length t \<le> 2 * Suc n \<and> list_all (\<lambda>e. fst e = Sleep (1 / 10) \<or> (\<exists>p. fst e = Kill p 0)) t)"
      unfolding PInt kill_pid_def os_kill_def sleep_def
      by (auto simp: is_OSError_def intro!: spec_intros spec_mono [OF ih])
  qed (auto simp: kill_pid_def is_OSError_def intro!: spec_intros)
qed

end
