(* ===== verification/Datapath.thy ===== *)
theory Datapath
  imports CbtCapture QemuProcess
begin

text \<open>
  \<^verbatim>\<open>src/src/datapath/datapath.py\<close>: the datapath plugin. One definition per method of
  \<^verbatim>\<open>Implementation\<close> and per helper; logging is left out. Under Python 2 a \<^verbatim>\<open>str\<close> is what
  \<^verbatim>\<open>subprocess\<close> returns, so \<^verbatim>\<open>decode\<close> is the identity.
\<close>

section \<open>Features of a zvol\<close>

definition ZVOL_DEV_PREFIX :: string where "ZVOL_DEV_PREFIX = ''/dev/zvol/''"

definition zfs_get_property :: "'w env \<Rightarrow> string \<Rightarrow> string \<Rightarrow> ('w, string option) prog" where
  "zfs_get_property E zvol_path p =
     bind (popen E [''zfs'', ''get'', ''-Hp'', ''-o'', ''value'', p, zvol_path]) (\<lambda>(out, err, rc).
       ret (if rc \<noteq> 0 then None else Some (py_strip out)))"

definition read_size :: "'w env \<Rightarrow> string \<Rightarrow> ('w, int option) prog" where
  "read_size E p =
     bind (path_exists E p) (\<lambda>ex.
       if \<not> ex then ret None
       else bind (read_text E p) (\<lambda>s. bind (parse_int s) (\<lambda>i. ret (Some i))))"

definition get_block_device_sectors :: "'w env \<Rightarrow> string \<Rightarrow> ('w, int option \<times> int option) prog" where
  "get_block_device_sectors E dev =
     (let queue = ''/sys/block/'' @ path_basename (e_realpath E dev) @ ''/queue'' in
      catch
        (bind (read_size E (path_join queue ''logical_block_size'')) (\<lambda>logical.
         bind (read_size E (path_join queue ''physical_block_size'')) (\<lambda>physical.
         ret (logical, physical))))
        (\<lambda>_. ret (None, None)))"

text \<open>The statements of the \<^verbatim>\<open>try\<close> block; what was set before one raises stays set.\<close>

fun feature_steps :: "(pydict \<Rightarrow> ('w, pydict) prog) list \<Rightarrow> pydict \<Rightarrow> ('w, pydict) prog" where
  "feature_steps [] feats = ret feats"
| "feature_steps (step # steps) feats =
     bind (catch (bind (step feats) (\<lambda>f. ret (Some f))) (\<lambda>_. ret None)) (\<lambda>r.
       case r of None \<Rightarrow> ret feats | Some f \<Rightarrow> feature_steps steps f)"

definition provisioning_feature :: "'w env \<Rightarrow> string \<Rightarrow> pydict \<Rightarrow> ('w, pydict) prog" where
  "provisioning_feature E zvol_path feats =
     bind (zfs_get_property E zvol_path ''refreservation'') (\<lambda>r.
       case r of
         None \<Rightarrow> ret feats
       | Some s \<Rightarrow>
           bind (if s \<in> {''0'', ''none'', ''-'', ''''} then ret 0 else parse_int s) (\<lambda>n.
             ret (dset ''provisioning'' (PStr (if n > 0 then ''thick'' else ''thin''))
                   (dset ''discard'' (PBool (\<not> n > 0)) feats))))"

definition volblocksize_feature :: "'w env \<Rightarrow> string \<Rightarrow> pydict \<Rightarrow> ('w, pydict) prog" where
  "volblocksize_feature E zvol_path feats =
     bind (zfs_get_property E zvol_path ''volblocksize'') (\<lambda>r.
       case r of None \<Rightarrow> ret feats
       | Some s \<Rightarrow> bind (parse_int s) (\<lambda>n. ret (dset ''volblocksize'' (PInt n) feats)))"

definition set_if :: "string \<Rightarrow> pyval option \<Rightarrow> pydict \<Rightarrow> pydict" where
  "set_if k v d = (case v of None \<Rightarrow> d | Some x \<Rightarrow> dset k x d)"

definition sector_feature :: "'w env \<Rightarrow> string \<Rightarrow> pydict \<Rightarrow> ('w, pydict) prog" where
  "sector_feature E dev feats =
     bind (get_block_device_sectors E dev) (\<lambda>(logical, physical).
       ret (set_if ''physical_sector_size'' (map_option PInt physical)
             (set_if ''logical_sector_size'' (map_option PInt logical) feats)))"

definition info_feature :: "'w env \<Rightarrow> string \<Rightarrow> string \<Rightarrow> pydict \<Rightarrow> ('w, pydict) prog" where
  "info_feature E zvol_path p feats =
     bind (zfs_get_property E zvol_path p) (\<lambda>v. ret (set_if p (map_option PStr v) feats))"

definition get_zvol_features :: "'w env \<Rightarrow> string \<Rightarrow> ('w, pydict) prog" where
  "get_zvol_features E dev =
     (if \<not> startswith dev ZVOL_DEV_PREFIX then ret []
      else
        let zvol_path = drop (length ZVOL_DEV_PREFIX) dev in
        feature_steps
          [provisioning_feature E zvol_path, volblocksize_feature E zvol_path, sector_feature E dev,
           info_feature E zvol_path ''copies'', info_feature E zvol_path ''compression''] [])"

section \<open>URIs\<close>

definition URI_SCHEME :: string where "URI_SCHEME = ''raw+qdisk://''"

text \<open>\<^verbatim>\<open>path.index("/dev/")\<close>, split into what is before and the rest.\<close>

fun split_dev :: "string \<Rightarrow> (string \<times> string) option" where
  "split_dev [] = None"
| "split_dev (c # cs) =
     (if startswith (c # cs) ''/dev/'' then Some ([], c # cs)
      else map_option (\<lambda>(a, b). (c # a, b)) (split_dev cs))"

definition parse_uri :: "string \<Rightarrow> exn + (string \<times> string)" where
  "parse_uri uri =
     (if \<not> startswith uri URI_SCHEME then Inl PyValueError
      else case split_dev (drop (length URI_SCHEME) uri) of
             None \<Rightarrow> Inl PyValueError
           | Some (sr, dev) \<Rightarrow> Inr (rstrip_if (\<lambda>c. c = CHR ''/'') sr, dev))"

definition vdi_uuid_from_device_path :: "string \<Rightarrow> string" where
  "vdi_uuid_from_device_path dev = path_basename dev"

definition resolve_sr_uri :: "'w env \<Rightarrow> string \<Rightarrow> ('w, string option) prog" where
  "resolve_sr_uri E dev =
     (if \<not> startswith dev ZVOL_DEV_PREFIX then ret None
      else case rsplit1 CHR ''/'' (drop (length ZVOL_DEV_PREFIX) dev) of
             [parent_dataset, _] \<Rightarrow>
               bind (zfs_get_property E parent_dataset ''xcp:sr'') (\<lambda>u.
                 ret (case u of None \<Rightarrow> None
                      | Some s \<Rightarrow> if s = [] \<or> s = ''-'' then None
                                 else Some (''file:///var/run/sr-mount/'' @ s)))
           | _ \<Rightarrow> ret None)"

section \<open>The daemon of a device\<close>

definition run_quietly :: "('w, unit) prog \<Rightarrow> ('w, unit) prog" where
  "run_quietly m = catch m (\<lambda>_. ret ())"

text \<open>\<^verbatim>\<open>os.kill(pid, 0)\<close> in a \<^verbatim>\<open>try\<close> that catches OSError.\<close>

definition pid_alive :: "'w env \<Rightarrow> pyval \<Rightarrow> ('w, bool) prog" where
  "pid_alive E pid =
     catch_if is_OSError (andthen (kill_pid E pid 0) (ret True)) (\<lambda>_. ret False)"

definition backing_exists :: "'w env \<Rightarrow> pyval \<Rightarrow> ('w, bool) prog" where
  "backing_exists E dev = (if py_truth dev then bind (as_str dev) (path_exists E) else ret False)"

definition reap :: "'w env \<Rightarrow> string \<Rightarrow> qemu_disk \<Rightarrow> ('w, unit) prog" where
  "reap E key qd =
     andthen
       (catch (quit E qd)
         (\<lambda>_. catch_if is_OSError (kill_pid E (qd_pid qd) SIGKILL) (\<lambda>_. ret ())))
       (remove_metadata E key)"

definition gc_loaded :: "'w env \<Rightarrow> string \<Rightarrow> qemu_disk \<Rightarrow> ('w, unit) prog" where
  "gc_loaded E key qd =
     bind (pid_alive E (qd_pid qd)) (\<lambda>alive.
       if \<not> alive then remove_metadata E key
       else bind (backing_exists E (qd_device_path qd)) (\<lambda>ex.
              if ex then ret () else reap E key qd))"

definition gc_entry :: "'w env \<Rightarrow> string \<Rightarrow> ('w, unit) prog" where
  "gc_entry E key =
     bind (catch (bind (load_metadata E key) (\<lambda>m. ret (Some m)))
            (\<lambda>_. andthen (remove_metadata E key) (ret None))) (\<lambda>loaded.
       case loaded of
         None \<Rightarrow> ret ()
       | Some None \<Rightarrow>
           catch_if is_OSError (fs_do E (RmDir (path_join dp_metadata_root key))) (\<lambda>_. ret ())
       | Some (Some qd) \<Rightarrow> gc_loaded E key qd)"

definition gc_orphan_daemons :: "'w env \<Rightarrow> string \<Rightarrow> ('w, unit) prog" where
  "gc_orphan_daemons E current_key =
     bind (catch_if is_OSError (bind (list_dir E dp_metadata_root) (\<lambda>es. ret (Some es))) (\<lambda>_. ret None))
       (\<lambda>entries. case entries of
          None \<Rightarrow> ret ()
        | Some es \<Rightarrow> for_each (\<lambda>key. if key = current_key then ret () else gc_entry E key) es)"

definition spawn_daemon :: "'w env \<Rightarrow> string \<Rightarrow> string \<Rightarrow> ('w, qemu_disk option) prog" where
  "spawn_daemon E key dev =
     catch
       (bind (create_daemon E key dev) (\<lambda>qd. andthen (save_metadata E key qd) (ret (Some qd))))
       (\<lambda>_. ret None)"

definition ensure_qemu_daemon :: "'w env \<Rightarrow> string \<Rightarrow> string \<Rightarrow> ('w, qemu_disk option) prog" where
  "ensure_qemu_daemon E key dev =
     andthen (gc_orphan_daemons E key)
       (bind (load_metadata E key) (\<lambda>existing.
         case existing of
           None \<Rightarrow> spawn_daemon E key dev
         | Some qd \<Rightarrow>
             bind (pid_alive E (qd_pid qd)) (\<lambda>alive.
               if alive then ret (Some qd)
               else andthen (run_quietly (quit E qd))
                      (andthen (remove_metadata E key) (spawn_daemon E key dev)))))"

section \<open>Attach\<close>

text \<open>\<^verbatim>\<open>str\<close> of a feature.\<close>

definition show_feature :: "pyval \<Rightarrow> string" where
  "show_feature v = (case v of PBool b \<Rightarrow> (if b then ''True'' else ''False'') | PInt i \<Rightarrow> str_int i
     | PStr s \<Rightarrow> s | _ \<Rightarrow> ''None'')"

definition xendisk_extra :: "pydict \<Rightarrow> pydict" where
  "xendisk_extra feats =
     (case dget feats ''discard'' of
        None \<Rightarrow> []
      | Some d \<Rightarrow>
          (''discard-enable'', PStr (show_feature d)) #
          (case (py_truth d, dget feats ''volblocksize'') of
             (True, Some blk) \<Rightarrow> [(''discard-granularity'', PStr (show_feature blk))]
           | _ \<Rightarrow> [])) @
     (case dget feats ''physical_sector_size'' of
        None \<Rightarrow> [] | Some n \<Rightarrow> [(''physical-sector-size'', PStr (show_feature n))]) @
     (case dget feats ''logical_sector_size'' of
        None \<Rightarrow> [] | Some n \<Rightarrow> [(''logical-sector-size'', PStr (show_feature n))])"

definition implementation :: "string \<Rightarrow> pydict \<Rightarrow> pyval" where
  "implementation kind d = PList [PStr kind, PDict d]"

definition nbd_uri_of :: "qemu_disk \<Rightarrow> string" where
  "nbd_uri_of qd = ''nbd+unix:///'' @ BLOCK_NODE_NAME @ ''?socket='' @ qd_nbd_unix_sock qd"

definition implementations_of :: "string \<Rightarrow> pydict \<Rightarrow> qemu_disk option \<Rightarrow> pyval list" where
  "implementations_of dev feats qd =
     [implementation ''XenDisk'' [(''backend_type'', PStr ''vbd''), (''params'', PStr dev),
                                  (''extra'', PDict (xendisk_extra feats))],
      implementation ''BlockDevice'' [(''path'', PStr dev)]] @
     (case qd of None \<Rightarrow> [] | Some q \<Rightarrow> [implementation ''Nbd'' [(''uri'', PStr (nbd_uri_of q))]])"

text \<open>The device of a URI, when it is there.\<close>

definition device_of :: "'w env \<Rightarrow> string \<Rightarrow> string \<Rightarrow> ('w, string) prog" where
  "device_of E missing uri =
     (case parse_uri uri of
        Inl e \<Rightarrow> raise e
      | Inr (_, dev) \<Rightarrow>
          bind (path_exists E dev) (\<lambda>ex.
            if ex then ret dev else raise (GenericError (missing @ '' does not exist: '' @ dev))))"

definition attach :: "'w env \<Rightarrow> string \<Rightarrow> ('w, pydict) prog" where
  "attach E uri =
     bind (device_of E ''Device path'' uri) (\<lambda>dev.
     bind (get_zvol_features E dev) (\<lambda>feats.
     bind (ensure_qemu_daemon E (device_key E dev) dev) (\<lambda>qd.
       ret [(''implementations'', PList (implementations_of dev feats qd))])))"

section \<open>Detach, open and close\<close>

definition stop_daemon :: "'w env \<Rightarrow> string \<Rightarrow> ('w, unit) prog" where
  "stop_daemon E dev =
     (let key = device_key E dev in
      bind (load_metadata E key) (\<lambda>found.
        case found of
          None \<Rightarrow> ret ()
        | Some qd \<Rightarrow> andthen (run_quietly (quit E qd)) (remove_metadata E key)))"

definition detach :: "'w env \<Rightarrow> string \<Rightarrow> ('w, unit) prog" where
  "detach E uri = (case parse_uri uri of Inl _ \<Rightarrow> ret () | Inr (_, dev) \<Rightarrow> stop_daemon E dev)"

definition close_disk :: "'w env \<Rightarrow> string \<Rightarrow> ('w, unit) prog" where
  "close_disk E uri = (case parse_uri uri of Inl _ \<Rightarrow> ret () | Inr (_, dev) \<Rightarrow> stop_daemon E dev)"

definition open_disk :: "string \<Rightarrow> bool \<Rightarrow> ('w, unit) prog" where
  "open_disk uri persistent = ret ()"

section \<open>Inbound migration\<close>

text \<open>With no daemon (\<^verbatim>\<open>None\<close>), the first command is an AttributeError that is swallowed.\<close>

definition start_tcp_nbd_export :: "'w env \<Rightarrow> qemu_disk option \<Rightarrow> string \<Rightarrow> ('w, int option) prog" where
  "start_tcp_nbd_export E qd key =
     bind (perform FreePort (\<lambda>i. i) (e_free_port E)) (\<lambda>port.
       catch
         (case qd of
            None \<Rightarrow> raise PyAttributeError
          | Some q \<Rightarrow>
              andthen (qmp_do E q ''nbd-server-start''
                  [(''addr'', PDict [(''type'', PStr ''inet''),
                     (''data'', PDict [(''host'', PStr ''0.0.0.0''), (''port'', PStr (str_int port))])])])
                (andthen (qmp_do E q ''nbd-server-add''
                    [(''device'', PStr (qd_block_node_name q)), (''name'', PStr ''sxm-target''),
                     (''writable'', PBool True)])
                  (andthen (fs_do E (WriteFile (path_join socket_dir (''nbd-port.'' @ key)) (PStr (str_int port))))
                    (ret (Some port)))))
         (\<lambda>_. ret None))"

text \<open>
  What \<^verbatim>\<open>import_activate\<close> does with a daemon it finds: answer with its proxy's socket when both
  are alive, go on with it when only the daemon is, and clear it away when it is dead.
\<close>

definition reuse_proxy :: "'w env \<Rightarrow> string \<Rightarrow> qemu_disk \<Rightarrow> ('w, pyval option) prog" where
  "reuse_proxy E key qd =
     bind (pid_alive E (qd_pid qd)) (\<lambda>alive.
       if alive then
         if qd_scm_proxy_pid qd \<noteq> PNone \<and> py_truth (qd_scm_sock_path qd)
         then bind (pid_alive E (qd_scm_proxy_pid qd)) (\<lambda>proxy.
                ret (if proxy then Some (qd_scm_sock_path qd) else None))
         else ret None
       else andthen (run_quietly (quit E qd)) (andthen (remove_metadata E key) (ret None)))"

definition import_activate :: "'w env \<Rightarrow> string \<Rightarrow> ('w, pyval) prog" where
  "import_activate E uri =
     bind (device_of E ''Destination device'' uri) (\<lambda>dev.
     let key = device_key E dev in
     bind (load_metadata E key) (\<lambda>existing.
     bind (case existing of None \<Rightarrow> ret None | Some qd \<Rightarrow> reuse_proxy E key qd) (\<lambda>reused.
     case reused of
       Some sock \<Rightarrow> ret sock
     | None \<Rightarrow>
         bind (ensure_qemu_daemon E key dev) (\<lambda>daemon.
         bind (start_tcp_nbd_export E daemon key) (\<lambda>port.
         let scm_path = path_join socket_dir (''scm.'' @ key) in
         bind (of_option PyAttributeError daemon) (\<lambda>qd.
         bind (start_scm_daemon E scm_path (qd_nbd_unix_sock qd)) (\<lambda>proxy_pid.
         andthen (save_metadata E key (qd\<lparr>qd_scm_proxy_pid := PInt proxy_pid, qd_scm_sock_path := PStr scm_path\<rparr>))
           (ret (PStr scm_path)))))))))"

section \<open>Bitmaps across deactivate and activate\<close>

definition CBT_PERSISTENT_TRACKING_PREFIX :: string where
  "CBT_PERSISTENT_TRACKING_PREFIX = ''cbt-active''"

text \<open>A truthy name that is not a string has no \<^verbatim>\<open>startswith\<close>.\<close>

definition is_persistent_tracking_bitmap :: "pyval \<Rightarrow> exn + bool" where
  "is_persistent_tracking_bitmap name =
     (if \<not> py_truth name then Inr False
      else case name of PStr s \<Rightarrow> Inr (startswith s CBT_PERSISTENT_TRACKING_PREFIX)
           | _ \<Rightarrow> Inl PyAttributeError)"

text \<open>The names of the bitmaps that the comprehension keeps.\<close>

fun tracking_names :: "pyval list \<Rightarrow> ('w, string list) prog" where
  "tracking_names [] = ret []"
| "tracking_names (b # bs) =
     bind (as_dict b) (\<lambda>bm.
       let name = dget_or bm ''name'' PNone in
       case is_persistent_tracking_bitmap name of
         Inl e \<Rightarrow> raise e
       | Inr keep \<Rightarrow>
           bind (if keep then as_str name else ret []) (\<lambda>s.
           bind (tracking_names bs) (\<lambda>names. ret (if keep then s # names else names))))"

text \<open>\<^verbatim>\<open>try: m / except Exception: ...\<close> where the handler only logs and goes on.\<close>

definition try_some :: "('w, 'a) prog \<Rightarrow> ('w, 'a option) prog" where
  "try_some m = catch (bind m (\<lambda>x. ret (Some x))) (\<lambda>_. ret None)"

text \<open>
  One \<^verbatim>\<open>export_bitmap\<close> of the loop. The handle remembers that its NBD server runs, also when a
  later command of the same export fails, so the next export does not start it again.
\<close>

definition export_step :: "'w env \<Rightarrow> qemu_disk \<Rightarrow> string \<Rightarrow> ('w, pydict option \<times> qemu_disk) prog" where
  "export_step E qd name =
     bind (try_some (frozen_info E qd name)) (\<lambda>info.
       case info of
         None \<Rightarrow> ret (None, qd)
       | Some i \<Rightarrow>
           bind (try_some (ensure_nbd_server E qd)) (\<lambda>started.
             case started of
               None \<Rightarrow> ret (None, qd)
             | Some qd' \<Rightarrow>
                 bind (try_some (add_export E qd' name)) (\<lambda>nbd.
                   ret (map_option (export_payload name i) nbd, qd'))))"

fun export_each :: "'w env \<Rightarrow> qemu_disk \<Rightarrow> string list \<Rightarrow> pydict \<Rightarrow> ('w, pydict) prog" where
  "export_each E qd [] payload = ret payload"
| "export_each E qd (name # names) payload =
     bind (export_step E qd name) (\<lambda>(r, qd').
       export_each E qd' names (case r of None \<Rightarrow> payload | Some p \<Rightarrow> dset name (PDict p) payload))"

definition qemu_of_device :: "'w env \<Rightarrow> string \<Rightarrow> ('w, qemu_disk option) prog" where
  "qemu_of_device E dev =
     bind (load_metadata E (device_key E dev)) (\<lambda>qd.
       case qd of Some q \<Rightarrow> ret (Some q) | None \<Rightarrow> find_xenopsd_qemu_for_device E dev)"

definition migrate_quietly :: "'w env \<Rightarrow> string \<Rightarrow> string \<Rightarrow> ('w, unit) prog" where
  "migrate_quietly E sr_uri dev =
     run_quietly (andthen (migrate_legacy_cbt_metadata E sr_uri (device_key E dev) (vdi_uuid_from_device_path dev))
       (ret ()))"

definition cbt_persist_on_deactivate :: "'w env \<Rightarrow> string \<Rightarrow> ('w, unit) prog" where
  "cbt_persist_on_deactivate E dev =
     bind (qemu_of_device E dev) (\<lambda>found.
       case found of
         None \<Rightarrow> ret ()
       | Some qd \<Rightarrow>
           bind (bind (cbt_list_bitmaps E qd) tracking_names) (\<lambda>names.
             if names = [] then ret ()
             else bind (resolve_sr_uri E dev) (\<lambda>sr.
               case sr of
                 None \<Rightarrow> ret ()
               | Some sr_uri \<Rightarrow>
                   andthen (migrate_quietly E sr_uri dev)
                     (bind (export_each E qd names []) (\<lambda>payload.
                        if payload = [] then ret ()
                        else save_cbt_metadata E sr_uri (vdi_uuid_from_device_path dev) (PDict payload))))))"

definition restore_each :: "'w env \<Rightarrow> qemu_disk \<Rightarrow> pydict \<Rightarrow> ('w, unit) prog" where
  "restore_each E qd payload =
     for_each (\<lambda>(name, p).
         case is_persistent_tracking_bitmap (PStr name) of
           Inr True \<Rightarrow> run_quietly (prepare_bitmap_from_payload E qd name p)
         | _ \<Rightarrow> ret ()) payload"

definition cbt_restore_on_activate :: "'w env \<Rightarrow> string \<Rightarrow> ('w, unit) prog" where
  "cbt_restore_on_activate E dev =
     bind (qemu_of_device E dev) (\<lambda>found.
       case found of
         None \<Rightarrow> ret ()
       | Some qd \<Rightarrow>
           bind (resolve_sr_uri E dev) (\<lambda>sr.
             case sr of
               None \<Rightarrow> ret ()
             | Some sr_uri \<Rightarrow>
                 andthen (migrate_quietly E sr_uri dev)
                   (bind (load_cbt_metadata E sr_uri (vdi_uuid_from_device_path dev)) (\<lambda>state.
                      case state of PDict payload \<Rightarrow> restore_each E qd payload | _ \<Rightarrow> ret ()))))"

definition activate :: "'w env \<Rightarrow> string \<Rightarrow> ('w, unit) prog" where
  "activate E uri =
     bind (device_of E ''Device path'' uri) (\<lambda>dev.
     andthen (get_zvol_features E dev) (run_quietly (cbt_restore_on_activate E dev)))"

definition deactivate :: "'w env \<Rightarrow> string \<Rightarrow> ('w, unit) prog" where
  "deactivate E uri =
     (case parse_uri uri of
        Inl _ \<Rightarrow> ret ()
      | Inr (_, dev) \<Rightarrow> run_quietly (cbt_persist_on_deactivate E dev))"

end
