(* ===== verification/DatapathProps.thy ===== *)
theory DatapathProps
  imports Datapath Footprint Order Samples CbtProps
begin

text \<open>
  The datapath plugin: the URI a volume hands out names the device, the dataset and the key
  its bitmaps are kept under; which daemons are reaped; what deactivate, activate, detach and
  an inbound migration may do.
\<close>

section \<open>URIs\<close>

lemma split_dev_some: "split_dev s = Some (a, b) \<Longrightarrow> s = a @ b \<and> startswith b ''/dev/''"
  by (induction s arbitrary: a) (auto split: if_splits)

lemma split_dev_first:
  assumes "startswith b ''/dev/''" and "\<And>i. i < length a \<Longrightarrow> \<not> startswith (drop i (a @ b)) ''/dev/''"
  shows "split_dev (a @ b) = Some (a, b)"
  using assms(2)
proof (induction a)
  case Nil
  then show ?case using assms(1) by (cases b) (auto simp: startswith_def)
next
  case (Cons c a)
  have "\<not> startswith (c # a @ b) ''/dev/''" using Cons.prems [of 0] by simp
  moreover have "split_dev (a @ b) = Some (a, b)"
    by (rule Cons.IH) (use Cons.prems [of "Suc _"] in auto)
  ultimately show ?case by simp
qed

lemma parse_volume_uri:
  "parse_uri (RAW_QDISK_PREFIX @ ''zfs-live//dev/zvol/'' @ rest) = Inr (''zfs-live'', ''/dev/zvol/'' @ rest)"
  by (simp add: parse_uri_def RAW_QDISK_PREFIX_def URI_SCHEME_def startswith_def rstrip_if_def)

lemma basename_append: "CHR ''/'' \<notin> set b \<Longrightarrow> path_basename (a @ ''/'' @ b) = b"
proof (induction a rule: length_induct)
  case (1 a)
  show ?case
  proof (cases "CHR ''/'' \<in> set a")
    case True
    then obtain x y where a: "a = x @ CHR ''/'' # y" and x: "CHR ''/'' \<notin> set x" by (meson split_list_first)
    then have "path_basename (y @ ''/'' @ b) = b" using 1 by auto
    then show ?thesis using a x by (simp add: path_basename_def split_on_append)
  next
    case False
    with 1 show ?thesis by (simp add: path_basename_def split_on_append split_on_fresh)
  qed
qed

text \<open>
  C24. The URI that the volume plugin hands out for a VDI is parsed by the datapath plugin
  back into the device of that VDI, and the key its bitmaps are kept under is the VDI's uuid.
\<close>

theorem volume_uri_roundtrip:
  assumes "returns (getVolumeUriPrefix E opq) pre" and "returns (volumeGetPath E opq uuid) dev"
    and "CHR ''/'' \<notin> set uuid"
  shows "parse_uri (RAW_QDISK_PREFIX @ pre @ uuid) = Inr (''zfs-live'', dev) \<and>
     vdi_uuid_from_device_path dev = uuid"
proof -
  let ?s = "\<lparr>world = undefined, libs = undefined, trace = []\<rparr>"
  have "\<exists>ds. pre = ''zfs-live//dev/zvol/'' @ ds @ ''/'' \<and> dev = ''/dev/zvol/'' @ ds @ ''/'' @ uuid"
    using assms(1,2) unfolding getVolumeUriPrefix_def volumeGetPath_def returns_def
    by (drule_tac x = ?s in spec; drule_tac x = ?s in spec)
      (auto simp: bind_def ret_def split: sum.splits prod.splits)
  then obtain ds where ds: "pre = ''zfs-live//dev/zvol/'' @ ds @ ''/''" "dev = ''/dev/zvol/'' @ ds @ ''/'' @ uuid"
    by blast
  show ?thesis
    using parse_volume_uri [of "ds @ ''/'' @ uuid"] basename_append [OF assms(3), of "''/dev/zvol/'' @ ds"]
    by (simp add: ds vdi_uuid_from_device_path_def)
qed

definition sr_env :: "unit env" where
  "sr_env = bare_env\<lparr>e_get_sr_metadata := \<lambda>_. returning [(''zpool'', PStr ''p''), (''dataset'', PStr ''d'')]\<rparr>"

lemma sr_env_reads:
  "returns (getVolumeUriPrefix sr_env o') ''zfs-live//dev/zvol/p/d/''"
  "returns (volumeGetPath sr_env o' u) (''/dev/zvol/p/d/'' @ u)"
  by (simp_all add: getVolumeUriPrefix_def volumeGetPath_def returns_def sr_env_def get_sr_metadata_def
      perform_def returning_def bind_def ret_def sr_dataset_of_def key_of_def of_option_def dget_def as_str_def
      as_opt_str_def dataset_path_def)

theorem volume_uri_roundtrip_witness:
  "parse_uri (RAW_QDISK_PREFIX @ ''zfs-live//dev/zvol/p/d/'' @ ''u1'') = Inr (''zfs-live'', ''/dev/zvol/p/d/u1'') \<and>
   vdi_uuid_from_device_path ''/dev/zvol/p/d/u1'' = ''u1''"
  using volume_uri_roundtrip [OF sr_env_reads(1) sr_env_reads(2), of "''u1''"] by simp

section \<open>Reaping daemons\<close>

text \<open>What some reading of a record gives.\<close>

definition recorded :: "'w env \<Rightarrow> string \<Rightarrow> qemu_disk \<Rightarrow> bool" where
  "recorded E key qd \<longleftrightarrow> (\<exists>s. fst (load_metadata E key s) = Inr (Some qd))"

definition unreadable :: "'w env \<Rightarrow> string \<Rightarrow> bool" where
  "unreadable E key \<longleftrightarrow> (\<exists>s e. fst (load_metadata E key s) = Inl e)"

text \<open>What the calls made so far say of a recorded daemon.\<close>

definition found_dead :: "qemu_disk \<Rightarrow> event list \<Rightarrow> bool" where
  "found_dead qd u \<longleftrightarrow> (\<exists>p. qd_pid qd = PInt p \<and> (Kill p 0, None) \<in> set u)"

definition found_orphaned :: "qemu_disk \<Rightarrow> event list \<Rightarrow> bool" where
  "found_orphaned qd u \<longleftrightarrow> (\<exists>p. qd_pid qd = PInt p \<and> (Kill p 0, Some 0) \<in> set u) \<and>
     (\<not> py_truth (qd_device_path qd) \<or> (\<exists>dev. qd_device_path qd = PStr dev \<and> (Fs (Exists dev), Some 0) \<in> set u))"

text \<open>The calls that end a daemon and its proxy, and those that change nothing.\<close>

definition stops :: "qemu_disk \<Rightarrow> call \<Rightarrow> bool" where
  "stops qd c =
     (case c of Qmp sock cmd _ \<Rightarrow> sock = qd_qmp_sock qd \<and> cmd = ''quit''
      | Kill p _ \<Rightarrow> qd_pid qd = PInt p \<or> qd_scm_proxy_pid qd = PInt p
      | Fs (Unlink f) \<Rightarrow> qd_scm_sock_path qd = PStr f
      | _ \<Rightarrow> False)"

definition looks :: "call \<Rightarrow> bool" where
  "looks c = (case c of Kill _ sig \<Rightarrow> sig = 0 | Sleep _ \<Rightarrow> True | Fs (Exists _) \<Rightarrow> True | Fs (ReadFile _) \<Rightarrow> True
     | Fs (ListDir _) \<Rightarrow> True | _ \<Rightarrow> False)"

definition drops :: "string \<Rightarrow> call \<Rightarrow> bool" where
  "drops key c \<longleftrightarrow> c = Fs (Unlink (metadata_path key)) \<or> c = Fs (RmDir (metadata_dir key))"

text \<open>
  The calls the collection may make when \<open>u\<close> was made before: calls that only look; the calls that
  end a recorded daemon found without its device; the removal of a record that could not be read
  or whose daemon was found dead or without its device, and of empty directories of records.
  The current key is none of theirs.
\<close>

definition gc_may :: "'w env \<Rightarrow> string \<Rightarrow> event list \<Rightarrow> call \<Rightarrow> bool" where
  "gc_may E current u c \<longleftrightarrow>
     looks c \<or>
     (\<exists>key qd. key \<noteq> current \<and> recorded E key qd \<and> found_orphaned qd u \<and> stops qd c) \<or>
     (\<exists>key. key \<noteq> current \<and> drops key c \<and>
        (unreadable E key \<or> (\<exists>qd. recorded E key qd \<and> (found_dead qd u \<or> found_orphaned qd u)))) \<or>
     (\<exists>key. key \<noteq> current \<and> c = Fs (RmDir (metadata_dir key)))"

definition gc_justified :: "'w env \<Rightarrow> string \<Rightarrow> event list \<Rightarrow> bool" where
  "gc_justified E current t \<longleftrightarrow> (\<forall>a e b. t = a @ e # b \<longrightarrow> gc_may E current a (fst e))"

lemma found_more:
  "found_dead qd u \<Longrightarrow> found_dead qd (t @ u @ v)" "found_orphaned qd u \<Longrightarrow> found_orphaned qd (t @ u @ v)"
  by (auto simp: found_dead_def found_orphaned_def)

lemma gc_may_more: "gc_may E current u c \<Longrightarrow> gc_may E current (t @ u @ v) c"
  unfolding gc_may_def using found_more by metis

lemma gc_justifiedD: "gc_justified E current (a @ e # b) \<Longrightarrow> gc_may E current a (fst e)"
  unfolding gc_justified_def by blast

lemma gc_justified_append:
  assumes "gc_justified E current t" and "\<And>e. e \<in> set u \<Longrightarrow> gc_may E current t (fst e)"
  shows "gc_justified E current (t @ u)"
  unfolding gc_justified_def
proof (intro allI impI)
  fix a e b assume eq: "t @ u = a @ e # b"
  then consider a' where "t = a @ e # a'" | a' where "a = t @ a'" "u = a' @ e # b"
    by (auto simp: append_eq_append_conv2 append_eq_Cons_conv Cons_eq_append_conv)
  then show "gc_may E current a (fst e)"
  proof cases
    case 2
    with assms(2) [of e] gc_may_more [of E current t "fst e" "[]" a'] show ?thesis by simp
  qed (use assms(1) gc_justifiedD in blast)
qed

lemma gc_justified_later: "gc_justified E current t \<Longrightarrow> gc_justified E current u \<Longrightarrow> gc_justified E current (t @ u)"
  unfolding gc_justified_def [of _ _ "t @ u"]
proof (intro allI impI)
  fix a e b
  assume t: "gc_justified E current t" and u: "gc_justified E current u" and eq: "t @ u = a @ e # b"
  from eq consider a' where "t = a @ e # a'" | a' where "a = t @ a'" "u = a' @ e # b"
    by (auto simp: append_eq_append_conv2 append_eq_Cons_conv Cons_eq_append_conv)
  then show "gc_may E current a (fst e)"
  proof cases
    case 2
    with u have "gc_may E current a' (fst e)" by (auto dest: gc_justifiedD)
    from gc_may_more [OF this, of t "[]"] 2 show ?thesis by simp
  qed (use t gc_justifiedD in blast)
qed

lemma looks_justified: "(\<And>e. e \<in> set t \<Longrightarrow> looks (fst e)) \<Longrightarrow> gc_justified E current t"
  by (auto simp: gc_justified_def gc_may_def)

lemma emits_load_metadata [emits_intros]:
  "(\<And>r. A (Fs (Exists (metadata_path key)), r)) \<Longrightarrow> (\<And>r. A (Fs (ReadFile (metadata_path key)), r)) \<Longrightarrow>
   emits A (load_metadata E key)"
  unfolding load_metadata_def by (auto intro!: emits_intros)

lemma emits_kill_pid [emits_intros]:
  "(\<And>p r. A (Kill p sig, r)) \<Longrightarrow> emits A (kill_pid E pid sig)"
  unfolding kill_pid_def os_kill_def by (cases pid) (auto intro!: emits_intros)

lemma emits_pid_alive [emits_intros]:
  "(\<And>p r. A (Kill p 0, r)) \<Longrightarrow> emits A (pid_alive E pid)"
  unfolding pid_alive_def by (auto intro!: emits_intros)

lemma emits_wait_gone [emits_intros]:
  "(\<And>p r. A (Kill p 0, r)) \<Longrightarrow> (\<And>r. A (Sleep (1 / 10), r)) \<Longrightarrow> emits A (wait_gone E pid n)"
  by (induction n) (auto intro!: emits_intros)

definition process_event :: "event \<Rightarrow> bool" where
  "process_event e = (case fst e of Qmp _ _ _ \<Rightarrow> True | Kill _ _ \<Rightarrow> True | Sleep _ \<Rightarrow> True
     | Fs (Unlink _) \<Rightarrow> True | Fs (RmDir _) \<Rightarrow> True | Fs (Exists _) \<Rightarrow> True | _ \<Rightarrow> False)"

lemma emits_quit: "emits process_event (quit E qd)" "emits process_event (reap E key qd)"
  "emits process_event (remove_metadata E key)"
  unfolding reap_def quit_def stop_scm_proxy_def unlink_quietly_def qmp_do_def qmp_command_def
    remove_metadata_def Let_def
  by (auto simp: process_event_def intro!: emits_intros)

lemma spec_pid_alive:
  "spec (pid_alive E pid) (\<lambda>b t. \<exists>p. pid = PInt p \<and> t = [(Kill p 0, if b then Some 0 else None)])
     (\<lambda>_ t. \<forall>e \<in> set t. looks (fst e))"
  unfolding pid_alive_def kill_pid_def os_kill_def
  by (cases pid) (auto simp: looks_def is_OSError_def intro!: spec_intros)

lemma spec_backing_exists:
  "spec (backing_exists E dev)
     (\<lambda>b t. (\<forall>e \<in> set t. looks (fst e)) \<and>
        (b \<or> \<not> py_truth dev \<or> (\<exists>d. dev = PStr d \<and> (Fs (Exists d), Some 0) \<in> set t)))
     (\<lambda>_ t. \<forall>e \<in> set t. looks (fst e))"
  unfolding backing_exists_def
  by (cases dev) (auto simp: as_str_def looks_def intro!: spec_intros split: if_split_asm)

lemma spec_load_recorded:
  "spec (load_metadata E key) (\<lambda>m t. (\<forall>e \<in> set t. looks (fst e)) \<and> (\<forall>qd. m = Some qd \<longrightarrow> recorded E key qd))
     (\<lambda>_ t. (\<forall>e \<in> set t. looks (fst e)) \<and> unreadable E key)"
proof -
  have "emits (\<lambda>e. looks (fst e)) (load_metadata E key)" by (intro emits_intros) (simp_all add: looks_def)
  from spec_reached [OF this [unfolded emits_def]] show ?thesis
    by (rule spec_mono) (auto simp: recorded_def unreadable_def)
qed

lemma emits_kill_named: "(\<And>p r. pid = PInt p \<Longrightarrow> A (Kill p sig, r)) \<Longrightarrow> emits A (kill_pid E pid sig)"
  unfolding kill_pid_def os_kill_def by (cases pid) (auto intro!: emits_intros)

lemma raise_bind: "bind (raise e) f = raise e"
  by (simp add: bind_def raise_def)

lemma emits_unlink_named:
  "(\<And>f r. v = PStr f \<Longrightarrow> A (Fs (Unlink f), r)) \<Longrightarrow> emits A (bind (as_str v) (unlink_quietly E))"
  unfolding unlink_quietly_def
  by (cases v) (auto simp: as_str_def ret_bind raise_bind intro!: emits_intros)

lemma quit_stops: "emits (\<lambda>e. looks (fst e) \<or> stops qd (fst e)) (quit E qd)"
proof -
  let ?A = "\<lambda>e. looks (fst e) \<or> stops qd (fst e)"
  have wait: "emits ?A (wait_gone E pid n)" for pid n by (intro emits_intros) (simp_all add: looks_def)
  have proxy: "emits ?A (stop_scm_proxy E qd)"
    unfolding stop_scm_proxy_def
    by (intro emits_if emits_ret emits_andthen emits_catch_if emits_bind emits_only_if emits_kill_named wait
        emits_unlink_named) (simp_all add: stops_def)
  have kept: "spec (stop_scm_proxy E qd) (\<lambda>qd' _. qd_pid qd' = qd_pid qd \<and> qd_qmp_sock qd' = qd_qmp_sock qd) (\<lambda>_ _. True)"
  proof -
    have any: "extends (catch_if is_OSError (andthen (kill_pid E pid SIGTERM) (bind (wait_gone E pid 20)
        (\<lambda>gone. only_if (\<not> gone) (kill_pid E pid SIGKILL)))) (\<lambda>_. ret ()))"
      "extends (if py_truth v then bind (as_str v) (unlink_quietly E) else ret ())" for pid v
      unfolding unlink_quietly_def by (intro emits_intros; simp)+
    show ?thesis
      unfolding stop_scm_proxy_def
      by (intro spec_if spec_ret spec_andthen spec_mono [OF any(1) [unfolded emits_def]]
          spec_mono [OF any(2) [unfolded emits_def]]) auto
  qed
  have rest: "emits ?A (andthen (catch (qmp_do E qd' ''quit'' []) (\<lambda>_. catch_if is_OSError (kill_pid E (qd_pid qd') SIGKILL) (\<lambda>_. ret ())))
      (andthen (wait_gone E (qd_pid qd') 20) (ret ())))"
    if "qd_pid qd' = qd_pid qd \<and> qd_qmp_sock qd' = qd_qmp_sock qd" for qd'
    unfolding qmp_do_def qmp_command_def
    by (intro emits_andthen emits_catch emits_catch_if emits_kill_named wait emits_ret emits_intros)
      (use that in \<open>auto simp: stops_def\<close>)
  show ?thesis
    unfolding quit_def by (intro emits_if emits_raise emits_bind_value [OF proxy kept rest])
qed

lemma removal_drops: "emits (\<lambda>e. looks (fst e) \<or> drops key (fst e)) (remove_metadata E key)"
  unfolding remove_metadata_def by (intro emits_intros) (simp_all add: looks_def drops_def)

lemma reap_calls: "emits (\<lambda>e. looks (fst e) \<or> stops qd (fst e) \<or> drops key (fst e)) (reap E key qd)"
  unfolding reap_def
  by (intro emits_andthen emits_catch emits_catch_if emits_ret emits_mono [OF quit_stops] emits_mono [OF removal_drops]
      emits_kill_named) (auto simp: stops_def)

lemma gc_loaded_justified:
  assumes "key \<noteq> current" and "recorded E key qd"
  shows "spec (gc_loaded E key qd) (\<lambda>_ t. gc_justified E current t) (\<lambda>_ t. gc_justified E current t)"
  unfolding gc_loaded_def
proof (rule spec_bind, rule spec_mono [OF spec_pid_alive])
  fix alive and t :: "event list"
  assume "\<exists>p. qd_pid qd = PInt p \<and> t = [(Kill p 0, if alive then Some 0 else None)]"
  then obtain p where p: "qd_pid qd = PInt p" "t = [(Kill p 0, if alive then Some 0 else None)]" by blast
  then have t: "gc_justified E current t" by (auto intro: looks_justified simp: looks_def)
  show "spec (if \<not> alive then remove_metadata E key else bind (backing_exists E (qd_device_path qd))
      (\<lambda>ex. if ex then ret () else reap E key qd)) (\<lambda>_ u. gc_justified E current (t @ u)) (\<lambda>_ u. gc_justified E current (t @ u))"
  proof (cases alive)
    case False
    with p have "found_dead qd t" by (simp add: found_dead_def)
    then have "gc_may E current t c" if "looks c \<or> drops key c" for c
      using that assms unfolding gc_may_def by blast
    with False t show ?thesis
      by (auto intro!: gc_justified_append spec_mono [OF removal_drops [unfolded emits_def]])
  next
    case True
    have "spec (if ex then ret () else reap E key qd) (\<lambda>_ v. gc_justified E current ((t @ u) @ v)) (\<lambda>_ v. gc_justified E current ((t @ u) @ v))"
      if u: "\<forall>e \<in> set u. looks (fst e)" and dev: "ex \<or> \<not> py_truth (qd_device_path qd) \<or>
        (\<exists>d. qd_device_path qd = PStr d \<and> (Fs (Exists d), Some 0) \<in> set u)" for ex u
    proof -
      have j: "gc_justified E current (t @ u)" by (rule gc_justified_later [OF t looks_justified]) (use u in blast)
      have "found_orphaned qd (t @ u)" if "\<not> ex"
        using that dev p True unfolding found_orphaned_def by auto
      then have "gc_may E current (t @ u) c" if "\<not> ex" "looks c \<or> stops qd c \<or> drops key c" for c
        using that assms unfolding gc_may_def by blast
      with j show ?thesis
        by (cases ex) (auto intro!: spec_ret gc_justified_append spec_mono [OF reap_calls [unfolded emits_def]] simp del: append_assoc)
    qed
    with True t show ?thesis
      by (auto intro!: spec_bind spec_mono [OF spec_backing_exists] gc_justified_append [OF t] simp: gc_may_def)
  qed
qed (auto intro: looks_justified)

lemma gc_entry_justified:
  assumes "key \<noteq> current"
  shows "spec (gc_entry E key) (\<lambda>_ t. gc_justified E current t) (\<lambda>_ t. gc_justified E current t)"
proof -
  have drop: "spec (andthen (remove_metadata E key) (ret None)) (\<lambda>r u. gc_justified E current (t @ u) \<and> r = None)
      (\<lambda>_ u. gc_justified E current (t @ u))"
    if "(\<forall>e \<in> set t. looks (fst e)) \<and> unreadable E key" for t :: "event list"
  proof -
    have "gc_may E current t c" if "looks c \<or> drops key c" for c
      using that assms \<open>_ \<and> unreadable E key\<close> unfolding gc_may_def by blast
    then have ok: "gc_justified E current (t @ u)" if "\<forall>e \<in> set u. looks (fst e) \<or> drops key (fst e)" for u
      using that \<open>_ \<and> unreadable E key\<close> by (intro gc_justified_append looks_justified) auto
    show ?thesis
      by (intro spec_andthen spec_mono [OF removal_drops [unfolded emits_def]]) (auto intro!: spec_ret ok)
  qed
  have caught: "spec (catch (bind (load_metadata E key) (\<lambda>m. ret (Some m))) (\<lambda>_. andthen (remove_metadata E key) (ret None)))
      (\<lambda>r t. gc_justified E current t \<and> (\<forall>qd. r = Some (Some qd) \<longrightarrow> recorded E key qd)) (\<lambda>_ t. gc_justified E current t)"
    by (intro spec_catch spec_bind spec_mono [OF spec_load_recorded])
      (auto intro!: spec_ret spec_mono [OF drop], blast intro: looks_justified)
  have dir: "gc_may E current t (Fs (RmDir (path_join dp_metadata_root key)))" for t
    using assms by (auto simp: gc_may_def metadata_dir_def)
  show ?thesis
    unfolding gc_entry_def
  proof (rule spec_bind, rule spec_mono [OF caught])
    fix r t
    assume r: "gc_justified E current t \<and> (\<forall>qd. r = Some (Some qd) \<longrightarrow> recorded E key qd)"
    have rmdir: "spec (catch_if is_OSError (fs_do E (RmDir (path_join dp_metadata_root key))) (\<lambda>_. ret ()))
        (\<lambda>_ u. gc_justified E current (t @ u)) (\<lambda>_ u. gc_justified E current (t @ u))"
      unfolding fs_do_def using r dir by (auto intro!: spec_intros gc_justified_append)
    have loaded: "spec (gc_loaded E key qd) (\<lambda>_ u. gc_justified E current (t @ u)) (\<lambda>_ u. gc_justified E current (t @ u))"
      if "r = Some (Some qd)" for qd
      using r that by (auto intro: gc_justified_later spec_mono [OF gc_loaded_justified [OF assms]])
    show "spec (case r of None \<Rightarrow> ret ()
         | Some None \<Rightarrow> catch_if is_OSError (fs_do E (RmDir (path_join dp_metadata_root key))) (\<lambda>_. ret ())
         | Some (Some qd) \<Rightarrow> gc_loaded E key qd)
        (\<lambda>_ u. gc_justified E current (t @ u)) (\<lambda>_ u. gc_justified E current (t @ u))"
      using r rmdir loaded by (auto intro: spec_ret split: option.splits)
  qed auto
qed

text \<open>
  C25. Whatever the records hold, the collection of orphan daemons never touches the current
  device; it ends a recorded daemon and its proxy only after the daemon answered and either
  its record names no device or the device was found missing, and removes a record only if it
  could not be read, or after its daemon did not answer or was found so; it makes no other
  call than these, calls that only look and the removal of a record's directory.
\<close>

theorem gc_reaps_justified:
  "spec (gc_orphan_daemons E current) (\<lambda>_ t. gc_justified E current t) (\<lambda>_ t. gc_justified E current t)"
proof -
  have root: "gc_justified E current [(Fs (ListDir d), r)]" for d r
    by (rule looks_justified) (simp add: looks_def)
  have each: "spec (for_each (\<lambda>key. if key = current then ret () else gc_entry E key) es)
      (\<lambda>_ u. gc_justified E current (t @ u)) (\<lambda>_ u. gc_justified E current (t @ u))" if "gc_justified E current t" for es t
    by (rule spec_for_each [where I = "gc_justified E current", OF _ that])
      (auto intro: spec_ret gc_justified_later spec_mono [OF gc_entry_justified])
  have listed: "spec (catch_if is_OSError (bind (list_dir E dp_metadata_root) (\<lambda>es. ret (Some es))) (\<lambda>_. ret None))
      (\<lambda>_ t. gc_justified E current t) (\<lambda>_ t. gc_justified E current t)"
    unfolding list_dir_def by (intro spec_intros) (auto intro!: spec_intros root)
  show ?thesis
    unfolding gc_orphan_daemons_def
    by (rule spec_bind, rule spec_mono [OF listed]) (auto intro!: each spec_ret split: option.split)
qed

definition record_of :: "int \<Rightarrow> string \<Rightarrow> pydict" where
  "record_of p dev = metadata_of (QemuDiskRaw (PInt p) ''/q'' (PStr ''k'') (PStr dev) (Some ''/n'') True None PNone PNone)"

definition record_env :: "int \<Rightarrow> string \<Rightarrow> unit env" where
  "record_env p dev = bare_env\<lparr>e_fs_bool := \<lambda>_. returning True, e_fs_read := \<lambda>_. returning (PDict (record_of p dev))\<rparr>"

definition disk_of_record :: "int \<Rightarrow> string \<Rightarrow> qemu_disk" where
  "disk_of_record p dev = QemuDiskRaw (PInt p) ''/q'' (PStr ''k'') (PStr dev) (Some ''/n'') True None PNone PNone"

lemma record_env_loads: "returns (load_metadata (record_env p dev) key) (Some (disk_of_record p dev))"
proof -
  have "disk_of_metadata (record_of p dev) = Inr (disk_of_record p dev)"
    unfolding record_of_def disk_of_record_def by (simp add: metadata_roundtrip nbd_sock_nonempty)
      (simp add: QemuDiskRaw_def or_str_def)
  then show ?thesis
    by (simp add: returns_def load_metadata_def path_exists_def read_pickle_def perform_def bind_def ret_def
        as_dict_def record_env_def returning_def)
qed

lemma disk_of_record_fields:
  "qd_pid (disk_of_record p dev) = PInt p" "qd_device_path (disk_of_record p dev) = PStr dev"
  by (simp_all add: disk_of_record_def QemuDiskRaw_def)

section \<open>Which bitmaps ride along\<close>

definition is_tracking :: "string \<Rightarrow> bool" where
  "is_tracking name \<longleftrightarrow> startswith name CBT_PERSISTENT_TRACKING_PREFIX"

text \<open>A state is written for tracking bitmaps only, and only they are created.\<close>

definition tracking_only :: "event \<Rightarrow> bool" where
  "tracking_only e =
     (case fst e of
        Fs (WriteFile _ (PDict d)) \<Rightarrow> list_all (\<lambda>(k, _). is_tracking k) d
      | Fs (WriteFile _ _) \<Rightarrow> False
      | Qmp _ cmd args \<Rightarrow> cmd \<noteq> ''block-dirty-bitmap-add'' \<or>
          (\<exists>name. dget args ''name'' = Some (PStr name) \<and> is_tracking name)
      | _ \<Rightarrow> True)"

definition enables_bitmap :: "event \<Rightarrow> bool" where
  "enables_bitmap e = (case fst e of Qmp _ cmd _ \<Rightarrow> cmd = ''block-dirty-bitmap-enable'' | _ \<Rightarrow> False)"

text \<open>What the hooks of the bitmaps may do: talk to qemu, read properties, keep their files.\<close>

definition hook_event :: "event \<Rightarrow> bool" where
  "hook_event e \<longleftrightarrow> (cbt_event e \<or> inspects e) \<and> tracking_only e"

lemma hook_events [simp]:
  "hook_event (Fs (Exists p), r)" "hook_event (Fs (IsDir p), r)" "hook_event (Fs (MakeDirs p), r)"
  "hook_event (Fs (ReadFile p), r)" "hook_event (Fs (Glob p), r)" "hook_event (Fs (Rename p q), r)"
  "hook_event (Fs (Unlink p), r)"
  "cmd \<noteq> ''block-dirty-bitmap-add'' \<Longrightarrow> hook_event (Qmp sock cmd args, r)"
  "hook_event (Qmp sock ''block-dirty-bitmap-add'' (a # (''name'', PStr name) # as), r) \<longleftrightarrow>
     fst a = ''name'' \<and> (\<exists>n. snd a = PStr n \<and> is_tracking n) \<or> fst a \<noteq> ''name'' \<and> is_tracking name"
  "hook_event (Fs (WriteFile p (PDict d)), r) \<longleftrightarrow> list_all (\<lambda>(k, _). is_tracking k) d"
  "hook_event (Popen [''zfs'', ''get'', ''-Hp'', ''-o'', ''value'', prop, z], r)"
  by (auto simp: hook_event_def tracking_only_def inspects_simps dget_def split: if_splits)

lemma spec_tracking_names:
  "spec (tracking_names bs :: ('w, string list) prog) (\<lambda>names t. t = [] \<and> list_all is_tracking names) (\<lambda>_ t. t = [])"
proof (induction bs)
  case Nil
  show ?case by (simp add: spec_ret)
next
  case (Cons b bs)
  have keep: "is_persistent_tracking_bitmap (PStr s) = Inr (s \<noteq> [] \<and> is_tracking s)" for s
    by (simp add: is_persistent_tracking_bitmap_def is_tracking_def)
  have other: "is_persistent_tracking_bitmap v \<noteq> Inr True" if "\<And>s. v \<noteq> PStr s" for v
    using that by (cases v) (auto simp: is_persistent_tracking_bitmap_def)
  have rest: "spec (bind (if k then as_str v else ret []) (\<lambda>s. bind (tracking_names bs)
      (\<lambda>names. ret (if k then s # names else names))) :: ('w, string list) prog)
      (\<lambda>names t. t = [] \<and> list_all is_tracking names) (\<lambda>_ t. t = [])"
    if "is_persistent_tracking_bitmap v = Inr k" for v k
  proof (cases k)
    case True
    with that other obtain s where "v = PStr s" by metis
    with True that keep show ?thesis
      by (auto intro!: spec_intros spec_mono [OF Cons.IH])
  next
    case False
    then show ?thesis by (auto intro!: spec_intros spec_mono [OF Cons.IH])
  qed
  then show ?case
    by (auto simp: Let_def intro!: spec_intros split: sum.splits)
qed

lemma spec_try_some:
  "spec m (\<lambda>x t. Q (Some x) t) (\<lambda>_ t. Q None t) \<Longrightarrow> spec (try_some m) Q R"
  unfolding try_some_def
  by (rule spec_catch, rule spec_bind, erule spec_mono) (auto intro!: spec_ret)

lemma emits_try_some [emits_intros]: "emits A m \<Longrightarrow> emits A (try_some m)"
  unfolding try_some_def by (intro emits_intros)

lemma emits_run_quietly [emits_intros]: "emits A m \<Longrightarrow> emits A (run_quietly m)"
  unfolding run_quietly_def by (intro emits_intros)

lemma hook_export_step: "emits hook_event (export_step E qd name)"
  unfolding export_step_def qemu_op_defs by (intro emits_intros; simp)

lemma spec_export_each:
  "list_all is_tracking names \<Longrightarrow> list_all (\<lambda>(k, _). is_tracking k) payload \<Longrightarrow>
   spec (export_each E qd names payload)
     (\<lambda>p t. list_all (\<lambda>(k, _). is_tracking k) p \<and> list_all hook_event t) (\<lambda>_ t. list_all hook_event t)"
proof (induction names arbitrary: qd payload)
  case Nil
  then show ?case by (simp add: spec_ret)
next
  case (Cons name names)
  have dset_keys: "list_all (\<lambda>(k, _). is_tracking k) (dset name v payload)" for v
    using Cons.prems by (induction payload) auto
  have "spec (export_each E qd' names (case r of None \<Rightarrow> payload | Some p \<Rightarrow> dset name (PDict p) payload))
     (\<lambda>p u. list_all (\<lambda>(k, _). is_tracking k) p \<and> list_all hook_event (t @ u)) (\<lambda>_ u. list_all hook_event (t @ u))"
    if "list_all hook_event t" for qd' r t
    by (rule spec_mono [OF Cons.IH]) (use that Cons.prems dset_keys in \<open>auto split: option.splits\<close>)
  then show ?case
    unfolding export_each.simps
    by (intro spec_bind spec_mono [OF hook_export_step [unfolded emits_def]])
      (auto simp: list_all_iff [of hook_event])
qed

lemma emits_spec: "emits A m \<Longrightarrow> spec m (\<lambda>_ t. list_all A t) (\<lambda>_ t. list_all A t)"
  unfolding emits_def by (simp add: list_all_iff)

lemma hook_reads:
  "emits hook_event (qemu_of_device E dev)" "emits hook_event (resolve_sr_uri E dev)"
  "emits hook_event (migrate_quietly E sr dev)" "emits hook_event (cbt_list_bitmaps E qd)"
proof -
  have socks: "emits hook_event (first_socket E dev socks)" for socks
    by (induction socks) (auto simp: qemu_op_defs intro!: emits_intros)
  show "emits hook_event (qemu_of_device E dev)"
    unfolding qemu_of_device_def qemu_op_defs by (intro emits_intros socks; simp)
  show "emits hook_event (resolve_sr_uri E dev)"
    unfolding resolve_sr_uri_def zfs_get_property_def
    by (auto intro!: emits_intros split: list.splits)
  show "emits hook_event (migrate_quietly E sr dev)"
    unfolding migrate_quietly_def migrate_legacy_cbt_metadata_def Let_def by (intro emits_intros; simp)
  show "emits hook_event (cbt_list_bitmaps E qd)"
    unfolding qemu_op_defs by (intro emits_intros; simp)
qed

lemma hook_persist: "emits hook_event (cbt_persist_on_deactivate E dev)"
proof -
  have save: "emits hook_event (save_cbt_metadata E sr key (PDict p))" if "list_all (\<lambda>(k, _). is_tracking k) p" for sr key p
    unfolding save_cbt_metadata_def mkdir_p_def Let_def by (intro emits_intros) (simp_all add: that)
  have export: "emits hook_event (bind (export_each E qd names [])
      (\<lambda>p. if p = [] then ret () else save_cbt_metadata E sr key (PDict p)))"
    if names: "list_all is_tracking names" for qd names sr key
  proof -
    have "spec (if p = [] then ret () else save_cbt_metadata E sr key (PDict p))
        (\<lambda>_ u. \<forall>e \<in> set (t @ u). hook_event e) (\<lambda>_ u. \<forall>e \<in> set (t @ u). hook_event e)"
      if "list_all (\<lambda>(k, _). is_tracking k) p" "list_all hook_event t" for p t
      by (rule spec_mono [OF emits_if [OF emits_ret save, OF that(1), unfolded emits_def]])
        (use that(2) in \<open>auto simp: list_all_iff\<close>)
    then show ?thesis
      unfolding emits_def
      by (intro spec_bind spec_mono [OF spec_export_each [OF names]]) (auto simp: list_all_iff)
  qed
  have names: "emits hook_event (bind (bind (cbt_list_bitmaps E qd) tracking_names) f)"
    if f: "\<And>names. list_all is_tracking names \<Longrightarrow> emits hook_event (f names)" for qd and f :: "string list \<Rightarrow> ('a, unit) prog"
    unfolding emits_def bind_assoc
    apply (rule spec_bind, rule spec_mono [OF hook_reads(4) [unfolded emits_def]])
     apply (rule spec_bind, rule spec_mono [OF spec_tracking_names])
      apply (auto intro!: spec_mono [OF f [unfolded emits_def]])
    done
  show ?thesis
    unfolding cbt_persist_on_deactivate_def
    by (intro emits_bind [OF hook_reads(1)] emits_option_case emits_ret names emits_if emits_bind [OF hook_reads(2)]
        emits_andthen hook_reads(3) export)
qed

text \<open>
  C26. Deactivate never raises; every call it makes is a query, a command of qemu's monitor or
  a file operation, every state it writes and every bitmap it creates is of a tracking bitmap.
\<close>

theorem deactivate_contract:
  "spec (deactivate E uri) (\<lambda>_ t. list_all hook_event t) (\<lambda>_ _. False)"
  unfolding deactivate_def run_quietly_def
  by (auto intro!: spec_ret spec_catch spec_mono [OF emits_spec [OF hook_persist]] split: sum.splits)

lemma emits_conj: "emits A m \<Longrightarrow> emits B m \<Longrightarrow> emits (\<lambda>e. A e \<and> B e) m"
  unfolding emits_def by (erule (1) spec_mono [OF spec_conj]) auto

lemma hook_restore: "emits hook_event (cbt_restore_on_activate E dev)"
proof -
  have one: "emits hook_event (case is_persistent_tracking_bitmap (PStr name) of
      Inr True \<Rightarrow> run_quietly (prepare_bitmap_from_payload E qd name p) | _ \<Rightarrow> ret ())" for qd name p
  proof (cases "is_persistent_tracking_bitmap (PStr name) = Inr True")
    case True
    then have "is_tracking name"
      by (auto simp: is_persistent_tracking_bitmap_def is_tracking_def split: if_splits)
    then have "emits hook_event (prepare_bitmap_from_payload E qd name p)"
      unfolding prepare_bitmap_from_payload_def qemu_op_defs Let_def
      by (cases p) (auto intro!: emits_intros)
    with True show ?thesis by (simp add: emits_run_quietly)
  next
    case False
    then show ?thesis by (auto intro: emits_ret split: sum.splits bool.splits)
  qed
  show ?thesis
    unfolding cbt_restore_on_activate_def restore_each_def load_cbt_metadata_def Let_def
    by (auto intro!: emits_bind [OF hook_reads(1)] emits_bind [OF hook_reads(2)] emits_bind hook_reads(3) emits_option_case
        emits_ret emits_andthen emits_for_each one emits_if emits_path_exists emits_fs split: pyval.splits)
qed

lemma restore_never_enables: "emits (\<lambda>e. \<not> enables_bitmap e) (cbt_restore_on_activate E dev)"
proof -
  have socks: "emits (\<lambda>e. \<not> enables_bitmap e) (first_socket E dev socks)" for socks
    by (induction socks) (auto simp: qemu_op_defs enables_bitmap_def intro!: emits_intros)
  have prep: "emits (\<lambda>e. \<not> enables_bitmap e) (prepare_bitmap_from_payload E qd name p)" for qd name p
    unfolding prepare_bitmap_from_payload_def qemu_op_defs Let_def
    by (cases p) (auto simp: enables_bitmap_def intro!: emits_intros)
  show ?thesis
    unfolding cbt_restore_on_activate_def restore_each_def load_cbt_metadata_def Let_def qemu_of_device_def
      qemu_op_defs resolve_sr_uri_def zfs_get_property_def migrate_quietly_def migrate_legacy_cbt_metadata_def
    by (auto simp: enables_bitmap_def intro!: emits_intros socks [unfolded enables_bitmap_def] prep [unfolded enables_bitmap_def]
        split: pyval.splits list.splits sum.splits bool.splits)
qed

lemma emits_features:
  assumes "\<And>z k r. A (Popen [''zfs'', ''get'', ''-Hp'', ''-o'', ''value'', k, z], r)"
    and "\<And>p r. A (Fs (Exists p), r)" and "\<And>p r. A (Fs (ReadFile p), r)"
  shows "emits A (get_zvol_features E dev)"
proof -
  have gets: "emits A (zfs_get_property E z k)" for z k
    unfolding zfs_get_property_def by (intro emits_intros assms)
  have steps: "emits A (feature_steps ss f)" if "\<And>m g. m \<in> set ss \<Longrightarrow> emits A (m g)" for ss f
    using that by (induction ss arbitrary: f) (auto intro!: emits_intros)
  show ?thesis
    unfolding get_zvol_features_def Let_def provisioning_feature_def volblocksize_feature_def sector_feature_def
      info_feature_def get_block_device_sectors_def read_size_def read_text_def
    by (auto intro!: emits_intros steps gets assms)
qed

text \<open>
  Activate makes only calls of that kind and never enables a bitmap: restored bitmaps stay as
  they were created, and tracking that was off stays off.
\<close>

theorem activate_never_enables: "emits (\<lambda>e. hook_event e \<and> \<not> enables_bitmap e) (activate E uri)"
  unfolding activate_def device_of_def
  by (intro emits_bind emits_andthen emits_run_quietly emits_conj hook_restore restore_never_enables
      emits_features emits_sum_case emits_prod_case emits_if emits_path_exists emits_ret emits_raise)
    (simp_all add: enables_bitmap_def)

section \<open>Ending a daemon\<close>

lemma spec_stop_scm_proxy:
  "spec (stop_scm_proxy E qd)
     (\<lambda>qd' t. length t \<le> 43 \<and> qd_pid qd' = qd_pid qd \<and> qd_qmp_sock qd' = qd_qmp_sock qd) (\<lambda>_ t. length t \<le> 43)"
proof -
  have kill: "spec (kill_pid E pid sig) (\<lambda>_ t. length t \<le> 1) (\<lambda>_ t. length t \<le> 1)" for pid sig
    unfolding kill_pid_def os_kill_def by (cases pid) (auto intro!: spec_intros)
  have signals: "spec (catch_if is_OSError
        (andthen (kill_pid E pid SIGTERM) (bind (wait_gone E pid 20) (\<lambda>gone.
           only_if (\<not> gone) (kill_pid E pid SIGKILL)))) (\<lambda>_. ret ()))
      (\<lambda>_ t. length t \<le> 42) (\<lambda>_ t. length t \<le> 42)" for pid
    by (intro spec_catch_if spec_andthen spec_bind spec_mono [OF kill] spec_mono [OF wait_gone_polls] spec_only_if)
      (auto intro!: spec_ret spec_mono [OF kill])
  have drop: "spec (unlink_quietly E p) (\<lambda>_ t. length t \<le> 1) (\<lambda>_ t. length t \<le> 1)" for p
    unfolding unlink_quietly_def fs_do_def by (auto intro!: spec_intros)
  have sock: "spec (if py_truth v then bind (as_str v) (unlink_quietly E) else ret ())
      (\<lambda>_ t. length t \<le> 1) (\<lambda>_ t. length t \<le> 1)" for v
    by (auto intro!: spec_intros spec_mono [OF drop])
  show ?thesis
    unfolding stop_scm_proxy_def
    by (intro spec_if spec_andthen spec_ret spec_mono [OF signals] spec_mono [OF sock]) auto
qed

text \<open>
  C27. Stopping a daemon ends after at most 85 calls, and when it returns, the daemon has
  answered quit or was sent SIGKILL.
\<close>

theorem quit_escalates:
  assumes "qd_pid qd = PInt p"
  shows "spec (quit E qd)
     (\<lambda>_ t. length t \<le> 85 \<and>
        ((Qmp (qd_qmp_sock qd) ''quit'' [], Some 0) \<in> set t \<or> (\<exists>r. (Kill p SIGKILL, r) \<in> set t)))
     (\<lambda>_ t. length t \<le> 85)"
proof -
  have stop: "spec (catch (qmp_do E q ''quit'' []) (\<lambda>_. catch_if is_OSError (kill_pid E (PInt p) SIGKILL) (\<lambda>_. ret ())))
      (\<lambda>_ t. length t \<le> 2 \<and> ((Qmp (qd_qmp_sock q) ''quit'' [], Some 0) \<in> set t \<or> (\<exists>r. (Kill p SIGKILL, r) \<in> set t)))
      (\<lambda>_ t. length t \<le> 2)" for q
    unfolding kill_pid_def os_kill_def by (auto intro!: spec_intros)
  show ?thesis
    unfolding quit_def assms
    by (simp, rule spec_bind, rule spec_mono [OF spec_stop_scm_proxy])
      (auto simp: assms intro!: spec_andthen spec_mono [OF stop] spec_mono [OF wait_gone_polls] spec_ret)
qed

theorem quit_escalates_witness:
  "spec (quit bare_env (disk_of_record 7 ''/d''))
     (\<lambda>_ t. length t \<le> 85 \<and> ((Qmp ''/q'' ''quit'' [], Some 0) \<in> set t \<or> (\<exists>r. (Kill 7 9, r) \<in> set t))) (\<lambda>_ t. length t \<le> 85)"
  using quit_escalates [OF disk_of_record_fields(1), of bare_env 7 "''/d''"]
  by (simp add: SIGKILL_def disk_of_record_def QemuDiskRaw_def)

lemma spec_perform_fails:
  assumes "\<And>w. \<exists>e. fst (f w) = Inl e"
  shows "spec (perform c code f) (\<lambda>_ _. False) (\<lambda>_ t. t = [(c, None)])"
proof (rule specI)
  fix s :: "'a st"
  obtain r w where r: "f (world s) = (r, w)" by force
  with assms [of "world s"] obtain e where "r = Inl e" by auto
  with r show "\<exists>t. trace (snd (perform c code f s)) = trace s @ t \<and>
        (case fst (perform c code f s) of Inr x \<Rightarrow> False | Inl e \<Rightarrow> t = [(c, None)])"
    by (simp add: perform_def)
qed

text \<open>
  Detach raises when the record of the daemon cannot be read, instead of going on with the
  clean-up.
\<close>

theorem detach_fails_on_unreadable:
  assumes "parse_uri uri = Inr (sr, dev)"
    and "\<And>w. fst (e_fs_bool E (Exists (metadata_path (device_key E dev))) w) = Inr True"
    and "\<And>w. \<exists>e. fst (e_fs_read E (metadata_path (device_key E dev)) w) = Inl e"
  shows "spec (detach E uri) (\<lambda>_ _. False) (\<lambda>_ t. list_all quiet t)"
proof -
  let ?f = "metadata_path (device_key E dev)"
  have ex: "spec (path_exists E ?f) (\<lambda>b t. b \<and> t = [(Fs (Exists ?f), Some 1)]) (\<lambda>_ _. False)"
  proof -
    have "returns (path_exists E ?f) True" unfolding path_exists_def by (rule returns_perform) (rule assms(2))
    from spec_returns [OF this spec_path_exists [where Q = "\<lambda>b t. t = [(Fs (Exists ?f), Some (if b then 1 else 0))]"]]
    show ?thesis by (rule spec_mono) auto
  qed
  have rd: "spec (read_pickle E ?f) (\<lambda>_ _. False) (\<lambda>_ t. t = [(Fs (ReadFile ?f), None)])"
    unfolding read_pickle_def by (rule spec_perform_fails) (rule assms(3))
  have "spec (load_metadata E (device_key E dev)) (\<lambda>_ _. False) (\<lambda>_ t. list_all quiet t)"
    unfolding load_metadata_def
    by (rule spec_bind, rule spec_mono [OF ex])
      (auto simp: quiet_simps intro!: spec_bind spec_mono [OF rd])
  then show ?thesis
    unfolding detach_def stop_daemon_def Let_def assms(1)
    by (auto intro!: spec_bind elim!: spec_mono)
qed

definition torn_env :: "unit env" where
  "torn_env = bare_env\<lparr>e_fs_bool := \<lambda>_. returning True, e_fs_read := \<lambda>_ w. (Inl UnpicklingError, w)\<rparr>"

theorem detach_fails_on_unreadable_witness:
  "spec (detach torn_env ''raw+qdisk://zfs-live//dev/zvol/p/d/u'') (\<lambda>_ _. False) (\<lambda>_ t. list_all quiet t)"
proof (rule detach_fails_on_unreadable)
  show "parse_uri ''raw+qdisk://zfs-live//dev/zvol/p/d/u'' = Inr (''zfs-live'', ''/dev/zvol/p/d/u'')"
    using parse_volume_uri [of "''p/d/u''"] by (simp add: RAW_QDISK_PREFIX_def)
qed (simp_all add: torn_env_def returning_def)

section \<open>Inbound migration\<close>

definition forks_proxy :: "string \<Rightarrow> call \<Rightarrow> bool" where
  "forks_proxy scm c \<longleftrightarrow> (\<exists>nbd. c = Fork scm nbd)"

text \<open>A record of the device with a proxy at the socket \<open>scm\<close> is written.\<close>

definition writes_record :: "string \<Rightarrow> string \<Rightarrow> call \<Rightarrow> bool" where
  "writes_record key scm c \<longleftrightarrow>
     (\<exists>d pid. c = Fs (WriteFile (metadata_path key) (PDict d)) \<and>
        dget d ''scm_proxy_pid'' = Some (PInt pid) \<and> dget d ''scm_sock_path'' = Some (PStr scm))"

text \<open>
  A record answered for: its daemon answered signal 0, then its proxy did, and \<open>sock\<close> is its
  proxy's socket.
\<close>

definition both_answered :: "qemu_disk \<Rightarrow> pyval \<Rightarrow> event list \<Rightarrow> bool" where
  "both_answered qd sock t \<longleftrightarrow>
     (\<exists>p q. qd_pid qd = PInt p \<and> qd_scm_proxy_pid qd = PInt q \<and> sock = qd_scm_sock_path qd \<and>
        did [(=) (Kill p 0), (=) (Kill q 0)] t)"

lemma both_answered_before: "both_answered qd sock u \<Longrightarrow> both_answered qd sock (t @ u)"
  unfolding both_answered_def by (auto intro: did_before)

lemma spec_alive_did:
  "spec (pid_alive E pid) (\<lambda>b t. b \<longrightarrow> (\<exists>p. pid = PInt p \<and> did [(=) (Kill p 0)] t)) (\<lambda>_ _. True)"
  unfolding pid_alive_def kill_pid_def os_kill_def
  by (cases pid) (auto intro!: spec_intros did_one)

lemma spec_reuse_proxy:
  "spec (reuse_proxy E key qd) (\<lambda>r t. \<forall>sock. r = Some sock \<longrightarrow> both_answered qd sock t) (\<lambda>_ _. True)"
proof -
  have any: "spec m (\<lambda>_ _. True) (\<lambda>_ _. True)" if "emits (\<lambda>_. True) m" for m :: "('w, unit) prog"
    using that unfolding emits_def by (rule spec_mono) simp_all
  have two: "both_answered qd (qd_scm_sock_path qd) (t @ u)"
    if "qd_pid qd = PInt p" "did [(=) (Kill p 0)] t" "qd_scm_proxy_pid qd = PInt q" "did [(=) (Kill q 0)] u" for t u p q
    using that did_append [of "[(=) (Kill p 0)]" t "[(=) (Kill q 0)]" u] by (auto simp: both_answered_def)
  show ?thesis
    unfolding reuse_proxy_def
    by (rule spec_bind, rule spec_mono [OF spec_alive_did])
      (auto intro!: spec_bind spec_andthen spec_ret spec_mono [OF spec_alive_did] two
        spec_mono [OF any [OF emits_run_quietly [OF emits_mono [OF emits_quit(1) TrueI]]]]
        spec_mono [OF any [OF emits_mono [OF emits_quit(3) TrueI]]] split: if_split_asm)
qed

lemma spec_start_scm:
  "spec (start_scm_daemon E scm nbd) (\<lambda>_ t. did [(=) (Listen scm), forks_proxy scm] t) (\<lambda>_ _. True)"
proof -
  have "achieves (\<lambda>_. False) ([] @ [(=) (Listen scm)] @ [forks_proxy scm]) (start_scm_daemon E scm nbd)"
    unfolding start_scm_daemon_def
    by (intro achieves_andthen achieves_never achieves_call0)
      (auto simp: never_def forks_proxy_def unlink_quietly_def intro!: emits_intros)
  then show ?thesis unfolding achieves_def by (rule spec_mono) auto
qed

lemma spec_save_record:
  assumes "qd_scm_proxy_pid qd = PInt pid" and "qd_scm_sock_path qd = PStr scm"
  shows "spec (save_metadata E key qd) (\<lambda>_ t. did [writes_record key scm] t) (\<lambda>_ _. True)"
proof -
  have "achieves (\<lambda>_. False) ([] @ [writes_record key scm]) (save_metadata E key qd)"
    unfolding save_metadata_def mkdir_p_def fs_do_def
    by (intro achieves_andthen achieves_never achieves_call0)
      (auto simp: never_def writes_record_def metadata_of_def dget_def assms intro!: emits_intros)
  then show ?thesis unfolding achieves_def by (rule spec_mono) auto
qed

lemma spec_after_value:
  assumes "spec m (\<lambda>x _. P x) (\<lambda>_ _. True)" and "\<And>x. P x \<Longrightarrow> spec (f x) Q (\<lambda>_ _. True)"
    and "\<And>y t u. Q y u \<Longrightarrow> Q y (t @ u)"
  shows "spec (bind m f) Q (\<lambda>_ _. True)"
  by (rule spec_bind, rule spec_mono [OF assms(1)]) (auto intro: spec_mono [OF assms(2)] assms(3))

lemma extends_value: "extends m \<Longrightarrow> spec m (\<lambda>_ _. True) (\<lambda>_ _. True)"
  unfolding emits_def by (rule spec_mono) simp_all

lemma extends_load: "extends (load_metadata E key)"
  by (intro emits_intros TrueI)

lemma extends_save: "extends (save_metadata E key qd)"
  unfolding save_metadata_def mkdir_p_def by (intro emits_intros TrueI)

lemma extends_ensure: "extends (ensure_qemu_daemon E key dev)"
proof -
  note q = emits_mono [OF emits_quit(1) TrueI] emits_mono [OF emits_quit(2) TrueI] emits_mono [OF emits_quit(3) TrueI]
  have backing: "extends (backing_exists E v)" for v
    unfolding backing_exists_def by (intro emits_intros TrueI)
  have entry: "extends (gc_entry E k)" for k
    unfolding gc_entry_def gc_loaded_def by (intro emits_intros q backing TrueI)
  have pidfile: "extends (read_pidfile E p n)" for p n
    by (induction n) (auto simp: read_text_def intro!: emits_intros)
  have group: "extends (set_cgroup E p c)" for p c
    unfolding set_cgroup_def by (auto intro!: emits_intros split: list.splits)
  have spawn: "extends (spawn_daemon E k d)" for k d
    unfolding spawn_daemon_def create_daemon_def mkdir_p_def Let_def
    by (intro emits_intros pidfile group extends_save TrueI)
  show ?thesis
    unfolding ensure_qemu_daemon_def gc_orphan_daemons_def list_dir_def
    by (intro emits_intros entry spawn q TrueI)
qed

lemma extends_tcp: "extends (start_tcp_nbd_export E qd key)"
  unfolding start_tcp_nbd_export_def qmp_do_def qmp_command_def
  by (intro emits_intros emits_perform TrueI)

lemma spec_device_of: "spec (device_of E missing uri) (\<lambda>dev _. \<exists>sr. parse_uri uri = Inr (sr, dev)) (\<lambda>_ _. True)"
  unfolding device_of_def by (auto intro!: spec_intros split: sum.splits)

definition scm_path_of :: "'w env \<Rightarrow> string \<Rightarrow> string" where
  "scm_path_of E dev = path_join socket_dir (''scm.'' @ device_key E dev)"

lemma spec_proxy_tail:
  assumes "\<And>pid. qd_scm_proxy_pid (qd pid) = PInt pid" and "\<And>pid. qd_scm_sock_path (qd pid) = PStr scm"
  shows "spec (bind (start_scm_daemon E scm nbd) (\<lambda>pid. andthen (save_metadata E key (qd pid)) (ret x)))
     (\<lambda>y t. y = x \<and> did [(=) (Listen scm), forks_proxy scm, writes_record key scm] t) (\<lambda>_ _. True)"
proof -
  have "did [(=) (Listen scm), forks_proxy scm, writes_record key scm] (t @ u)"
    if "did [(=) (Listen scm), forks_proxy scm] t" "did [writes_record key scm] u" for t u
    using did_append [OF that] by simp
  then show ?thesis
    by (intro spec_bind spec_mono [OF spec_start_scm] spec_andthen spec_mono [OF spec_save_record [OF assms]] spec_ret) auto
qed

text \<open>
  What an answer for the device of a URI stands for: the daemon and the proxy of the device's
  record both answered and the answer is that proxy's socket, or the answer is the device's own
  socket, on which a proxy listens that has been forked and is in the record of the device.
\<close>

definition proxy_ready :: "'w env \<Rightarrow> string \<Rightarrow> pyval \<Rightarrow> event list \<Rightarrow> bool" where
  "proxy_ready E uri sock t \<longleftrightarrow> (\<exists>sr dev. parse_uri uri = Inr (sr, dev) \<and>
     ((\<exists>qd. recorded E (device_key E dev) qd \<and> both_answered qd sock t) \<or>
      sock = PStr (scm_path_of E dev) \<and>
        did [(=) (Listen (scm_path_of E dev)), forks_proxy (scm_path_of E dev), writes_record (device_key E dev) (scm_path_of E dev)] t))"

lemma proxy_ready_mono: "proxy_ready E uri sock u \<Longrightarrow> proxy_ready E uri sock (t @ u)"
  unfolding proxy_ready_def by (blast intro: did_before both_answered_before)

lemma spec_new_proxy:
  assumes "parse_uri uri = Inr (sr, dev)"
  shows "spec (bind (ensure_qemu_daemon E (device_key E dev) dev) (\<lambda>daemon.
     bind (start_tcp_nbd_export E daemon (device_key E dev)) (\<lambda>port.
     bind (of_option PyAttributeError daemon) (\<lambda>qd.
     bind (start_scm_daemon E (scm_path_of E dev) (qd_nbd_unix_sock qd)) (\<lambda>proxy_pid.
     andthen (save_metadata E (device_key E dev)
         (qd\<lparr>qd_scm_proxy_pid := PInt proxy_pid, qd_scm_sock_path := PStr (scm_path_of E dev)\<rparr>))
       (ret (PStr (scm_path_of E dev))))))))
     (proxy_ready E uri) (\<lambda>_ _. True)"
  by (rule spec_after_value [OF extends_value [OF extends_ensure]],
      rule spec_after_value [OF extends_value [OF extends_tcp]],
      rule spec_after_value [OF extends_value [OF emits_of_option]],
      rule spec_mono [OF spec_proxy_tail])
    (use assms in \<open>auto simp: proxy_ready_def [of _ _ "PStr _"] intro: proxy_ready_mono\<close>)

lemma spec_loaded: "spec (load_metadata E key) (\<lambda>m _. \<forall>qd. m = Some qd \<longrightarrow> recorded E key qd) (\<lambda>_ _. True)"
  by (rule spec_mono [OF spec_load_recorded]) auto

lemma spec_reused:
  assumes "\<forall>qd. ex = Some qd \<longrightarrow> recorded E key qd"
  shows "spec (case ex of None \<Rightarrow> ret None | Some qd \<Rightarrow> reuse_proxy E key qd)
      (\<lambda>r t. \<forall>sock. r = Some sock \<longrightarrow> (\<exists>qd. recorded E key qd \<and> both_answered qd sock t)) (\<lambda>_ _. True)"
  using assms by (cases ex) (auto intro: spec_ret spec_mono [OF spec_reuse_proxy])

text \<open>
  C28. Import-activate answers with a socket only when the daemon's and then the proxy's
  process of one record of the device both answered and the socket is that proxy's, or the
  socket is the device's own and a new proxy listens at it, was forked and was written to the
  record of the device as its proxy, in this order.
\<close>

theorem import_activate_ready:
  "spec (import_activate E uri) (proxy_ready E uri) (\<lambda>_ _. True)"
proof -
  have ready: "proxy_ready E uri x (t @ [])"
    if "parse_uri uri = Inr (sr, dev)" "\<exists>qd. recorded E (device_key E dev) qd \<and> both_answered qd x t" for x t sr dev
    using that by (auto simp: proxy_ready_def)
  show ?thesis
    unfolding import_activate_def Let_def scm_path_of_def [symmetric]
    by (rule spec_after_value [OF spec_device_of], elim exE,
        rule spec_after_value [OF spec_loaded],
        rule spec_bind, rule spec_mono [OF spec_reused], assumption)
      (auto split: option.splits intro!: spec_ret spec_mono [OF spec_new_proxy] intro: ready proxy_ready_mono)
qed

text \<open>
  The port is taken from a socket used as a context manager, which sockets of Python 2 are not:
  the AttributeError is outside the handler. Then a call answers only with a proxy that was
  there before, and none ever comes to be.
\<close>

lemma import_activate_needs_port:
  assumes "\<And>w. fst (e_free_port E w) = Inl e"
  shows "spec (import_activate E uri) (\<lambda>sock t. \<exists>qd. both_answered qd sock t) (\<lambda>_ _. True)"
proof -
  have tcp: "spec (start_tcp_nbd_export E qd key) (\<lambda>_ _. False) (\<lambda>_ _. True)" for qd key
    unfolding start_tcp_nbd_export_def
    by (rule spec_bind, rule spec_mono [OF spec_perform_fails]) (use assms in \<open>auto simp: fun_eq_iff\<close>)
  have fresh: "spec (bind (ensure_qemu_daemon E key dev) (\<lambda>daemon.
      bind (start_tcp_nbd_export E daemon key) (f daemon))) Q (\<lambda>_ _. True)" for key dev f Q
    by (rule spec_bind, rule spec_mono [OF extends_value [OF extends_ensure]], rule spec_bind,
        rule spec_mono [OF tcp]) simp_all
  show ?thesis
    unfolding import_activate_def Let_def
    by (rule spec_after_value [OF spec_device_of], rule spec_after_value [OF spec_loaded],
        rule spec_bind, rule spec_mono [OF spec_reused], assumption)
      (auto split: option.splits intro!: spec_ret fresh intro: both_answered_before)
qed

end
