(* ===== verification/ZfsFeatures.thy ===== *)
theory ZfsFeatures
  imports ZfsOps "HOL-Library.Char_ord" "HOL-Library.List_Lexorder" "HOL-Library.Product_Lexorder"
begin

text \<open>
  \<^verbatim>\<open>src/src/volume/zfs_features.py\<close> with its two readers: the probe of the OpenZFS version and
  of a pool's feature flags, the capabilities derived from them, the sidecar file that carries
  them to later processes, the summary of \<^verbatim>\<open>sr_capability_summary.py\<close> and the answer of
  \<^verbatim>\<open>plugin_query.py\<close>. The cache of the process is passed as a map; JSON's lists stand for the
  tuples it cannot write.
\<close>

type_synonym version = "int \<times> int \<times> int"
type_synonym feature_cache = "string \<Rightarrow> pydict option"

section \<open>Probing\<close>

definition run_probe :: "'w env \<Rightarrow> string list \<Rightarrow> ('w, string) prog" where
  "run_probe E cmd =
     bind (popen E cmd) (\<lambda>(out, err, rc).
       if rc \<noteq> 0 then raise (RuntimeError (join_with '' '' cmd @ '' exited '' @ str_int rc @ '': '' @ err))
       else ret out)"

text \<open>\<^verbatim>\<open>(\d+)\<close> at the front of a string: the digits and what follows.\<close>

definition take_digits :: "string \<Rightarrow> (int \<times> string) option" where
  "take_digits s =
     (let ds = takeWhile is_digit s in
      if ds = [] then None else Some (int (digits_val 0 ds), dropWhile is_digit s))"

text \<open>
  \<^verbatim>\<open>zfs[_-]?(\d+)\.(\d+)(?:\.(\d+))?\<close> at the front of a string. No digit is a dot, so the greedy
  match never has to give digits back.
\<close>

definition version_at :: "string \<Rightarrow> version option" where
  "version_at s =
     (if \<not> startswith s ''zfs'' then None
      else
        let rest = drop 3 s;
            nums = (if rest \<noteq> [] \<and> hd rest \<in> {CHR ''_'', CHR ''-''} then tl rest else rest) in
        case take_digits nums of
          Some (major, CHR ''.'' # more_nums) \<Rightarrow>
            (case take_digits more_nums of
               None \<Rightarrow> None
             | Some (minor, tail) \<Rightarrow>
                 (case tail of
                    CHR ''.'' # patch_nums \<Rightarrow>
                      (case take_digits patch_nums of
                         Some (patch, _) \<Rightarrow> Some (major, minor, patch)
                       | None \<Rightarrow> Some (major, minor, 0))
                  | _ \<Rightarrow> Some (major, minor, 0)))
        | _ \<Rightarrow> None)"

text \<open>\<^verbatim>\<open>search\<close>: the leftmost match.\<close>

fun search_version :: "string \<Rightarrow> version option" where
  "search_version [] = version_at []"
| "search_version (c # cs) =
     (case version_at (c # cs) of Some v \<Rightarrow> Some v | None \<Rightarrow> search_version cs)"

definition first_line :: "string \<Rightarrow> string" where
  "first_line out = (case splitlines out of [] \<Rightarrow> [] | l # _ \<Rightarrow> l)"

definition probe_zfs_version :: "'w env \<Rightarrow> ('w, version option) prog" where
  "probe_zfs_version E =
     bind (catch (bind (run_probe E [''zfs'', ''version'']) (\<lambda>out. ret (Some out))) (\<lambda>_. ret None))
       (\<lambda>r. ret (case r of None \<Rightarrow> None | Some out \<Rightarrow> search_version (first_line out)))"

definition flags_in :: "string \<Rightarrow> (string \<times> string) list" where
  "flags_in out =
     foldl (\<lambda>flags l. case split_on tab l of
         p # v # _ \<Rightarrow> if startswith p ''feature@'' then dset p v flags else flags
       | _ \<Rightarrow> flags) [] (splitlines out)"

definition probe_pool_features :: "'w env \<Rightarrow> string \<Rightarrow> ('w, (string \<times> string) list) prog" where
  "probe_pool_features E pool =
     bind (catch (bind (run_probe E [''zpool'', ''get'', ''-H'', ''-p'', ''-o'', ''property,value'', ''all'', pool])
                   (\<lambda>out. ret (Some out))) (\<lambda>_. ret None))
       (\<lambda>r. ret (case r of None \<Rightarrow> [] | Some out \<Rightarrow> flags_in out))"

section \<open>Capabilities\<close>

definition KNOWN_FEATURE_FLAGS :: "string list" where
  "KNOWN_FEATURE_FLAGS = map (\<lambda>f. ''feature@'' @ f)
     [''lz4_compress'', ''zstd_compress'', ''encryption'', ''block_cloning'', ''large_blocks'', ''large_dnode'',
      ''async_destroy'', ''embedded_data'', ''extensible_dataset'', ''hole_birth'', ''spacemap_v2'', ''livelist'',
      ''bookmarks'', ''bookmark_v2'', ''bookmark_written'']"

definition FEATURE_ON_STATES :: "string list" where
  "FEATURE_ON_STATES = [''enabled'', ''active'']"

definition flag_on :: "(string \<times> string) list \<Rightarrow> string \<Rightarrow> bool" where
  "flag_on flags f = (case dget flags f of None \<Rightarrow> False | Some v \<Rightarrow> v \<in> set FEATURE_ON_STATES)"

definition version_from :: "version \<Rightarrow> version option \<Rightarrow> bool" where
  "version_from least v = (case v of None \<Rightarrow> False | Some t \<Rightarrow> least \<le> t)"

definition derive_capabilities :: "(string \<times> string) list \<Rightarrow> version option \<Rightarrow> (string \<times> bool) list" where
  "derive_capabilities flags v =
     [(''lz4'', if flag_on flags ''feature@lz4_compress'' then True
                else if dget flags ''feature@lz4_compress'' = None then version_from (0, 6, 5) v
                else False),
      (''zstd'', flag_on flags ''feature@zstd_compress''),
      (''encryption'', flag_on flags ''feature@encryption''),
      (''block_cloning'', flag_on flags ''feature@block_cloning''),
      (''large_blocks'', flag_on flags ''feature@large_blocks'')]"

definition show_version :: "version \<Rightarrow> string" where
  "show_version v = (case v of (a, b, c) \<Rightarrow> str_int a @ ''.'' @ str_int b @ ''.'' @ str_int c)"

definition features_of :: "version option \<Rightarrow> (string \<times> string) list \<Rightarrow> (string \<times> bool) list \<Rightarrow> pydict" where
  "features_of v flags caps =
     [(''zfs_version'', case v of None \<Rightarrow> PNone | Some t \<Rightarrow> PStr (show_version t)),
      (''version_tuple'', case v of None \<Rightarrow> PNone | Some (a, b, c) \<Rightarrow> PList [PInt a, PInt b, PInt c]),
      (''feature_flags'', PDict (map (\<lambda>(k, x). (k, PStr x)) flags)),
      (''capabilities'', PDict (map (\<lambda>(k, b). (k, PBool b)) caps))]"

definition known_flags :: "(string \<times> string) list \<Rightarrow> (string \<times> string) list" where
  "known_flags flags = List.map_filter (\<lambda>k. map_option (Pair k) (dget flags k)) KNOWN_FEATURE_FLAGS"

definition empty_features :: pydict where
  "empty_features = features_of None []
     [(''lz4'', False), (''zstd'', False), (''encryption'', False), (''block_cloning'', False), (''large_blocks'', False)]"

definition probe_features :: "'w env \<Rightarrow> string \<Rightarrow> ('w, pydict) prog" where
  "probe_features E pool =
     bind (probe_zfs_version E) (\<lambda>v.
     bind (probe_pool_features E pool) (\<lambda>flags.
       ret (features_of v (known_flags flags) (derive_capabilities flags v))))"

section \<open>The sidecar\<close>

definition MOUNT_ROOT :: string where "MOUNT_ROOT = ''/var/run/sr-mount''"
definition SIDECAR_FILENAME :: string where "SIDECAR_FILENAME = ''zfs_features.json''"

definition features_path :: "string \<Rightarrow> string" where
  "features_path sr_uuid = path_join (path_join MOUNT_ROOT sr_uuid) SIDECAR_FILENAME"

definition set_cached :: "'w env \<Rightarrow> feature_cache \<Rightarrow> string \<Rightarrow> pydict \<Rightarrow> ('w, feature_cache) prog" where
  "set_cached E cache sr_uuid feats =
     andthen (catch_if (\<lambda>e. e = PyOSError) (fs_do E (WriteFile (features_path sr_uuid) (PDict feats))) (\<lambda>_. ret ()))
       (ret (cache(sr_uuid \<mapsto> feats)))"

definition read_sidecar :: "'w env \<Rightarrow> string \<Rightarrow> ('w, pydict option) prog" where
  "read_sidecar E sr_uuid =
     bind (catch_if (\<lambda>e. e = PyOSError \<or> e = PyValueError)
             (bind (read_pickle E (features_path sr_uuid)) (\<lambda>v. ret (Some v))) (\<lambda>_. ret None))
       (\<lambda>r. case r of None \<Rightarrow> ret None | Some v \<Rightarrow> bind (as_dict v) (\<lambda>d. ret (Some d)))"

definition get_cached :: "'w env \<Rightarrow> feature_cache \<Rightarrow> string \<Rightarrow> ('w, pydict \<times> feature_cache) prog" where
  "get_cached E cache sr_uuid =
     (case cache sr_uuid of
        Some d \<Rightarrow> ret (d, cache)
      | None \<Rightarrow>
          bind (read_sidecar E sr_uuid) (\<lambda>r.
            case r of
              Some d \<Rightarrow> ret (d, cache(sr_uuid \<mapsto> d))
            | None \<Rightarrow> ret (empty_features, cache)))"

definition clear_cached :: "'w env \<Rightarrow> feature_cache \<Rightarrow> string \<Rightarrow> ('w, feature_cache) prog" where
  "clear_cached E cache sr_uuid =
     andthen (catch_if (\<lambda>e. e = PyOSError) (fs_do E (Unlink (features_path sr_uuid))) (\<lambda>_. ret ()))
       (ret (cache(sr_uuid := None)))"

section \<open>The summary\<close>

text \<open>The version is a string or \<^verbatim>\<open>None\<close>, as \<^verbatim>\<open>probe\<close> writes it.\<close>

definition names_where :: "bool \<Rightarrow> pydict \<Rightarrow> string list" where
  "names_where on caps = sort (map fst (filter (\<lambda>(_, v). py_truth v = on) caps))"

definition summary_of :: "pydict \<Rightarrow> ('w, string) prog" where
  "summary_of feats =
     (case dget_or feats ''zfs_version'' PNone of
        PNone \<Rightarrow> ret []
      | v \<Rightarrow>
          bind (as_str v) (\<lambda>shown.
          bind (let c = dget_or feats ''capabilities'' PNone in if py_truth c then as_dict c else ret []) (\<lambda>caps.
            ret (''zfs='' @ shown @ ''; on=['' @ join_with '', '' (names_where True caps) @
                 '']; off=['' @ join_with '', '' (names_where False caps) @ '']''))))"

definition format_capability_summary :: "'w env \<Rightarrow> feature_cache \<Rightarrow> string \<Rightarrow> ('w, string) prog" where
  "format_capability_summary E cache sr_uuid =
     (if sr_uuid = [] then ret []
      else
        bind (catch (bind (get_cached E cache sr_uuid) (\<lambda>(d, _). ret (Some d))) (\<lambda>_. ret None)) (\<lambda>r.
          case r of None \<Rightarrow> ret [] | Some d \<Rightarrow> summary_of d))"

section \<open>The answer to Plugin.Query\<close>

definition BASE_FEATURES :: "string list" where
  "BASE_FEATURES = [''VDI_CREATE'', ''VDI_DESTROY'', ''VDI_RESIZE'', ''VDI_SNAPSHOT'', ''VDI_CLONE'', ''VDI_COPY'',
     ''VDI_MIRROR'', ''VDI_MIRROR_IN'', ''VDI_CONFIG_CBT'']"

definition binary_compression_algorithms :: "version option \<Rightarrow> string list" where
  "binary_compression_algorithms v =
     (if version_from (2, 0, 0) v then [''off'', ''on'', ''zstd'', ''lz4'', ''gzip'', ''zle'', ''lzjb'']
      else [''off'', ''on'', ''lz4'', ''gzip'', ''zle'', ''lzjb''])"

definition binary_default_compression :: "version option \<Rightarrow> string" where
  "binary_default_compression v = (if version_from (2, 0, 0) v then ''zstd'' else ''lz4'')"

definition yes_no :: "bool \<Rightarrow> string" where
  "yes_no b = (if b then ''yes'' else ''no'')"

definition POOL_NOTE :: string where
  "POOL_NOTE = ''binary_* fields above describe what this OpenZFS install supports; per-pool capability state lives in /var/run/sr-mount/<sr-uuid>/zfs_features.json''"

definition query_configuration :: "version option \<Rightarrow> pydict" where
  "query_configuration v =
     (case v of
        None \<Rightarrow> [(''zfs_version'', PStr ''unknown'')]
      | Some t \<Rightarrow>
          [(''zfs_version'', PStr (show_version t)),
           (''binary_compression_algorithms'', PStr (join_with '','' (binary_compression_algorithms v))),
           (''binary_default_compression'', PStr (binary_default_compression v)),
           (''binary_supports_encryption'', PStr (yes_no (version_from (0, 8, 0) v))),
           (''binary_supports_block_cloning'', PStr (yes_no (version_from (2, 2, 0) v))),
           (''pool_capabilities_note'', PStr POOL_NOTE)])"

definition build_query_response :: "('w, version option) prog \<Rightarrow> ('w, pydict) prog" where
  "build_query_response probe_version =
     bind probe_version (\<lambda>v.
       ret [(''plugin'', PStr ''zfs-live''), (''name'', PStr ''ZFS-Live Storage Driver''),
            (''description'', PStr ''Native ZFS zvol-backed block storage with per-VDI compression, snapshots, clones, and CBT''),
            (''vendor'', PStr ''Moksha''), (''copyright'', PStr ''(C) 2026 Moksha''), (''version'', PStr ''3.0''),
            (''required_api_version'', PStr ''5.0''), (''features'', PList (map PStr BASE_FEATURES)),
            (''configuration'', PDict (query_configuration v)), (''required_cluster_stack'', PList [])])"

end
