(* ===== verification/SrPlugin.thy ===== *)
theory SrPlugin
  imports VolumeBase Orphans ZfsFeatures
begin

text \<open>
  \<^verbatim>\<open>src/src/volume/sr.py\<close>: the SR plugin. The device-config is a dictionary of strings; a
  handler runs in a fresh process, so the cache of features starts empty.
\<close>

section \<open>Device-config\<close>

record sr_config =
  dataset_props :: "(string \<times> string) list"
  vdi_defaults :: "(string \<times> string) list"
  sr_settings :: pydict
  config_errors :: "string list"

definition quoted :: "string \<Rightarrow> string" where
  "quoted s = [CHR 0x27] @ s @ [CHR 0x27]"

definition config_error :: "string \<Rightarrow> sr_config \<Rightarrow> sr_config" where
  "config_error msg c = c\<lparr>config_errors := config_errors c @ [msg]\<rparr>"

definition validate_config_value :: "string \<Rightarrow> string \<Rightarrow> string list \<Rightarrow> sr_config \<Rightarrow> sr_config" where
  "validate_config_value param val valid c =
     (if val \<notin> set valid
      then config_error (param @ '' must be one of: '' @ join_with '', '' (sort valid) @ '', got '' @ quoted val) c
      else c)"

definition dataset_option ::
  "(string \<Rightarrow> string) \<Rightarrow> string list \<Rightarrow> string \<Rightarrow> (string \<times> string) list \<Rightarrow> sr_config \<Rightarrow> sr_config" where
  "dataset_option normal valid param conf c =
     (case dget conf param of
        None \<Rightarrow> c
      | Some raw \<Rightarrow>
          let val = normal raw; c' = validate_config_value param val valid c in
          c'\<lparr>dataset_props := dset param val (dataset_props c')\<rparr>)"

definition volblocksize_option :: "(string \<times> string) list \<Rightarrow> sr_config \<Rightarrow> sr_config \<times> int" where
  "volblocksize_option conf c =
     (case dget conf ''volblocksize'' of
        None \<Rightarrow> (c, 8192)
      | Some raw \<Rightarrow>
          (case dget VALID_VOLBLOCKSIZE (py_upper raw) of
             None \<Rightarrow> (config_error (''volblocksize must be one of: '' @
                        join_with '', '' (map fst (sort_key snd VALID_VOLBLOCKSIZE)) @ '', got '' @ quoted raw) c, 8192)
           | Some n \<Rightarrow> (c\<lparr>vdi_defaults := dset ''volblocksize'' (py_upper raw) (vdi_defaults c)\<rparr>, n)))"

definition provisioning_option :: "(string \<times> string) list \<Rightarrow> sr_config \<Rightarrow> sr_config" where
  "provisioning_option conf c =
     (case dget conf ''provisioning'' of
        None \<Rightarrow> c
      | Some raw \<Rightarrow>
          let c' = validate_config_value ''provisioning'' (py_lower raw) VALID_PROVISIONING c in
          c'\<lparr>vdi_defaults := dset ''provisioning'' (py_lower raw) (vdi_defaults c')\<rparr>)"

definition cleanup_option :: "(string \<times> string) list \<Rightarrow> sr_config \<Rightarrow> sr_config" where
  "cleanup_option conf c =
     (case dget conf ''auto_cleanup_orphans'' of
        None \<Rightarrow> c
      | Some raw \<Rightarrow>
          if py_lower raw \<notin> {''true'', ''false''}
          then config_error (''auto_cleanup_orphans must be '' @ quoted ''true'' @ '' or '' @ quoted ''false'' @ '', got '' @ quoted raw) c
          else c\<lparr>sr_settings := dset ''auto_cleanup_orphans'' (PStr (py_lower raw)) (sr_settings c)\<rparr>)"

definition grace_option :: "(string \<times> string) list \<Rightarrow> sr_config \<Rightarrow> sr_config" where
  "grace_option conf c =
     (case dget conf ''orphan_grace_period_seconds'' of
        None \<Rightarrow> c
      | Some raw \<Rightarrow>
          (case py_int raw of
             Some n \<Rightarrow>
               if n < 0 then config_error (''orphan_grace_period_seconds must be a non-negative integer, got '' @ quoted raw) c
               else c\<lparr>sr_settings := dset ''orphan_grace_period_seconds'' (PInt n) (sr_settings c)\<rparr>
           | None \<Rightarrow> config_error (''orphan_grace_period_seconds must be a non-negative integer, got '' @ quoted raw) c))"

definition parse_options :: "(string \<times> string) list \<Rightarrow> sr_config \<times> int" where
  "parse_options conf =
     (let c0 = \<lparr>dataset_props = [], vdi_defaults = [], sr_settings = [], config_errors = []\<rparr>;
          c1 = dataset_option py_lower VALID_COMPRESSION ''compression'' conf c0;
          c2 = dataset_option id VALID_COPIES ''copies'' conf c1;
          c3 = dataset_option py_lower VALID_SYNC ''sync'' conf c2;
          c4 = dataset_option py_lower VALID_ATIME ''atime'' conf c3;
          c5 = dataset_option py_lower VALID_CACHE ''primarycache'' conf c4;
          c6 = dataset_option py_lower VALID_CACHE ''secondarycache'' conf c5;
          c7 = dataset_option py_lower VALID_LOGBIAS ''logbias'' conf c6;
          (c8, blk) = volblocksize_option conf c7 in
      (grace_option conf (cleanup_option conf (provisioning_option conf c8)), blk))"

definition shown_size :: "int \<Rightarrow> string" where
  "shown_size n = (case format_volblocksize (str_int n) of Inr s \<Rightarrow> s | Inl _ \<Rightarrow> [])"

definition min_sector_error :: "int \<Rightarrow> int \<Rightarrow> string" where
  "min_sector_error blk min_sector =
     ''volblocksize ('' @ shown_size blk @ '') is smaller than pool'' @ [CHR 0x27] @ ''s minimum sector size ('' @
     shown_size min_sector @ ''). Use volblocksize >= '' @ shown_size min_sector @ '' for this pool''"

text \<open>\<^verbatim>\<open>1 << ashift\<close> of a negative shift raises; whatever the check raises is dropped.\<close>

definition ashift_check :: "'w env \<Rightarrow> string \<Rightarrow> int \<Rightarrow> sr_config \<Rightarrow> ('w, sr_config) prog" where
  "ashift_check E pool blk c =
     catch
       (bind (pool_get_ashift E pool) (\<lambda>ashift.
          if ashift < 0 then raise PyValueError
          else let min_sector = 2 ^ nat ashift in
               ret (if blk < min_sector then config_error (min_sector_error blk min_sector) c else c)))
       (\<lambda>_. ret c)"

definition parse_zfs_config :: "'w env \<Rightarrow> (string \<times> string) list \<Rightarrow> string \<Rightarrow> ('w, sr_config) prog" where
  "parse_zfs_config E conf pool = (case parse_options conf of (c, blk) \<Rightarrow> ashift_check E pool blk c)"

section \<open>Creating an SR\<close>

definition invalid_configuration :: "string list \<Rightarrow> exn" where
  "invalid_configuration msgs = storage_error ''SR_BACKEND_FAILURE_109'' msgs"

text \<open>\<^verbatim>\<open>path\<close> without outer slashes: the pool and the rest.\<close>

definition split_path :: "string \<Rightarrow> string \<times> string" where
  "split_path path =
     (case split_on CHR ''/'' path of
        [] \<Rightarrow> ([], [])
      | pool # parts \<Rightarrow> (pool, join_with ''/'' parts))"

definition require_pool :: "'w env \<Rightarrow> string \<Rightarrow> ('w, unit) prog" where
  "require_pool E pool =
     bind (pool_is_imported E pool) (\<lambda>imported.
       if imported then ret ()
       else bind (pool_exists E pool) (\<lambda>ex.
         if ex then raise (storage_error ''SR_BACKEND_FAILURE_107'' [''ZFS pool not imported'', pool])
         else raise (storage_error ''SR_BACKEND_FAILURE_107'' [''ZFS pool not found'', pool])))"

text \<open>The first of the datasets that exists and is an SR raises.\<close>

definition refuse_sr_parents :: "'w env \<Rightarrow> string \<Rightarrow> ('w, unit) prog" where
  "refuse_sr_parents E sr_dataset =
     for_each (\<lambda>parent.
         bind (dataset_exists E parent) (\<lambda>ex.
         bind (if ex then dataset_is_sr E parent else ret False) (\<lambda>sr.
           only_if sr (raise (invalid_configuration [''Cannot create SR inside another SR'', parent])))))
       (dataset_get_parents sr_dataset)"

definition adopt_target :: "'w env \<Rightarrow> string \<Rightarrow> string \<Rightarrow> ('w, string \<times> string) prog" where
  "adopt_target E pool parent_path =
     (let sr_dataset = (if parent_path \<noteq> [] then dataset_path pool (Some parent_path) else pool) in
      bind (dataset_exists E sr_dataset) (\<lambda>ex.
        if ex then ret (parent_path, sr_dataset)
        else raise (invalid_configuration [''Dataset not found for adopt'', sr_dataset])))"

definition new_target :: "'w env \<Rightarrow> string \<Rightarrow> string \<Rightarrow> string \<Rightarrow> ('w, string \<times> string) prog" where
  "new_target E pool parent_path sr_uuid =
     (let dataset_name = (if parent_path \<noteq> [] then parent_path @ ''/'' @ sr_uuid else sr_uuid);
          sr_dataset = dataset_path pool (Some dataset_name) in
      bind (dataset_exists E sr_dataset) (\<lambda>ex.
        if ex then raise (invalid_configuration [''Dataset already exists'', dataset_name, pool])
        else andthen (refuse_sr_parents E sr_dataset)
          (bind (dataset_find_child_srs E pool sr_dataset) (\<lambda>child_srs.
             if child_srs \<noteq> []
             then raise (invalid_configuration (''Cannot create SR that contains another SR'' # child_srs))
             else ret (dataset_name, sr_dataset)))))"

text \<open>Registering one zvol of an adopted dataset; the result tells whether it failed.\<close>

definition adopt_zvol :: "'w env \<Rightarrow> string \<Rightarrow> string \<Rightarrow> ('w, bool) prog" where
  "adopt_zvol E mountpoint zvol =
     (let vdi_uuid = last (split_on CHR ''/'' zvol) in
      catch
        (bind (get_zvol_size_bytes E zvol) (\<lambda>sz.
         andthen
           (with_volume_context E mountpoint ''w'' (\<lambda>opq. with_db E opq
             (bind (insert_new_volume E opq sz IMAGE_RAW_QDISK) (\<lambda>vol.
              andthen (db_unit E opq (InsertVdi vdi_uuid [] vdi_uuid (v_id vol) False))
                (db_unit E opq (UpdateVsize (v_id vol) (Some sz)))))))
           (ret False)))
        (\<lambda>_. ret True))"

definition adopt_zvols :: "'w env \<Rightarrow> string \<Rightarrow> string \<Rightarrow> ('w, unit) prog" where
  "adopt_zvols E mountpoint sr_dataset =
     bind (dataset_list_zvols E sr_dataset) (\<lambda>zvols.
     bind (map_prog (adopt_zvol E mountpoint) zvols) (\<lambda>failures.
       let failed = map fst (filter snd (zip zvols failures)) in
       if failed \<noteq> [] then raise (invalid_configuration (''Adopt incomplete'' # failed)) else ret ()))"

definition sr_meta ::
  "string \<Rightarrow> string \<Rightarrow> string \<Rightarrow> string \<Rightarrow> string \<Rightarrow> string \<Rightarrow> sr_config \<Rightarrow> pydict" where
  "sr_meta name desc sr_uuid pool dataset_name datapath c =
     (let base = [(''name'', PStr name), (''description'', PStr desc), (''uuid'', PStr sr_uuid),
                  (''zpool'', PStr pool), (''dataset'', PStr dataset_name), (''datapath'', PStr datapath)];
          with_defaults = (if vdi_defaults c \<noteq> []
            then dset ''vdi_defaults'' (PDict (map (\<lambda>(k, v). (k, PStr v)) (vdi_defaults c))) base else base) in
      dupdate with_defaults (sr_settings c))"

definition update_sr_metadata :: "'w env \<Rightarrow> string \<Rightarrow> pydict \<Rightarrow> ('w, unit) prog" where
  "update_sr_metadata E uri d = call0 (UpdateSrMetadata uri d) (e_update_sr_metadata E uri d)"

definition create_database :: "'w env \<Rightarrow> string \<Rightarrow> ('w, unit) prog" where
  "create_database E mountpoint = call0 (CreateDatabase mountpoint) (e_create_database E mountpoint)"

text \<open>The dataset made into an SR: properties, marker, mountpoint, mount and database.\<close>

definition prepare_dataset :: "'w env \<Rightarrow> bool \<Rightarrow> string \<Rightarrow> string \<Rightarrow> sr_config \<Rightarrow> ('w, unit) prog" where
  "prepare_dataset E adopt sr_dataset sr_uuid c =
     andthen (only_if (\<not> adopt) (dataset_create E sr_dataset True))
       (andthen (only_if (dataset_props c \<noteq> [])
           (dataset_set_properties E sr_dataset (map (\<lambda>(k, v). (k, Some v)) (dataset_props c))))
         (andthen (dataset_set_sr_marker E sr_dataset sr_uuid)
           (andthen (dataset_set_mountpoint E sr_dataset (sr_mount_path sr_uuid))
             (andthen (bind (dataset_is_mounted E sr_dataset) (\<lambda>mounted.
                 only_if (\<not> mounted) (dataset_mount E sr_dataset)))
               (create_database E (sr_mount_path sr_uuid))))))"

definition adopting :: "(string \<times> string) list \<Rightarrow> bool" where
  "adopting conf \<longleftrightarrow> py_lower (dget_or conf ''adopt'' []) = ''true''"

text \<open>The pool, the name stored for the dataset, and the dataset, once they have been checked.\<close>

definition checked_target ::
  "'w env \<Rightarrow> string \<Rightarrow> (string \<times> string) list \<Rightarrow> ('w, string \<times> string \<times> string) prog" where
  "checked_target E sr_uuid conf =
     bind (of_option (invalid_configuration [''Invalid configuration'', ''path parameter is required'']) (dget conf ''path''))
       (\<lambda>path.
     case split_path (strip_char CHR ''/'' path) of (pool, parent_path) \<Rightarrow>
     andthen (require_pool E pool)
       (bind (if adopting conf then adopt_target E pool parent_path else new_target E pool parent_path sr_uuid)
          (\<lambda>(dataset_name, sr_dataset). ret (pool, dataset_name, sr_dataset))))"

definition install_sr ::
  "'w env \<Rightarrow> string \<Rightarrow> (string \<times> string) list \<Rightarrow> string \<Rightarrow> string \<Rightarrow> string \<Rightarrow> string \<Rightarrow> string \<Rightarrow> sr_config
    \<Rightarrow> ('w, (string \<times> string) list) prog" where
  "install_sr E sr_uuid conf name desc pool dataset_name sr_dataset c =
     andthen (prepare_dataset E (adopting conf) sr_dataset sr_uuid c)
       (let datapath = dget_or conf ''datapath'' ''raw-qdisk'' in
        if datapath \<notin> {''tapdisk'', ''raw-qdisk''}
        then raise (invalid_configuration [''Invalid configuration'', datapath])
        else
          andthen (update_sr_metadata E (file_uri (sr_mount_path sr_uuid))
              (sr_meta name desc sr_uuid pool dataset_name datapath c))
            (andthen (only_if (adopting conf) (adopt_zvols E (sr_mount_path sr_uuid) sr_dataset))
              (ret (dset ''dataset'' dataset_name (dset ''zpool'' pool conf)))))"

definition sr_create ::
  "'w env \<Rightarrow> string \<Rightarrow> (string \<times> string) list \<Rightarrow> string \<Rightarrow> string \<Rightarrow> ('w, (string \<times> string) list) prog" where
  "sr_create E sr_uuid conf name desc =
     bind (checked_target E sr_uuid conf) (\<lambda>(pool, dataset_name, sr_dataset).
     bind (parse_zfs_config E conf pool) (\<lambda>c.
       if config_errors c \<noteq> []
       then raise (invalid_configuration [''Invalid ZFS configuration'', join_with ''; '' (config_errors c)])
       else install_sr E sr_uuid conf name desc pool dataset_name sr_dataset c))"

section \<open>Destroying, attaching and detaching\<close>

definition sr_destroy :: "'w env \<Rightarrow> string \<Rightarrow> ('w, unit) prog" where
  "sr_destroy E sr =
     bind (get_sr_metadata E (file_uri sr)) (\<lambda>meta.
     bind (bind (key_of meta ''zpool'') as_str) (\<lambda>pool.
       let dataset = dget_or meta ''dataset'' (PStr []) in
       if \<not> py_truth dataset
       then raise (invalid_configuration [''Cannot destroy a pool-root SR'', pool])
       else bind (as_str dataset) (\<lambda>ds.
         andthen (dataset_destroy E (dataset_path pool (Some ds)) True)
           (bind (is_dir E sr) (\<lambda>d.
              if \<not> d then ret ()
              else bind (list_dir E sr) (\<lambda>entries. only_if (entries = []) (fs_do E (RmDir sr))))))))"

text \<open>The property scan of attach is for the log; its commands are run all the same.\<close>

definition scan_properties :: "'w env \<Rightarrow> string \<Rightarrow> ('w, unit) prog" where
  "scan_properties E sr_dataset =
     catch
       (bind (dataset_list_zvols E sr_dataset)
         (for_each (\<lambda>zvol. bind (vol_get_zfs_properties_dict E zvol) (\<lambda>_. ret ()))))
       (\<lambda>_. ret ())"

definition probe_on_attach :: "'w env \<Rightarrow> string \<Rightarrow> string \<Rightarrow> ('w, unit) prog" where
  "probe_on_attach E sr_dataset pool =
     catch
       (bind (dataset_get_sr_marker E sr_dataset) (\<lambda>marker.
          case marker of
            None \<Rightarrow> ret ()
          | Some sr_uuid \<Rightarrow>
              bind (probe_features E pool) (\<lambda>feats. bind (set_cached E Map.empty sr_uuid feats) (\<lambda>_. ret ()))))
       (\<lambda>_. ret ())"

definition sr_attach :: "'w env \<Rightarrow> (string \<times> string) list \<Rightarrow> ('w, string) prog" where
  "sr_attach E conf =
     bind (of_option (PyKeyError ''zpool'') (dget conf ''zpool'')) (\<lambda>pool.
     bind (of_option (PyKeyError ''dataset'') (dget conf ''dataset'')) (\<lambda>dataset_name.
     let sr_dataset = dataset_path pool (Some dataset_name) in
     bind (pool_is_imported E pool) (\<lambda>imported.
       if \<not> imported then raise (storage_error ''SR_BACKEND_FAILURE_107'' [''ZFS pool not imported'', pool])
       else bind (dataset_exists E sr_dataset) (\<lambda>ex.
         if \<not> ex then raise (storage_error ''SR_BACKEND_FAILURE_107'' [''Dataset not found'', sr_dataset])
         else bind (get_dataset_mountpoint E sr_dataset) (\<lambda>mountpoint.
           andthen (bind (dataset_is_mounted E sr_dataset) (\<lambda>mounted.
               only_if (\<not> mounted) (dataset_mount E sr_dataset)))
             (andthen (scan_properties E sr_dataset)
               (andthen (probe_on_attach E sr_dataset pool) (ret mountpoint))))))))"

definition sr_detach :: "'w env \<Rightarrow> string \<Rightarrow> ('w, unit) prog" where
  "sr_detach E sr =
     bind (get_sr_metadata E (file_uri sr)) (\<lambda>meta.
     bind (sr_dataset_of meta) (\<lambda>sr_dataset.
     andthen
       (catch
         (bind (dataset_get_sr_marker E sr_dataset) (\<lambda>marker.
            case marker of None \<Rightarrow> ret ()
            | Some sr_uuid \<Rightarrow> bind (clear_cached E Map.empty sr_uuid) (\<lambda>_. ret ())))
         (\<lambda>_. ret ()))
       (bind (dataset_is_mounted E sr_dataset) (\<lambda>mounted.
          only_if mounted (dataset_unmount E sr_dataset)))))"

section \<open>Listing\<close>

definition get_all_vdis :: "'w env \<Rightarrow> string \<Rightarrow> ('w, vdi list) prog" where
  "get_all_vdis E opq = call0 (Db opq GetAllVdis) (e_get_all_vdis E opq)"

definition get_all_vdi_custom_keys :: "'w env \<Rightarrow> string \<Rightarrow> ('w, (string \<times> pydict) list) prog" where
  "get_all_vdi_custom_keys E opq = call0 (Db opq GetAllCustomKeys) (e_get_all_custom_keys E opq)"

definition int_of_value :: "pyval \<Rightarrow> ('w, int) prog" where
  "int_of_value v = (case v of PInt i \<Rightarrow> ret i | PBool b \<Rightarrow> ret (if b then 1 else 0)
     | PStr s \<Rightarrow> parse_int s | _ \<Rightarrow> raise PyTypeError)"

definition orphan_pass ::
  "('w, orphan list) prog \<Rightarrow> (orphan list \<Rightarrow> ('w, unit) prog) \<Rightarrow> bool \<Rightarrow> ('w, unit) prog" where
  "orphan_pass find_all destroy_all cleanup =
     catch
       (bind find_all (\<lambda>orphans. only_if (orphans \<noteq> [] \<and> cleanup) (destroy_all orphans)))
       (\<lambda>_. ret ())"

text \<open>The name on disk of a VDI, when it is there.\<close>

definition backing_name :: "'w env \<Rightarrow> string \<Rightarrow> vdi \<Rightarrow> ('w, string option) prog" where
  "backing_name E sr_dataset v =
     (if v_snap (vd_volume v) \<noteq> 0 then find_snapshot_by_uuid E sr_dataset (vd_uuid v)
      else let vol_name = format_zvol_name sr_dataset (vd_uuid v) in
           bind (vol_exists E vol_name) (\<lambda>ex. ret (if ex then Some vol_name else None)))"

definition list_vdi ::
  "'w env \<Rightarrow> string \<Rightarrow> string \<Rightarrow> (string \<times> pydict) list \<Rightarrow> vdi \<Rightarrow> ('w, volume_info list) prog" where
  "list_vdi E opq sr_dataset all_custom v =
     bind (get_format E (vd_image_type v)) (\<lambda>fmt.
     bind (backing_name E sr_dataset v) (\<lambda>found.
     case found of
       None \<Rightarrow> ret []
     | Some vol_name \<Rightarrow>
         bind (get_zvol_used_bytes E vol_name) (\<lambda>psize.
         bind (getVolumeUriPrefix E opq) (\<lambda>pre.
         bind (vol_get_zfs_properties_dict E vol_name) (\<lambda>zfs_keys.
           ret [\<lparr>vi_key = vd_uuid v, vi_name = vd_name v, vi_description = vd_description v,
                   vi_read_write = (v_snap (vd_volume v) = 0), vi_virtual_size = v_vsize (vd_volume v),
                   vi_physical_utilisation = psize, vi_uri = fmt @ pre @ vd_uuid v,
                   vi_sharable = vd_sharable v,
                   vi_keys = dupdate (dupdate [] (map (\<lambda>(k, x). (k, PStr x)) zfs_keys))
                               (dget_or all_custom (vd_uuid v) [])\<rparr>])))))"

definition sr_ls :: "'w env \<Rightarrow> string \<Rightarrow> ('w, volume_info list) prog" where
  "sr_ls E sr =
     bind (get_sr_metadata E (file_uri sr)) (\<lambda>meta.
     bind (sr_dataset_of meta) (\<lambda>sr_dataset.
     with_volume_context E sr ''r'' (\<lambda>opq.
       bind (with_db E opq
         (bind (get_all_vdis E opq) (\<lambda>vdis0.
          bind (get_all_vdi_custom_keys E opq) (\<lambda>all_custom.
          bind (map_prog (recover_vdi_vsize E opq sr_dataset) vdis0) (\<lambda>vdis. ret (vdis, all_custom))))))
         (\<lambda>(vdis, all_custom).
       let known = map vd_uuid vdis;
           cleanup = (dget_or meta ''auto_cleanup_orphans'' PNone = PStr ''true'') in
       bind (int_of_value (dget_or meta ''orphan_grace_period_seconds'' (PInt 3600))) (\<lambda>grace.
       andthen (orphan_pass (zvol_find_orphans E sr_dataset known)
                 (\<lambda>orphans. zvol_destroy_orphans E orphans grace) cleanup)
         (andthen (orphan_pass (zsnap_find_orphans E sr_dataset known)
                   (\<lambda>orphans. zsnap_destroy_orphans E orphans grace) cleanup)
           (bind (map_prog (list_vdi E opq sr_dataset all_custom) vdis) (\<lambda>found. ret (concat found)))))))))"

section \<open>Statistics and names\<close>

record sr_info =
  si_sr :: string
  si_name :: pyval
  si_description :: pyval
  si_uuid :: pyval
  si_total_space :: int
  si_free_space :: int
  si_health :: string

definition total_space :: "int \<Rightarrow> int \<Rightarrow> int \<Rightarrow> int" where
  "total_space quota used free = (if quota > 0 then quota else used + free)"

definition sr_stat :: "'w env \<Rightarrow> string \<Rightarrow> ('w, sr_info) prog" where
  "sr_stat E sr =
     bind (is_dir E sr) (\<lambda>d.
     if \<not> d then raise (SrNotAttached sr)
     else
       bind (get_sr_metadata E (file_uri sr)) (\<lambda>meta.
       bind (sr_dataset_of meta) (\<lambda>ds.
       bind (dataset_get_used E ds) (\<lambda>used.
       bind (dataset_get_available E ds) (\<lambda>free.
       bind (dataset_get_quota E ds) (\<lambda>quota.
       bind (as_str (dget_or meta ''uuid'' (PStr []))) (\<lambda>u.
       bind (format_capability_summary E Map.empty u) (\<lambda>health.
       bind (key_of meta ''name'') (\<lambda>name.
       bind (key_of meta ''description'') (\<lambda>desc.
       bind (key_of meta ''uuid'') (\<lambda>sr_uuid.
         ret \<lparr>si_sr = sr, si_name = name, si_description = desc, si_uuid = sr_uuid,
              si_total_space = total_space quota used free, si_free_space = free, si_health = health\<rparr>)))))))))))"

definition set_name :: "'w env \<Rightarrow> string \<Rightarrow> string \<Rightarrow> ('w, unit) prog" where
  "set_name E sr new_name = update_sr_metadata E (file_uri sr) [(''name'', PStr new_name)]"

definition set_description :: "'w env \<Rightarrow> string \<Rightarrow> string \<Rightarrow> ('w, unit) prog" where
  "set_description E sr new_description = update_sr_metadata E (file_uri sr) [(''description'', PStr new_description)]"

section \<open>Probing\<close>

record probe_entry =
  pe_configuration :: "(string \<times> string) list"
  pe_complete :: bool
  pe_sr :: "sr_info option"
  pe_extra :: "(string \<times> string) list"

definition or_empty :: "pyval \<Rightarrow> pyval" where
  "or_empty v = (if py_truth v then v else PStr [])"

definition probe_meta :: "'w env \<Rightarrow> string \<Rightarrow> ('w, pyval \<times> pyval) prog" where
  "probe_meta E sr_dataset =
     catch
       (bind (get_dataset_mountpoint E sr_dataset) (\<lambda>mountpoint.
        bind (if mountpoint \<noteq> [] then is_dir E mountpoint else ret False) (\<lambda>d.
          if \<not> d then ret (PStr [], PStr [])
          else bind (get_sr_metadata E (file_uri mountpoint)) (\<lambda>meta.
            ret (or_empty (dget_or meta ''name'' (PStr [])), or_empty (dget_or meta ''description'' (PStr [])))))))
       (\<lambda>_. ret (PStr [], PStr []))"

definition probe_sr_info :: "'w env \<Rightarrow> string \<Rightarrow> string option \<Rightarrow> ('w, sr_info option) prog" where
  "probe_sr_info E sr_dataset sr_uuid =
     bind (catch
        (bind (dataset_get_available E sr_dataset) (\<lambda>free.
         bind (dataset_get_used E sr_dataset) (\<lambda>used.
         bind (dataset_get_quota E sr_dataset) (\<lambda>quota. ret (Some (free, total_space quota used free))))))
        (\<lambda>_. ret None)) (\<lambda>spaces.
     case spaces of
       None \<Rightarrow> ret None
     | Some (free, total_bytes) \<Rightarrow>
         bind (probe_meta E sr_dataset) (\<lambda>(name, desc).
           ret (Some \<lparr>si_sr = sr_dataset, si_name = name, si_description = desc,
                      si_uuid = PStr (case sr_uuid of None \<Rightarrow> [] | Some u \<Rightarrow> u),
                      si_total_space = total_bytes, si_free_space = free, si_health = []\<rparr>)))"

definition existing_srs :: "'w env \<Rightarrow> string \<Rightarrow> string \<Rightarrow> ('w, string list) prog" where
  "existing_srs E pool location =
     bind (dataset_exists E location) (\<lambda>ex.
       if \<not> ex then ret []
       else bind (dataset_is_sr E location) (\<lambda>sr.
         bind (dataset_find_child_srs E pool location) (\<lambda>children.
           ret ((if sr then [location] else []) @ children))))"

definition probe_existing ::
  "'w env \<Rightarrow> (string \<times> string) list \<Rightarrow> string \<Rightarrow> string \<Rightarrow> ('w, probe_entry) prog" where
  "probe_existing E conf pool sr_dataset =
     bind (dataset_get_sr_marker E sr_dataset) (\<lambda>sr_uuid.
     bind (probe_sr_info E sr_dataset sr_uuid) (\<lambda>info.
       let parts = split_on CHR ''/'' sr_dataset in
       ret \<lparr>pe_configuration = dset ''dataset'' (join_with ''/'' (tl parts))
               (dset ''zpool'' pool (dset ''path'' (join_with ''/'' (butlast parts)) conf)),
            pe_complete = True, pe_sr = info, pe_extra = [(''dataset'', sr_dataset)]\<rparr>))"

fun first_sr_parent :: "'w env \<Rightarrow> string list \<Rightarrow> ('w, string option) prog" where
  "first_sr_parent E [] = ret None"
| "first_sr_parent E (parent # rest) =
     bind (dataset_exists E parent) (\<lambda>ex.
     bind (if ex then dataset_is_sr E parent else ret False) (\<lambda>sr.
       if sr then ret (Some parent) else first_sr_parent E rest))"

text \<open>The diagnosis of a location where no SR can be created.\<close>

definition create_refusal :: "'w env \<Rightarrow> string \<Rightarrow> string \<Rightarrow> ('w, string option) prog" where
  "create_refusal E parent_path location =
     bind (if parent_path \<noteq> [] then dataset_exists E location else ret True) (\<lambda>ex.
       if \<not> ex then ret (Some (''parent dataset '' @ quoted location @ '' does not exist''))
       else bind (first_sr_parent E (dataset_get_parents location)) (\<lambda>nested.
         case nested of
           Some parent \<Rightarrow> ret (Some (''ancestor dataset '' @ quoted parent @ '' is already an SR''))
         | None \<Rightarrow> bind (dataset_is_sr E location) (\<lambda>sr.
             ret (if sr then Some (''dataset '' @ quoted location @ '' is already an SR'') else None))))"

definition incomplete :: "(string \<times> string) list \<Rightarrow> string \<Rightarrow> string \<Rightarrow> probe_entry" where
  "incomplete conf k msg = \<lparr>pe_configuration = conf, pe_complete = False, pe_sr = None, pe_extra = [(k, msg)]\<rparr>"

definition sr_probe :: "'w env \<Rightarrow> (string \<times> string) list \<Rightarrow> ('w, probe_entry list) prog" where
  "sr_probe E conf =
     (case dget conf ''path'' of
        None \<Rightarrow> ret [incomplete conf ''hint'' (''supply '' @ quoted ''path'' @ '' as <pool>[/<parent-dataset>]'')]
      | Some raw \<Rightarrow>
          let path = strip_char CHR ''/'' (py_strip raw) in
          if path = [] then ret [incomplete conf ''error'' (quoted ''path'' @ '' is empty'')]
          else case split_path path of (pool, parent_path) \<Rightarrow>
            bind (pool_is_imported E pool) (\<lambda>imported.
            if \<not> imported then
              bind (pool_exists E pool) (\<lambda>ex.
                ret [incomplete conf ''error'' (''pool '' @ quoted pool @
                       (if ex then '' exists but is not imported'' else '' does not exist''))])
            else
              let location = (if parent_path \<noteq> [] then dataset_path pool (Some parent_path) else pool) in
              bind (existing_srs E pool location) (\<lambda>srs.
              bind (map_prog (probe_existing E conf pool) srs) (\<lambda>entries.
              bind (create_refusal E parent_path location) (\<lambda>refusal.
                ret (entries @
                  [\<lparr>pe_configuration = conf, pe_complete = (refusal = None), pe_sr = None,
                    pe_extra = (case refusal of None \<Rightarrow> [] | Some msg \<Rightarrow> [(''error'', msg)])\<rparr>]))))))"

end
