(* ===== verification/SrProps.thy ===== *)
theory SrProps
  imports SrPlugin Datapath Footprint Order Samples ZfsProps
begin

text \<open>
  The SR plugin: a configuration that is accepted is valid and is read back by the volume
  plugin as it was given; what create, destroy, ls and probe refuse or leave alone; what an
  adopted SR is sure to have registered.
\<close>

section \<open>Valid configurations\<close>

definition dataset_values :: "(string \<times> string list) list" where
  "dataset_values = [(''compression'', VALID_COMPRESSION), (''copies'', VALID_COPIES), (''sync'', VALID_SYNC),
     (''atime'', VALID_ATIME), (''primarycache'', VALID_CACHE), (''secondarycache'', VALID_CACHE),
     (''logbias'', VALID_LOGBIAS)]"

definition allowed_in :: "(string \<times> string list) list \<Rightarrow> string \<times> string \<Rightarrow> bool" where
  "allowed_in tbl kv = (case dget tbl (fst kv) of None \<Rightarrow> False | Some vs \<Rightarrow> snd kv \<in> set vs)"

definition default_values :: "(string \<times> string list) list" where
  "default_values = [(''volblocksize'', map fst VALID_VOLBLOCKSIZE), (''provisioning'', VALID_PROVISIONING)]"

definition setting_ok :: "string \<times> pyval \<Rightarrow> bool" where
  "setting_ok kv =
     (case snd kv of
        PStr s \<Rightarrow> fst kv = ''auto_cleanup_orphans'' \<and> s \<in> {''true'', ''false''}
      | PInt n \<Rightarrow> fst kv = ''orphan_grace_period_seconds'' \<and> 0 \<le> n
      | _ \<Rightarrow> False)"

definition values_ok :: "sr_config \<Rightarrow> bool" where
  "values_ok c \<longleftrightarrow> list_all (allowed_in dataset_values) (dataset_props c) \<and>
     list_all (allowed_in default_values) (vdi_defaults c) \<and> list_all setting_ok (sr_settings c)"

text \<open>The block size that a configuration's defaults stand for.\<close>

definition block_of :: "sr_config \<Rightarrow> int" where
  "block_of c = volblocksize_of (dget_or (vdi_defaults c) ''volblocksize'' ''8K'')"

text \<open>Errors only accumulate, and while there are none the values so far are valid.\<close>

definition sound :: "sr_config \<Rightarrow> sr_config \<Rightarrow> bool" where
  "sound c c' \<longleftrightarrow> config_errors c' = [] \<longrightarrow>
     config_errors c = [] \<and> (values_ok c \<longrightarrow> values_ok c' \<and> block_of c' = block_of c)"

lemma sound_trans: "sound a b \<Longrightarrow> sound b c \<Longrightarrow> sound a c"
  by (auto simp: sound_def)

lemma list_all_dset: "list_all P d \<Longrightarrow> P (k, v) \<Longrightarrow> list_all P (dset k v d)"
  by (induction k v d rule: dset.induct) auto

lemma sound_dataset_option:
  assumes "dget dataset_values param = Some valid"
  shows "sound c (dataset_option nrm valid param conf c)"
  using assms
  by (auto simp: sound_def dataset_option_def validate_config_value_def config_error_def Let_def values_ok_def
      block_of_def allowed_in_def intro!: list_all_dset split: option.splits)

lemma sound_provisioning_option: "sound c (provisioning_option conf c)"
  by (auto simp: sound_def provisioning_option_def validate_config_value_def config_error_def Let_def values_ok_def
      block_of_def allowed_in_def default_values_def dget_or_def dget_def intro!: list_all_dset split: option.splits)

lemma sound_cleanup_option: "sound c (cleanup_option conf c)"
  by (auto simp: sound_def cleanup_option_def config_error_def values_ok_def block_of_def setting_ok_def
      intro!: list_all_dset split: option.splits)

lemma sound_grace_option: "sound c (grace_option conf c)"
  by (auto simp: sound_def grace_option_def config_error_def values_ok_def block_of_def setting_ok_def
      intro!: list_all_dset split: option.splits)

lemma upper_char_idem: "upper_char (upper_char c) = upper_char c"
proof (cases "97 \<le> char_code c \<and> char_code c \<le> 122")
  case True
  then have "char_code (char_of (char_code c - 32)) = char_code c - 32"
    by (auto simp: char_code_def intro!: mod_less)
  with True show ?thesis by (auto simp: upper_char_def)
qed (auto simp: upper_char_def)

lemma py_upper_idem: "py_upper (py_upper s) = py_upper s"
  by (simp add: py_upper_def upper_char_idem)

lemma volblocksize_option_sound:
  assumes "volblocksize_option conf c = (c', blk)" and "config_errors c' = []"
    and "values_ok c" and "dget (vdi_defaults c) ''volblocksize'' = None"
  shows "config_errors c = [] \<and> values_ok c' \<and> block_of c' = blk"
proof (cases "dget conf ''volblocksize''")
  case None
  have "volblocksize_of ''8K'' = 8192" by code_simp
  with None assms show ?thesis by (simp add: volblocksize_option_def block_of_def dget_or_def dget_def)
next
  case (Some raw)
  let ?u = "py_upper raw"
  have "dget VALID_VOLBLOCKSIZE ?u \<noteq> None" and c': "c' = c\<lparr>vdi_defaults := dset ''volblocksize'' ?u (vdi_defaults c)\<rparr>"
    and blk: "dget VALID_VOLBLOCKSIZE ?u = Some blk"
    using Some assms(1,2) by (auto simp: volblocksize_option_def config_error_def split: option.splits)
  then have "?u \<in> set (map fst VALID_VOLBLOCKSIZE)"
    by (force simp: dget_def dest: map_of_SomeD)
  then have "allowed_in default_values (''volblocksize'', ?u)"
    by (simp add: allowed_in_def default_values_def dget_def)
  with assms(3) c' have "values_ok c'" by (simp add: values_ok_def list_all_dset)
  moreover have "block_of c' = blk"
    using blk by (simp add: c' block_of_def dget_or_def volblocksize_of_def py_upper_idem dget_def)
  ultimately show ?thesis using c' assms(2) by simp
qed

lemma parse_options_sound:
  assumes "parse_options conf = (c, blk)" and "config_errors c = []"
  shows "values_ok c \<and> block_of c = blk"
proof -
  let ?c0 = "\<lparr>dataset_props = [], vdi_defaults = [], sr_settings = [], config_errors = []\<rparr>"
  let ?o = "\<lambda>nrm valid param. dataset_option nrm valid param conf"
  let ?c7 = "?o py_lower VALID_LOGBIAS ''logbias'' (?o py_lower VALID_CACHE ''secondarycache''
    (?o py_lower VALID_CACHE ''primarycache'' (?o py_lower VALID_ATIME ''atime'' (?o py_lower VALID_SYNC ''sync''
    (?o id VALID_COPIES ''copies'' (?o py_lower VALID_COMPRESSION ''compression'' ?c0))))))"
  obtain c8 where c8: "volblocksize_option conf ?c7 = (c8, blk)"
    and c: "c = grace_option conf (cleanup_option conf (provisioning_option conf c8))"
    using assms(1) by (auto simp: parse_options_def Let_def split: prod.splits)
  have keeps: "vdi_defaults (?o nrm valid param d) = vdi_defaults d" for nrm valid param d
    by (simp add: dataset_option_def validate_config_value_def config_error_def Let_def split: option.split)
  have end_part: "sound c8 c"
    unfolding c by (blast intro: sound_trans sound_provisioning_option sound_cleanup_option sound_grace_option)
  then have e8: "config_errors c8 = []" using assms(2) by (simp add: sound_def)
  have keep_errors: "config_errors c8 = [] \<longrightarrow> config_errors ?c7 = []"
    using c8 by (auto simp: volblocksize_option_def config_error_def split: option.splits)
  have "sound ?c0 ?c7"
    by (intro sound_trans [OF _ sound_dataset_option]) (simp_all add: dataset_values_def dget_def sound_def)
  moreover have "values_ok ?c0" by (simp add: values_ok_def)
  ultimately have "values_ok ?c7" using e8 keep_errors by (simp add: sound_def)
  moreover have "dget (vdi_defaults ?c7) ''volblocksize'' = None" by (simp add: keeps dget_def)
  ultimately have "values_ok c8 \<and> block_of c8 = blk"
    using volblocksize_option_sound [OF c8 e8] by blast
  with end_part assms(2) show ?thesis by (simp add: sound_def)
qed

text \<open>
  C29. A device-config in which the parser found no error has only valid values: every dataset
  property, VDI default and setting is in its table or range, and the block size is one of the
  six.
\<close>

theorem config_values_valid:
  assumes "parse_options conf = (c, blk)" and "config_errors c = []"
  shows "values_ok c \<and> blk \<in> {4096, 8192, 16384, 32768, 65536, 131072}"
proof -
  have blocks: "snd ` set VALID_VOLBLOCKSIZE = {4096, 8192, 16384, 32768, 65536, 131072}"
    by (auto simp: VALID_VOLBLOCKSIZE_def)
  have "volblocksize_of s \<in> {4096, 8192, 16384, 32768, 65536, 131072}" for s
  proof (cases "dget VALID_VOLBLOCKSIZE (py_upper s)")
    case (Some b)
    then have "b \<in> snd ` set VALID_VOLBLOCKSIZE" by (force simp: dget_def dest: map_of_SomeD)
    with Some blocks show ?thesis by (simp add: volblocksize_of_def)
  qed (simp add: volblocksize_of_def)
  then show ?thesis using parse_options_sound [OF assms] by (metis block_of_def)
qed

definition sample_conf :: "(string \<times> string) list" where
  "sample_conf = [(''path'', ''p/d''), (''sync'', ''Always''), (''volblocksize'', ''16k''),
     (''orphan_grace_period_seconds'', ''60'')]"

definition sample_config :: sr_config where
  "sample_config = \<lparr>dataset_props = [(''sync'', ''always'')], vdi_defaults = [(''volblocksize'', ''16K'')],
     sr_settings = [(''orphan_grace_period_seconds'', PInt 60)], config_errors = []\<rparr>"

lemma sample_parse: "parse_options sample_conf = (sample_config, 16384)"
  by code_simp

theorem config_values_valid_witness: "values_ok sample_config \<and> (16384::int) \<in> {4096, 8192, 16384, 32768, 65536, 131072}"
  by (rule config_values_valid [OF sample_parse]) (simp add: sample_config_def)

section \<open>What the volume plugin reads back\<close>

lemma dget_dupdate_other: "k \<notin> fst ` set e \<Longrightarrow> dget (dupdate d e) k = dget d k"
  by (induction e arbitrary: d) auto

lemma dget_map_values: "dget (map (\<lambda>(k, v). (k, f v)) d) k = map_option f (dget d k)"
  by (induction d) (auto simp: dget_def)

lemma settings_keys:
  assumes "values_ok c" and "k \<in> fst ` set (sr_settings c)"
  shows "k = ''auto_cleanup_orphans'' \<or> k = ''orphan_grace_period_seconds''"
proof -
  from assms obtain v where "setting_ok (k, v)" by (auto simp: values_ok_def list_all_iff)
  then show ?thesis by (auto simp: setting_ok_def split: pyval.splits)
qed

lemma dget_sr_meta:
  assumes "values_ok c" and "k \<noteq> ''auto_cleanup_orphans''" and "k \<noteq> ''orphan_grace_period_seconds''"
  shows "dget (sr_meta name desc sr_uuid pool ds datapath c) k =
    (if k = ''vdi_defaults'' \<and> vdi_defaults c \<noteq> [] then Some (PDict (map (\<lambda>(k, v). (k, PStr v)) (vdi_defaults c)))
     else dget [(''name'', PStr name), (''description'', PStr desc), (''uuid'', PStr sr_uuid),
                (''zpool'', PStr pool), (''dataset'', PStr ds), (''datapath'', PStr datapath)] k)"
proof -
  have "k \<notin> fst ` set (sr_settings c)" using settings_keys [OF assms(1)] assms(2,3) by blast
  then show ?thesis by (simp add: sr_meta_def Let_def dget_dupdate_other) (simp add: dget_def)
qed

text \<open>
  C30. The metadata that SR.create writes is read back by the volume plugin as it was given:
  the same dataset, and the block size that the parser computed from the device-config.
\<close>

theorem sr_meta_read_back:
  assumes "parse_options conf = (c, blk)" and "config_errors c = []"
  shows "returns (sr_dataset_of (sr_meta name desc sr_uuid pool ds datapath c)) (dataset_path pool (Some ds)) \<and>
    (\<exists>d s. returns (vdi_defaults_of (sr_meta name desc sr_uuid pool ds datapath c)) d \<and>
       dget_or d ''volblocksize'' (PStr ''8K'') = PStr s \<and> volblocksize_of s = blk)"
proof
  let ?m = "sr_meta name desc sr_uuid pool ds datapath c"
  have c: "values_ok c" "block_of c = blk" using parse_options_sound [OF assms] by auto
  have keys: "dget ?m ''zpool'' = Some (PStr pool)" "dget ?m ''dataset'' = Some (PStr ds)"
    using c(1) by (simp_all add: dget_sr_meta) (simp_all add: dget_def)
  show "returns (sr_dataset_of ?m) (dataset_path pool (Some ds))"
    by (simp add: sr_dataset_of_def key_of_def of_option_def keys as_str_def as_opt_str_def returns_def bind_def ret_def)
  let ?d = "map (\<lambda>(k, v). (k, PStr v)) (vdi_defaults c)"
  have d: "dget_or ?m ''vdi_defaults'' (PDict []) = PDict ?d"
    using c(1) dget_sr_meta [OF c(1), of "''vdi_defaults''" name desc sr_uuid pool ds datapath]
    by (auto simp: dget_or_def dget_def)
  have "dget_or ?d ''volblocksize'' (PStr ''8K'') = PStr (dget_or (vdi_defaults c) ''volblocksize'' ''8K'')"
    using dget_map_values [of PStr "vdi_defaults c" "''volblocksize''"]
    by (simp add: dget_or_def dget_def split: option.split)
  moreover have "returns (vdi_defaults_of ?m) ?d"
    by (simp add: vdi_defaults_of_def d as_dict_def returns_ret)
  ultimately show "\<exists>d s. returns (vdi_defaults_of ?m) d \<and>
      dget_or d ''volblocksize'' (PStr ''8K'') = PStr s \<and> volblocksize_of s = blk"
    using c(2) unfolding block_of_def by blast
qed

theorem sr_meta_read_back_witness:
  "returns (sr_dataset_of (sr_meta ''n'' [] ''u'' ''p'' ''d/u'' ''raw-qdisk'' sample_config)) (dataset_path ''p'' (Some ''d/u'')) \<and>
    (\<exists>d s. returns (vdi_defaults_of (sr_meta ''n'' [] ''u'' ''p'' ''d/u'' ''raw-qdisk'' sample_config)) d \<and>
       dget_or d ''volblocksize'' (PStr ''8K'') = PStr s \<and> volblocksize_of s = 16384)"
  by (rule sr_meta_read_back [OF sample_parse]) (simp add: sample_config_def)

section \<open>What create refuses\<close>

lemma refused_for_each:
  "x \<in> set xs \<Longrightarrow> refused (f x) \<Longrightarrow> (\<And>y. emits quiet (f y)) \<Longrightarrow> refused (for_each f xs)"
proof (induction xs)
  case (Cons y ys)
  show ?case
  proof (cases "x = y")
    case False
    with Cons have "refused (for_each f ys)" by simp
    with Cons.prems(3) show ?thesis by (simp add: andthen_def refused_after)
  qed (use Cons.prems(2) in \<open>simp add: refused_andthen\<close>)
qed simp

lemma quiet_checks [emits_intros]:
  "emits quiet (require_pool E pool)" "emits quiet (refuse_sr_parents E ds)" "emits quiet (adopt_target E pool pp)"
  "emits quiet (new_target E pool pp u)" "emits quiet (ashift_check E pool blk c)" "emits quiet (parse_zfs_config E conf pool)"
  unfolding require_pool_def refuse_sr_parents_def adopt_target_def new_target_def ashift_check_def
    parse_zfs_config_def Let_def
  by (intro emits_intros)+

lemma quiet_checked_target: "emits quiet (checked_target E sr_uuid conf)"
  unfolding checked_target_def by (intro emits_intros)

lemma spec_ashift_check:
  "spec (ashift_check E pool blk c)
     (\<lambda>c' t. (config_errors c \<noteq> [] \<longrightarrow> config_errors c' \<noteq> []) \<and> (\<forall>e \<in> set t. quiet e)) (\<lambda>_ _. False)"
proof -
  have "spec (pool_get_ashift E pool) (\<lambda>_ t. \<forall>e \<in> set t. quiet e) (\<lambda>_ t. \<forall>e \<in> set t. quiet e)"
    using queries_quiet(18) [of E pool] by (simp add: emits_def)
  then show ?thesis
    unfolding ashift_check_def Let_def
    by (intro spec_catch spec_bind) (erule spec_mono; auto simp: config_error_def intro!: spec_intros)
qed

text \<open>A configuration in which the parser found an error.\<close>

theorem create_refuses_bad_config:
  assumes "parse_options conf = (c, blk)" and "config_errors c \<noteq> []"
  shows "spec (sr_create E sr_uuid conf name desc) (\<lambda>_ _. False) (\<lambda>_ t. list_all quiet t)"
proof -
  have parsed: "spec (parse_zfs_config E conf pool) (\<lambda>c' t. config_errors c' \<noteq> [] \<and> (\<forall>e \<in> set t. quiet e)) (\<lambda>_ _. False)" for pool
    unfolding parse_zfs_config_def assms(1) by (simp, rule spec_mono [OF spec_ashift_check]) (use assms(2) in auto)
  have rest: "refused (bind (parse_zfs_config E conf pool) (\<lambda>c. if config_errors c \<noteq> [] then raise (err c) else f c))"
    for pool err and f :: "sr_config \<Rightarrow> ('a, (string \<times> string) list) prog"
    by (rule spec_bind, rule spec_mono [OF parsed]) (auto intro!: spec_raise)
  have "refused (sr_create E sr_uuid conf name desc)"
    unfolding sr_create_def
    by (intro refused_after quiet_checked_target) (auto intro!: rest split: prod.split)
  then show ?thesis by (simp add: list_all_iff)
qed

text \<open>The dataset that a create without adopt would make.\<close>

definition new_dataset :: "string \<Rightarrow> string \<Rightarrow> string \<Rightarrow> string" where
  "new_dataset pool parent_path sr_uuid =
     dataset_path pool (Some (if parent_path \<noteq> [] then parent_path @ ''/'' @ sr_uuid else sr_uuid))"

lemma refused_new_target:
  assumes "parent \<in> set (dataset_get_parents (new_dataset pool pp u))"
    and "returns (dataset_exists E parent) True" and "returns (dataset_is_sr E parent) True"
  shows "refused (new_target E pool pp u)"
proof -
  note q = emits_inspects_quiet [OF queries_inspect(7)] emits_inspects_quiet [OF queries_inspect(14)]
  have "refused (refuse_sr_parents E (new_dataset pool pp u))"
    unfolding refuse_sr_parents_def
    by (rule refused_for_each [OF assms(1)])
      (auto simp: only_if_def intro!: refused_bind [OF assms(2)] refused_bind [OF assms(3)] q emits_intros refused_raise)
  then show ?thesis
    unfolding new_target_def Let_def new_dataset_def [symmetric]
    by (intro refused_after q) (auto intro!: refused_andthen refused_raise)
qed

text \<open>
  C33. SR.create without adopt below a dataset that is marked as an SR, other than the root of
  the pool (which the code does not check), raises and changes nothing.
\<close>

theorem create_refuses_nested:
  assumes "dget conf ''path'' = Some path" and "split_path (strip_char CHR ''/'' path) = (pool, pp)"
    and "\<not> adopting conf" and "parent \<in> set (dataset_get_parents (new_dataset pool pp sr_uuid))"
    and "returns (dataset_exists E parent) True" and "returns (dataset_is_sr E parent) True"
  shows "spec (sr_create E sr_uuid conf name desc) (\<lambda>_ _. False) (\<lambda>_ t. list_all quiet t)"
proof -
  have none: "refused m \<Longrightarrow> refused (bind m f)" for m :: "('a, 'b) prog" and f :: "'b \<Rightarrow> ('a, 'c) prog"
    by (rule spec_bind, erule spec_mono) auto
  have "refused (checked_target E sr_uuid conf)"
    unfolding checked_target_def andthen_def
    by (rule refused_bind [where x = path], simp_all add: assms(1-3) of_option_def returns_ret emits_ret)
      (rule refused_after, rule quiet_checks, rule none, rule refused_new_target [OF assms(4-6)])
  then have "refused (sr_create E sr_uuid conf name desc)"
    unfolding sr_create_def by (rule none)
  then show ?thesis by (simp add: list_all_iff)
qed

definition marked_env :: "unit env" where
  "marked_env = bare_env\<lparr>e_popen := \<lambda>_. returning (''u1'', [], 0)\<rparr>"

lemma marked_env_answers:
  "returns (dataset_exists marked_env ds) True" "returns (dataset_is_sr marked_env ds) True"
proof -
  have cmd: "returns (zfs_cmd marked_env cmd) ''u1''" for cmd
    by (rule returns_zfs_cmd) (simp add: marked_env_def returning_def)
  have "py_strip ''u1'' = ''u1''" by code_simp
  then have "returns (dataset_get_sr_marker marked_env ds) (Some ''u1'')"
    unfolding dataset_get_sr_marker_def catch_if_def
    by (intro returns_catch returns_bind [OF cmd]) (simp add: returns_ret)
  then show "returns (dataset_is_sr marked_env ds) True"
    unfolding dataset_is_sr_def by (rule returns_bind) (simp add: returns_ret)
  show "returns (dataset_exists marked_env ds) True"
    unfolding dataset_exists_def succeeds_def catch_if_def andthen_def
    by (intro returns_catch returns_bind [OF cmd] returns_ret)
qed

theorem create_refuses_nested_witness:
  "spec (sr_create marked_env ''u2'' [(''path'', ''p/u1'')] ''n'' []) (\<lambda>_ _. False) (\<lambda>_ t. list_all quiet t)"
proof (rule create_refuses_nested)
  show "dget [(''path'', ''p/u1'')] ''path'' = Some ''p/u1''" by (simp add: dget_def)
  show "split_path (strip_char CHR ''/'' ''p/u1'') = (''p'', ''u1'')" by code_simp
  show "\<not> adopting [(''path'', ''p/u1'')]" by code_simp
  show "''p/u1'' \<in> set (dataset_get_parents (new_dataset ''p'' ''u1'' ''u2''))" by code_simp
qed (rule marked_env_answers)+

definition bad_conf :: "(string \<times> string) list" where
  "bad_conf = [(''path'', ''p''), (''provisioning'', ''fat'')]"

theorem create_refuses_bad_config_witness:
  "spec (sr_create bare_env ''u'' bad_conf ''n'' []) (\<lambda>_ _. False) (\<lambda>_ t. list_all quiet t)"
proof -
  have "config_errors (fst (parse_options bad_conf)) \<noteq> []" by code_simp
  then show ?thesis by (intro create_refuses_bad_config [of bad_conf "fst (parse_options bad_conf)" "snd (parse_options bad_conf)"]) simp_all
qed

section \<open>The order of create\<close>

definition writes_meta :: "event \<Rightarrow> bool" where
  "writes_meta e \<longleftrightarrow> (\<exists>uri d. fst e = UpdateSrMetadata uri d)"

definition sr_ready :: "string \<Rightarrow> event list \<Rightarrow> bool" where
  "sr_ready sr_uuid t \<longleftrightarrow> (\<exists>ds. did
     [(=) (Popen [''zfs'', ''set'', SR_PROPERTY @ ''='' @ sr_uuid, ds]),
      (=) (Popen [''zfs'', ''set'', ''mountpoint='' @ sr_mount_path sr_uuid, ds]),
      (=) (CreateDatabase (sr_mount_path sr_uuid))] t)"

lemma writes_meta_simps [simp]:
  "\<not> writes_meta (Popen cmd, r)" "\<not> writes_meta (CreateDatabase m, r)"
  by (simp_all add: writes_meta_def)

lemma quiet_no_meta: "quiet e \<Longrightarrow> \<not> writes_meta e"
  by (cases e) (auto simp: writes_meta_def quiet_simps)

lemma never_meta_quiet: "emits quiet m \<Longrightarrow> never writes_meta m"
  by (rule never_quiet) (auto dest: quiet_no_meta)

lemma run_unit_achieves:
  assumes "\<And>r. \<not> P (Popen cmd, r)" and "\<And>d r. \<not> P (Sleep d, r)"
  shows "achieves P [(=) (Popen cmd)] (run_unit E cmd)"
  by (rule achieves_act, rule spec_run_unit) (use assms in auto)

lemma never_run_unit: "(\<And>r. \<not> P (Popen cmd, r)) \<Longrightarrow> never P (run_unit E cmd)"
  unfolding never_def by (rule emits_run_unit)

lemma prepare_achieves:
  "achieves writes_meta
     [(=) (Popen [''zfs'', ''set'', SR_PROPERTY @ ''='' @ sr_uuid, ds]),
      (=) (Popen [''zfs'', ''set'', ''mountpoint='' @ sr_mount_path sr_uuid, ds]),
      (=) (CreateDatabase (sr_mount_path sr_uuid))] (prepare_dataset E adopt ds sr_uuid c)"
proof -
  have sleeps: "\<not> writes_meta (Sleep d, r)" for d r by (simp add: writes_meta_def)
  have quiet_meta: "never writes_meta (dataset_is_mounted E ds)" "\<And>p. never writes_meta (dataset_exists E p)"
    by (intro never_meta_quiet queries_quiet)+
  have each: "never writes_meta (for_each f xs)" if "\<And>x. never writes_meta (f x)" for f :: "'b \<Rightarrow> ('a, unit) prog" and xs
    using that by (simp add: never_def emits_for_each)
  have create: "never writes_meta (dataset_create E ds True)"
    unfolding dataset_create_def by (intro never_intros each quiet_meta never_run_unit writes_meta_simps)
  have props: "never writes_meta (dataset_set_properties E ds ps)" for ps
    unfolding dataset_set_properties_def
    by (intro each) (auto intro!: never_intros never_run_unit split: option.splits prod.splits)
  have mount: "never writes_meta (bind (dataset_is_mounted E ds) (\<lambda>m. only_if (\<not> m) (dataset_mount E ds)))"
    unfolding dataset_mount_def by (intro never_intros quiet_meta never_run_unit writes_meta_simps)
  have marker: "achieves writes_meta [(=) (Popen [''zfs'', ''set'', SR_PROPERTY @ ''='' @ sr_uuid, ds])]
      (dataset_set_sr_marker E ds sr_uuid)"
    unfolding dataset_set_sr_marker_def by (rule run_unit_achieves) (simp_all add: sleeps)
  have mp: "achieves writes_meta [(=) (Popen [''zfs'', ''set'', ''mountpoint='' @ sr_mount_path sr_uuid, ds])]
      (dataset_set_mountpoint E ds (sr_mount_path sr_uuid))"
    unfolding dataset_set_mountpoint_def by (rule run_unit_achieves) (simp_all add: sleeps)
  have db: "achieves writes_meta [(=) (CreateDatabase (sr_mount_path sr_uuid))] (create_database E (sr_mount_path sr_uuid))"
    unfolding create_database_def by (rule achieves_call0) simp_all
  show ?thesis
    unfolding prepare_dataset_def
    using achieves_andthen [OF achieves_never [OF never_only_if [OF create]]
       achieves_andthen [OF achieves_never [OF never_only_if [OF props]]
       achieves_andthen [OF marker achieves_andthen [OF mp achieves_andthen [OF achieves_never [OF mount] db]]]]]
    by simp
qed

text \<open>
  C31. SR.create writes the metadata only after the marker and the mountpoint of one and the
  same dataset have been set and the database has been created, in this order.
\<close>

theorem create_metadata_last:
  "spec (sr_create E sr_uuid conf name desc)
     (\<lambda>_ t. guards (sr_ready sr_uuid) writes_meta t) (\<lambda>_ t. guards (sr_ready sr_uuid) writes_meta t)"
proof -
  have later: "sr_ready sr_uuid a \<Longrightarrow> sr_ready sr_uuid (t @ a)" for a t
    unfolding sr_ready_def by (blast intro: did_before)
  have lasting: "lasting (sr_ready sr_uuid)" unfolding sr_ready_def by (intro lasting_ex lasting_did)
  have target: "never writes_meta (checked_target E sr_uuid conf)"
    by (intro never_meta_quiet quiet_checked_target)
  have conf: "never writes_meta (parse_zfs_config E conf pool)" for pool
    by (intro never_meta_quiet quiet_checks)
  have install: "spec (install_sr E sr_uuid conf name desc pool dn ds c)
      (\<lambda>_ t. guards (sr_ready sr_uuid) writes_meta t) (\<lambda>_ t. guards (sr_ready sr_uuid) writes_meta t)" for pool dn ds c
    unfolding install_sr_def andthen_def
    by (rule guards_achieves [OF prepare_achieves _ lasting])
      (auto simp: sr_ready_def update_sr_metadata_def adopt_zvols_def adopt_zvol_def Let_def
        intro!: emits_intros emits_perform emits_mono [OF queries_inspect(16) TrueI] emits_mono [OF queries_inspect(22) TrueI])
  show ?thesis
    unfolding sr_create_def
    by (rule guards_bind_later, erule later, rule target, clarsimp split: prod.split,
        rule guards_bind_later, erule later, rule conf)
      (auto intro!: install spec_raise guards_none)
qed

section \<open>What destroy, ls and probe leave alone\<close>

theorem sr_destroy_refuses_pool_root:
  assumes "returns (get_sr_metadata E (file_uri sr)) meta"
    and "\<not> py_truth (dget_or meta ''dataset'' (PStr []))"
  shows "spec (sr_destroy E sr) (\<lambda>_ _. False) (\<lambda>_ t. list_all quiet t)"
proof -
  have "refused (sr_destroy E sr)"
    unfolding sr_destroy_def Let_def
    by (rule refused_bind [OF assms(1)], rule quiet_reads, rule refused_after)
      (auto simp: assms(2) intro!: emits_intros spec_raise)
  then show ?thesis by (simp add: list_all_iff)
qed

definition root_env :: "unit env" where
  "root_env = bare_env\<lparr>e_get_sr_metadata := \<lambda>_. returning [(''zpool'', PStr ''tank''), (''dataset'', PStr [])]\<rparr>"

lemma root_env_meta:
  "returns (get_sr_metadata root_env uri) [(''zpool'', PStr ''tank''), (''dataset'', PStr [])]"
  unfolding get_sr_metadata_def by (rule returns_perform) (simp add: root_env_def returning_def)

theorem sr_destroy_refuses_pool_root_witness:
  "spec (sr_destroy root_env ''/var/run/sr-mount/u'') (\<lambda>_ _. False) (\<lambda>_ t. list_all quiet t)"
  by (rule sr_destroy_refuses_pool_root [OF root_env_meta]) (simp add: dget_or_def)

text \<open>The one change a listing makes without clean-up: a size that was unknown is recorded.\<close>

definition records_size :: "event \<Rightarrow> bool" where
  "records_size e \<longleftrightarrow> (\<exists>opq i n. fst e = Db opq (UpdateVsize i (Some n)))"

lemma emits_bind_returns:
  assumes "returns m x" and "emits A m" and "emits A (f x)"
  shows "emits A (bind m f)"
  unfolding emits_def
proof (rule spec_bind, rule spec_mono [OF spec_returns [OF assms(1) assms(2) [unfolded emits_def]]])
  fix y t
  assume y: "y = x \<and> (\<forall>e \<in> set t. A e)"
  have "spec (f x) (\<lambda>_ u. \<forall>e \<in> set (t @ u). A e) (\<lambda>_ u. \<forall>e \<in> set (t @ u). A e)"
    by (rule spec_mono [OF assms(3) [unfolded emits_def]]) (use y in auto)
  with y show "spec (f y) (\<lambda>_ u. \<forall>e \<in> set (t @ u). A e) (\<lambda>_ u. \<forall>e \<in> set (t @ u). A e)"
    by simp
qed simp

text \<open>
  Without auto_cleanup_orphans in the metadata, SR.ls changes nothing but recording sizes that
  were unknown.
\<close>

theorem ls_without_cleanup:
  assumes "returns (get_sr_metadata E (file_uri sr)) meta"
    and "dget_or meta ''auto_cleanup_orphans'' PNone \<noteq> PStr ''true''"
  shows "emits (\<lambda>e. quiet e \<or> records_size e) (sr_ls E sr)"
proof -
  let ?A = "\<lambda>e. quiet e \<or> records_size e"
  have q: "emits quiet m \<Longrightarrow> emits ?A m" for m :: "('b, 'c) prog" by (erule emits_mono) simp
  have orphans: "emits quiet (zvol_find_orphans E ds known)" "emits quiet (zsnap_find_orphans E ds known)" for ds known
    unfolding emits_def zvol_find_orphans_def zsnap_find_orphans_def
    by (rule spec_mono [OF zvols.find_spec [OF queries_quiet(16)]]; simp)
       (rule spec_mono [OF snaps.find_spec [OF queries_quiet(17)]]; simp)
  have scan: "emits quiet m \<Longrightarrow> emits ?A (orphan_pass m d False)" for m :: "('b, orphan list) prog" and d
    unfolding orphan_pass_def by (intro q emits_intros) simp_all
  have "emits quiet (list_vdi E opq ds all_custom v)" for opq ds all_custom v
    unfolding list_vdi_def backing_name_def Let_def by (intro emits_intros)
  then have list: "emits ?A (list_vdi E opq ds all_custom v)" for opq ds all_custom v by (rule q)
  have recover: "emits ?A (recover_vdi_vsize E opq ds v)" for opq ds v
    by (rule emits_recover) (auto simp: records_size_def dest: inspects_quiet)
  have grace: "emits ?A (int_of_value v)" for v
    unfolding int_of_value_def by (intro q) (auto intro!: emits_intros split: pyval.splits)
  have reads: "emits ?A (get_all_vdis E opq)" "emits ?A (get_all_vdi_custom_keys E opq)" for opq
    unfolding get_all_vdis_def get_all_vdi_custom_keys_def by (intro q emits_call0; simp add: quiet_simps)+
  show ?thesis
    unfolding sr_ls_def Let_def
    by (rule emits_bind_returns [OF assms(1)], rule q, rule quiet_reads, intro emits_bind emits_contexts emits_andthen
        emits_prod_case emits_map_prog emits_ret reads recover grace list q [OF emits_pure(3)])
      (auto simp: assms(2) dest: admin_quiet intro: scan orphans)
qed

theorem ls_without_cleanup_witness: "emits (\<lambda>e. quiet e \<or> records_size e) (sr_ls root_env ''/s'')"
  by (rule ls_without_cleanup [OF root_env_meta]) (simp add: dget_or_def)

text \<open>
  SR.probe makes only queries, for every device-config and every behaviour of the tools.
\<close>

theorem probe_changes_nothing: "emits quiet (sr_probe E conf)"
proof -
  have first: "emits quiet (first_sr_parent E ps)" for ps
    by (induction ps) (auto intro!: emits_intros)
  have meta: "emits quiet (probe_meta E ds)" for ds
    unfolding probe_meta_def by (intro emits_intros; simp add: quiet_simps)
  show ?thesis
    unfolding sr_probe_def Let_def existing_srs_def probe_existing_def probe_sr_info_def create_refusal_def
    by (intro emits_intros first meta)
qed

section \<open>Adopting a dataset\<close>

text \<open>A row for the VDI named by the zvol was inserted, in a transaction that was committed.\<close>

definition registered :: "string \<Rightarrow> event list \<Rightarrow> bool" where
  "registered zvol t \<longleftrightarrow> did
     [\<lambda>c. \<exists>opq i. c = Db opq (InsertVdi (last (split_on CHR ''/'' zvol)) [] (last (split_on CHR ''/'' zvol)) i False),
      \<lambda>c. \<exists>opq. c = DbExit opq True] t"

lemma spec_adopt_zvol:
  "spec (adopt_zvol E mp zvol) (\<lambda>failed t. \<not> failed \<longrightarrow> registered zvol t) (\<lambda>_ _. False)"
proof -
  let ?u = "last (split_on CHR ''/'' zvol)"
  let ?row = "\<lambda>c. \<exists>opq i. c = Db opq (InsertVdi ?u [] ?u i False)"
  have body: "spec (bind (insert_new_volume E opq sz IMAGE_RAW_QDISK) (\<lambda>vol.
        andthen (db_unit E opq (InsertVdi ?u [] ?u (v_id vol) False)) (db_unit E opq (UpdateVsize (v_id vol) (Some sz)))))
      (\<lambda>_ t. did [?row] t) (\<lambda>_ _. True)" for opq sz
    unfolding spec_ext_defs
    by (intro spec_bind spec_andthen spec_call0 TrueI) (auto intro!: did_one)
  have both: "did [?row, \<lambda>c. \<exists>opq. c = DbExit opq True] ((DbEnter opq, Some 0) # u @ [(DbExit opq True, Some 0)])"
    if "did [?row] u" for opq u
  proof -
    have "did [\<lambda>c. \<exists>opq. c = DbExit opq True] [(DbExit opq True, Some 0)]"
      by (rule did_one [where c = "DbExit opq True"]) simp_all
    from did_append [OF that this] show ?thesis by (intro did_Cons_event) simp
  qed
  have ctx: "spec (with_volume_context E mp ''w'' (\<lambda>opq. with_db E opq
        (bind (insert_new_volume E opq sz IMAGE_RAW_QDISK) (\<lambda>vol.
         andthen (db_unit E opq (InsertVdi ?u [] ?u (v_id vol) False)) (db_unit E opq (UpdateVsize (v_id vol) (Some sz)))))))
      (\<lambda>_ t. registered zvol t) (\<lambda>_ _. True)" for sz
    unfolding with_volume_context_def registered_def
    by (rule spec_mono [OF spec_bracket [where Q = "\<lambda>_ _ t. did [?row, \<lambda>c. \<exists>opq. c = DbExit opq True] t" and R = "\<lambda>_ _ _. True"]])
      (auto intro!: spec_mono [OF spec_with_db [OF body]] both simp: did_Cons_event did_after)
  have size: "spec (get_zvol_size_bytes E zvol) (\<lambda>_ _. True) (\<lambda>_ _. True)"
    using queries_quiet(22) [of E zvol] unfolding emits_def by (rule spec_mono) simp_all
  show ?thesis
    unfolding adopt_zvol_def Let_def registered_def
    by (rule spec_catch, rule spec_bind, rule spec_mono [OF size], rule spec_andthen,
        rule spec_mono [OF ctx [unfolded registered_def]]) (auto intro!: spec_ret simp: did_before)
qed

lemma registered_mono: "registered z t \<Longrightarrow> registered z (t @ u)" "registered z u \<Longrightarrow> registered z (t @ u)"
  unfolding registered_def by (simp_all add: did_after did_before)

lemma spec_adopt_each:
  "spec (map_prog (adopt_zvol E mp) zvols)
     (\<lambda>fs t. length fs = length zvols \<and> (True \<notin> set fs \<longrightarrow> list_all (\<lambda>z. registered z t) zvols)) (\<lambda>_ _. False)"
proof (induction zvols)
  case Nil
  show ?case by (simp add: spec_ret)
next
  case (Cons z zs)
  have "list_all (\<lambda>z. registered z t) zs \<Longrightarrow> list_all (\<lambda>z. registered z (u @ t)) zs" for t u
    by (auto simp: list_all_iff registered_mono)
  then show ?case
    unfolding map_prog.simps
    by (intro spec_bind, intro spec_mono [OF spec_adopt_zvol] spec_bind)
      (auto intro!: spec_bind spec_mono [OF Cons.IH] spec_ret simp: registered_mono)
qed

text \<open>
  C32. An adopting SR.create returns only if, for every zvol listed in the dataset, a row was
  inserted in a transaction that was committed.
\<close>

theorem adopt_registers_all:
  assumes "returns (dataset_list_zvols E sr_dataset) zvols"
  shows "spec (adopt_zvols E mountpoint sr_dataset) (\<lambda>_ t. list_all (\<lambda>z. registered z t) zvols) (\<lambda>_ _. True)"
proof -
  have list: "spec (dataset_list_zvols E sr_dataset) (\<lambda>zs _. zs = zvols) (\<lambda>_ _. False)"
    using spec_returns [OF assms queries_quiet(16) [unfolded emits_def]] by (rule spec_mono) simp_all
  have ok: "True \<notin> set fs" if "filter snd (zip zvols fs) = []" "length fs = length zvols" for fs
    using that(2,1) by (induction fs zvols rule: list_induct2) (auto split: if_splits)
  have "spec (bind (map_prog (adopt_zvol E mountpoint) zvols) (\<lambda>failures.
       let failed = map fst (filter snd (zip zvols failures)) in
       if failed \<noteq> [] then raise (invalid_configuration (''Adopt incomplete'' # failed)) else ret ()))
     (\<lambda>_ t. list_all (\<lambda>z. registered z t) zvols) (\<lambda>_ _. True)"
    by (rule spec_bind, rule spec_mono [OF spec_adopt_each])
      (auto simp: Let_def dest: ok intro!: spec_intros)
  then have tail: "spec (bind (map_prog (adopt_zvol E mountpoint) zvols) (\<lambda>failures.
       let failed = map fst (filter snd (zip zvols failures)) in
       if failed \<noteq> [] then raise (invalid_configuration (''Adopt incomplete'' # failed)) else ret ()))
     (\<lambda>_ u. list_all (\<lambda>z. registered z (t @ u)) zvols) (\<lambda>_ _. True)" for t
    by (rule spec_mono) (auto simp: list_all_iff registered_mono)
  show ?thesis
    unfolding adopt_zvols_def
    by (rule spec_bind, rule spec_mono [OF list]; (hypsubst, rule tail)?) simp
qed

definition two_zvols :: "unit env" where
  "two_zvols = bare_env\<lparr>e_popen := \<lambda>_. returning (''p/d/a'' @ [newline] @ ''p/d/b'', [], 0)\<rparr>"

theorem adopt_registers_all_witness:
  "spec (adopt_zvols two_zvols ''/m'' ''p/d'') (\<lambda>_ t. registered ''p/d/a'' t \<and> registered ''p/d/b'' t) (\<lambda>_ _. True)"
proof -
  have lines: "filter (\<lambda>l. l \<noteq> []) (out_lines (''p/d/a'' @ [newline] @ ''p/d/b'')) = [''p/d/a'', ''p/d/b'']"
    by code_simp
  have "returns (zfs_cmd two_zvols cmd) (''p/d/a'' @ [newline] @ ''p/d/b'')" for cmd
    by (rule returns_zfs_cmd) (simp add: two_zvols_def returning_def)
  then have "returns (dataset_list_zvols two_zvols ''p/d'') [''p/d/a'', ''p/d/b'']"
    unfolding dataset_list_zvols_def names_of_def catch_if_def
    by (intro returns_catch, rule returns_bind) (unfold lines, rule returns_ret)
  from adopt_registers_all [OF this] show ?thesis by simp
qed

end
