(* ===== verification/XapiCompat.thy ===== *)
theory XapiCompat
  imports QemuDisk ZfsFeatures
begin

text \<open>
  \<^verbatim>\<open>src/src/shim/xapi_compat.py\<close>: the probe of the xapi binary for the dispatch gaps that
  the \<^verbatim>\<open>xe\<close> wrapper fills, its cache in the process (passed as an argument) and its sidecar
  file. A set of feature names is its sorted list, as the sidecar stores it.
\<close>

definition XAPI_BINARY :: string where "XAPI_BINARY = ''/opt/xensource/bin/xapi''"

definition COMPAT_SIDECAR :: string where
  "COMPAT_SIDECAR = ''/var/run/xapi-storage-script-shim/xapi_compat.json''"

definition KNOWN_GAPS :: "(string \<times> string option) list" where
  "KNOWN_GAPS = [(''VDI.copy'', Some ''VDI_COPY''), (''VDI.list_changed_blocks'', Some ''VDI_CONFIG_CBT''),
     (''VDI.similar_content'', None)]"

section \<open>Probing the binary\<close>

definition is_output_error :: "exn \<Rightarrow> bool" where
  "is_output_error e = (case e of PyOSError \<Rightarrow> True | CalledProcessError _ _ \<Rightarrow> True | _ \<Rightarrow> False)"

definition check_output :: "'w env \<Rightarrow> string list \<Rightarrow> ('w, string) prog" where
  "check_output E cmd = call0 (CheckOutput cmd) (e_check_output E cmd)"

definition run_or_none :: "'w env \<Rightarrow> string list \<Rightarrow> ('w, string option) prog" where
  "run_or_none E cmd =
     catch_if is_output_error (bind (check_output E cmd) (\<lambda>out. ret (Some out))) (\<lambda>_. ret None)"

definition is_word :: "char \<Rightarrow> bool" where
  "is_word c \<longleftrightarrow> is_digit c \<or> c = CHR ''_'' \<or> 65 \<le> char_code c \<and> char_code c \<le> 90 \<or>
     97 \<le> char_code c \<and> char_code c \<le> 122"

definition at_boundary :: "string \<Rightarrow> bool" where
  "at_boundary rest \<longleftrightarrow> rest = [] \<or> \<not> is_word (hd rest)"

text \<open>
  \<^verbatim>\<open>(\d+\.\d+(?:\.\d+)?)\b\<close> at the front of a string. A shorter run of digits would be followed
  by a digit, which is neither a dot nor a boundary, so only the optional part is given back.
\<close>

definition dotted_at :: "string \<Rightarrow> string option" where
  "dotted_at s =
     (let a = takeWhile is_digit s; r = dropWhile is_digit s in
      if a = [] \<or> r = [] \<or> hd r \<noteq> CHR ''.'' then None
      else
        let b = takeWhile is_digit (tl r); r2 = dropWhile is_digit (tl r) in
        if b = [] then None
        else
          let c = takeWhile is_digit (tl r2) in
          if r2 \<noteq> [] \<and> hd r2 = CHR ''.'' \<and> c \<noteq> [] \<and> at_boundary (dropWhile is_digit (tl r2))
          then Some (a @ ''.'' @ b @ ''.'' @ c)
          else if at_boundary r2 then Some (a @ ''.'' @ b)
          else None)"

text \<open>\<^verbatim>\<open>re.search\<close> with a leading \<^verbatim>\<open>\b\<close>; the first argument tells whether a word character comes before.\<close>

fun search_dotted :: "bool \<Rightarrow> string \<Rightarrow> string option" where
  "search_dotted word [] = None"
| "search_dotted word (c # cs) =
     (case (if word then None else dotted_at (c # cs)) of
        Some v \<Rightarrow> Some v
      | None \<Rightarrow> search_dotted (is_word c) cs)"

definition xapi_version_in :: "string \<Rightarrow> string option" where
  "xapi_version_in out =
     (let text = py_strip out; first = (case splitlines text of [] \<Rightarrow> [] | l # _ \<Rightarrow> l) in
      case search_dotted False first of
        Some v \<Rightarrow> Some v
      | None \<Rightarrow> if first \<noteq> [] then Some first else None)"

definition probe_xapi_version :: "'w env \<Rightarrow> ('w, string option) prog" where
  "probe_xapi_version E =
     bind (run_or_none E [XAPI_BINARY, ''--version'']) (\<lambda>out.
       ret (case out of None \<Rightarrow> None | Some t \<Rightarrow> xapi_version_in t))"

definition is_printable :: "char \<Rightarrow> bool" where
  "is_printable c \<longleftrightarrow> 32 \<le> char_code c \<and> char_code c \<le> 126"

text \<open>The maximal runs of four or more printable characters.\<close>

function printable_runs :: "string \<Rightarrow> string list" where
  "printable_runs [] = []"
| "printable_runs (c # cs) =
     (if is_printable c
      then let run = takeWhile is_printable (c # cs); rest = printable_runs (dropWhile is_printable cs) in
           if length run \<ge> 4 then run # rest else rest
      else printable_runs cs)"
  by pat_completeness auto
termination
  by (relation "measure length") (auto simp: le_imp_less_Suc length_dropWhile_le)

definition extract_printable_runs :: "'w env \<Rightarrow> ('w, string list option) prog" where
  "extract_printable_runs E =
     bind (run_or_none E [''strings'', XAPI_BINARY]) (\<lambda>out.
       case out of
         Some t \<Rightarrow> ret (Some (splitlines t))
       | None \<Rightarrow>
           catch_if (\<lambda>e. e = PyOSError)
             (bind (bind (read_pickle E XAPI_BINARY) as_str) (\<lambda>blob. ret (Some (printable_runs blob))))
             (\<lambda>_. ret None))"

text \<open>\<^verbatim>\<open>^VDI_[A-Z_]+(/[0-9])?$\<close>\<close>

definition is_name_char :: "char \<Rightarrow> bool" where
  "is_name_char c \<longleftrightarrow> c = CHR ''_'' \<or> 65 \<le> char_code c \<and> char_code c \<le> 90"

definition is_feature_name :: "string \<Rightarrow> bool" where
  "is_feature_name s \<longleftrightarrow> startswith s ''VDI_'' \<and>
     (let body = drop 4 s; tail = dropWhile is_name_char body in
      takeWhile is_name_char body \<noteq> [] \<and>
      (tail = [] \<or> length tail = 2 \<and> tail ! 0 = CHR ''/'' \<and> is_digit (tail ! 1)))"

definition probe_recognised_features :: "'w env \<Rightarrow> ('w, string list) prog" where
  "probe_recognised_features E =
     bind (extract_printable_runs E) (\<lambda>runs.
       ret (case runs of None \<Rightarrow> [] | Some rs \<Rightarrow> sort (remdups (filter is_feature_name rs))))"

definition gap_present :: "string list \<Rightarrow> string option \<Rightarrow> bool" where
  "gap_present features flag = (case flag of None \<Rightarrow> True | Some f \<Rightarrow> f \<notin> set features)"

definition compat_of :: "string option \<Rightarrow> string list \<Rightarrow> pydict" where
  "compat_of version features =
     (let gaps = map (\<lambda>(m, flag). (m, gap_present features flag)) KNOWN_GAPS in
      [(''xapi_version'', case version of None \<Rightarrow> PNone | Some v \<Rightarrow> PStr v),
       (''recognised_features'', PList (map PStr features)),
       (''gaps'', PDict (map (\<lambda>(m, b). (m, PBool b)) gaps)),
       (''active_shims'', PList (map (\<lambda>(m, _). PStr m) (filter snd gaps)))])"

definition probe_xapi :: "'w env \<Rightarrow> ('w, pydict) prog" where
  "probe_xapi E =
     bind (probe_xapi_version E) (\<lambda>version.
     bind (probe_recognised_features E) (\<lambda>features. ret (compat_of version features)))"

section \<open>The cache and its sidecar\<close>

definition no_probe :: pydict where
  "no_probe = compat_of None []"

definition set_compat :: "'w env \<Rightarrow> pydict \<Rightarrow> ('w, pydict option) prog" where
  "set_compat E found =
     andthen
       (catch_if (\<lambda>e. e = PyOSError)
         (andthen (mkdir_p E (path_dirname COMPAT_SIDECAR)) (fs_do E (WriteFile COMPAT_SIDECAR (PDict found))))
         (\<lambda>_. ret ()))
       (ret (Some found))"

definition read_compat :: "'w env \<Rightarrow> ('w, pydict option) prog" where
  "read_compat E =
     bind (catch_if (\<lambda>e. e = PyOSError \<or> e = PyValueError)
             (bind (read_pickle E COMPAT_SIDECAR) (\<lambda>v. ret (Some v))) (\<lambda>_. ret None))
       (\<lambda>r. case r of None \<Rightarrow> ret None | Some v \<Rightarrow> bind (as_dict v) (\<lambda>d. ret (Some d)))"

definition get_compat :: "'w env \<Rightarrow> pydict option \<Rightarrow> ('w, pydict) prog" where
  "get_compat E cache =
     (case cache of
        Some d \<Rightarrow> ret d
      | None \<Rightarrow> bind (read_compat E) (\<lambda>r. ret (case r of Some d \<Rightarrow> d | None \<Rightarrow> no_probe)))"

definition reset_compat :: "'w env \<Rightarrow> ('w, pydict option) prog" where
  "reset_compat E =
     andthen (catch_if (\<lambda>e. e = PyOSError) (fs_do E (Unlink COMPAT_SIDECAR)) (\<lambda>_. ret ())) (ret None)"

text \<open>Despite its name: whether the gap is there, so that the wrapper has to fill it.\<close>

definition is_gap_filled :: "'w env \<Rightarrow> pydict option \<Rightarrow> string \<Rightarrow> ('w, bool) prog" where
  "is_gap_filled E cache meth =
     bind (get_compat E cache) (\<lambda>c.
     bind (as_dict (dget_or c ''gaps'' (PDict []))) (\<lambda>gaps.
       ret (py_truth (dget_or gaps meth (PBool True)))))"

end
