(* ===== verification/XeWrapper.thy ===== *)
theory XeWrapper
  imports XapiCompat
begin

text \<open>
  \<^verbatim>\<open>src/src/shim/xe_wrapper.py\<close> and the two readers of an SR's metadata beside it. What the
  wrapper writes on its standard error is left out; what it prints is an event. Replacing the
  process by \<^verbatim>\<open>os.execv\<close> and \<^verbatim>\<open>sys.exit\<close> are exceptions that no handler sees. Of a pipeline of
  two processes only the exit codes are seen, and killing the processes when the plumbing
  itself fails is part of the pipeline.
\<close>

section \<open>The metadata file\<close>

definition META_BASENAME :: string where "META_BASENAME = ''meta.json''"

definition sr_metadata_path :: "string \<Rightarrow> string" where
  "sr_metadata_path sr_mount =
     path_join (if startswith sr_mount ''file://'' then drop 7 sr_mount else sr_mount) META_BASENAME"

definition read_sr_metadata :: "'w env \<Rightarrow> string \<Rightarrow> ('w, pyval) prog" where
  "read_sr_metadata E sr_mount =
     catch_if (\<lambda>e. e = PyOSError \<or> e = PyValueError) (read_pickle E (sr_metadata_path sr_mount)) (\<lambda>_. ret PNone)"

text \<open>The script \<^verbatim>\<open>Volume.read_sr_metadata\<close>: prints the file as it is.\<close>

definition print_text :: "'w env \<Rightarrow> string \<Rightarrow> ('w, unit) prog" where
  "print_text E s = call0 (Stdout s) (e_print E s)"

definition read_sr_metadata_main :: "'w env \<Rightarrow> string list \<Rightarrow> ('w, int) prog" where
  "read_sr_metadata_main E argv =
     (if length argv \<noteq> 2 then ret 1
      else
        catch_if (\<lambda>e. e = PyOSError)
          (bind (bind (read_pickle E (sr_metadata_path (argv ! 1))) as_str) (\<lambda>t. andthen (print_text E t) (ret 0)))
          (\<lambda>_. ret 1))"

section \<open>The real binary\<close>

definition XE_REAL_CANDIDATES :: "string list" where
  "XE_REAL_CANDIDATES = [''/opt/xensource/bin/xe.real'', ''/usr/bin/xe.real'']"

definition VOLUME_ROOT :: string where "VOLUME_ROOT = ''/usr/libexec/zfs-live-plugins/volume''"
definition SR_MOUNT_ROOT :: string where "SR_MOUNT_ROOT = ''/var/run/sr-mount''"

definition can_execute :: "'w env \<Rightarrow> string \<Rightarrow> ('w, bool) prog" where
  "can_execute E p = perform (Fs (Access p)) (\<lambda>b. if b then 1 else 0) (e_fs_bool E (Access p))"

fun first_executable :: "'w env \<Rightarrow> string list \<Rightarrow> ('w, string option) prog" where
  "first_executable E [] = ret None"
| "first_executable E (p # ps) =
     bind (can_execute E p) (\<lambda>ok. if ok then ret (Some p) else first_executable E ps)"

definition find_xe_real :: "'w env \<Rightarrow> ('w, string option) prog" where
  "find_xe_real E = first_executable E XE_REAL_CANDIDATES"

definition passthrough :: "'w env \<Rightarrow> string list \<Rightarrow> ('w, 'a) prog" where
  "passthrough E argv =
     bind (find_xe_real E) (\<lambda>real.
       case real of
         None \<Rightarrow> raise (SystemExit 127)
       | Some p \<Rightarrow>
           bind (call0 (Exec p (p # tl argv)) (e_execv E p (p # tl argv))) (\<lambda>_. raise (Replaced p (p # tl argv))))"

definition parse_kv_args :: "string list \<Rightarrow> pydict" where
  "parse_kv_args argv =
     foldl (\<lambda>out a. case split1 CHR ''='' a of
         k # v # _ \<Rightarrow> dset k (PStr v) out
       | _ \<Rightarrow> dset a (PBool True) out) [] argv"

definition xe_real :: "'w env \<Rightarrow> string list \<Rightarrow> ('w, string option) prog" where
  "xe_real E args =
     bind (find_xe_real E) (\<lambda>real.
       case real of
         None \<Rightarrow> ret None
       | Some p \<Rightarrow>
           catch_if is_output_error (bind (check_output E (p # args)) (\<lambda>out. ret (Some (py_strip out)))) (\<lambda>_. ret None))"

definition sr_type :: "'w env \<Rightarrow> pyval \<Rightarrow> ('w, string option) prog" where
  "sr_type E sr_uuid =
     bind (as_str sr_uuid) (\<lambda>u. xe_real E [''sr-param-get'', ''uuid='' @ u, ''param-name=type''])"

definition vdi_param :: "'w env \<Rightarrow> pyval \<Rightarrow> string \<Rightarrow> ('w, string option) prog" where
  "vdi_param E vdi_uuid param =
     bind (as_str vdi_uuid) (\<lambda>u. xe_real E [''vdi-param-get'', ''uuid='' @ u, ''param-name='' @ param])"

definition vdi_sr :: "'w env \<Rightarrow> pyval \<Rightarrow> ('w, string option) prog" where
  "vdi_sr E vdi_uuid = vdi_param E vdi_uuid ''sr-uuid''"

section \<open>The copy on one host\<close>

fun plugin_among :: "'w env \<Rightarrow> string list \<Rightarrow> ('w, string option) prog" where
  "plugin_among E [] = ret None"
| "plugin_among E (n # ns) =
     bind (is_dir E (path_join VOLUME_ROOT n)) (\<lambda>d.
       if d \<and> (endswith n ''.zfs-live'' \<or> n = ''zfs-live'') then ret (Some (path_join VOLUME_ROOT n))
       else plugin_among E ns)"

definition find_plugin_dir :: "'w env \<Rightarrow> ('w, string option) prog" where
  "find_plugin_dir E =
     bind (is_dir E VOLUME_ROOT) (\<lambda>d.
       if d then bind (list_dir E VOLUME_ROOT) (plugin_among E) else ret None)"

definition popen_input :: "'w env \<Rightarrow> string list \<Rightarrow> pydict \<Rightarrow> ('w, string \<times> string \<times> int) prog" where
  "popen_input E cmd payload = perform (PopenInput cmd payload) (\<lambda>(_, _, rc). rc) (e_popen_input E cmd payload)"

text \<open>The answer of Volume.copy: the key or uuid of the new VDI, if there is one.\<close>

definition copied_key :: "pyval \<Rightarrow> ('w, pyval) prog" where
  "copied_key parsed =
     bind (as_dict parsed) (\<lambda>d.
       if dget_or d ''Status'' PNone \<noteq> PStr ''Success'' then ret PNone
       else bind (as_dict (dget_or d ''Value'' (PDict []))) (\<lambda>v.
         let k = dget_or v ''key'' PNone in ret (if py_truth k then k else dget_or v ''uuid'' PNone)))"

definition invoke_volume_copy ::
  "'w env \<Rightarrow> string \<Rightarrow> string \<Rightarrow> string \<Rightarrow> string \<Rightarrow> string \<Rightarrow> ('w, pyval) prog" where
  "invoke_volume_copy E plugin_dir src_sr src_vdi dest_sr dbg =
     (let script = path_join plugin_dir ''Volume.copy'' in
      bind (can_execute E script) (\<lambda>ok.
        if \<not> ok then ret PNone
        else
          bind (catch_if (\<lambda>e. e = PyOSError)
             (bind (popen_input E [script, ''--json'']
                  [(''dbg'', PStr dbg), (''sr'', PStr (''file://'' @ path_join SR_MOUNT_ROOT src_sr)),
                   (''key'', PStr src_vdi), (''dest_sr'', PStr (''file://'' @ path_join SR_MOUNT_ROOT dest_sr))])
               (\<lambda>r. ret (Some r)))
             (\<lambda>_. ret None)) (\<lambda>r.
          case r of
            None \<Rightarrow> ret PNone
          | Some (out, _, rc) \<Rightarrow>
              if rc \<noteq> 0 then ret PNone
              else (case e_json_loads E out of None \<Rightarrow> ret PNone | Some parsed \<Rightarrow> copied_key parsed))))"

section \<open>Other hosts\<close>

definition XENSOURCE_INVENTORY :: string where "XENSOURCE_INVENTORY = ''/etc/xensource-inventory''"

definition VOLUME_PLUGIN_DIR :: string where
  "VOLUME_PLUGIN_DIR = VOLUME_ROOT @ ''/org.xen.xapi.storage.zfs-live''"

definition REMOTE_READ_SR_METADATA :: string where
  "REMOTE_READ_SR_METADATA = VOLUME_PLUGIN_DIR @ ''/Volume.read_sr_metadata''"

definition SSH_OPTS :: "string list" where
  "SSH_OPTS = [''-o'', ''StrictHostKeyChecking=no'', ''-o'', ''UserKnownHostsFile=/dev/null'',
     ''-o'', ''LogLevel=ERROR'', ''-o'', ''BatchMode=yes'']"

definition ssh_argv :: "string \<Rightarrow> string list \<Rightarrow> string list" where
  "ssh_argv host cmd = [''ssh''] @ SSH_OPTS @ [''root@'' @ host] @ cmd"

text \<open>\<^verbatim>\<open>.strip("'\"")\<close>\<close>

definition strip_quotes :: "string \<Rightarrow> string" where
  "strip_quotes s = (let q = (\<lambda>c. c = CHR 0x27 \<or> c = CHR 0x22) in rstrip_if q (lstrip_if q s))"

definition inventory_uuid :: "string \<Rightarrow> string option" where
  "inventory_uuid text =
     (case List.find (\<lambda>l. startswith (py_strip l) ''INSTALLATION_UUID='') (splitlines text) of
        None \<Rightarrow> None
      | Some l \<Rightarrow> Some (strip_quotes (py_strip (last (split1 CHR ''='' (py_strip l))))))"

definition local_host_uuid :: "'w env \<Rightarrow> ('w, string option) prog" where
  "local_host_uuid E =
     catch_if (\<lambda>e. e = PyOSError)
       (bind (bind (read_pickle E XENSOURCE_INVENTORY) as_str) (\<lambda>t. ret (inventory_uuid t))) (\<lambda>_. ret None)"

definition filled :: "string option \<Rightarrow> bool" where
  "filled x = (case x of None \<Rightarrow> False | Some s \<Rightarrow> s \<noteq> [])"

definition sr_host_uuid :: "'w env \<Rightarrow> string \<Rightarrow> ('w, string option) prog" where
  "sr_host_uuid E sr_uuid =
     bind (xe_real E [''pbd-list'', ''sr-uuid='' @ sr_uuid, ''params=uuid'', ''--minimal'']) (\<lambda>pbd.
       if \<not> filled pbd then ret None
       else xe_real E [''pbd-param-get'', ''uuid='' @ hd (split1 CHR '','' (the pbd)), ''param-name=host-uuid''])"

definition host_address :: "'w env \<Rightarrow> string \<Rightarrow> ('w, string option) prog" where
  "host_address E host = xe_real E [''host-param-get'', ''uuid='' @ host, ''param-name=address'']"

definition ssh :: "'w env \<Rightarrow> string \<Rightarrow> string list \<Rightarrow> ('w, string option) prog" where
  "ssh E host cmd =
     catch_if is_output_error (bind (check_output E (ssh_argv host cmd)) (\<lambda>out. ret (Some (py_strip out))))
       (\<lambda>_. ret None)"

text \<open>The pool and dataset of an SR, as its metadata has them.\<close>

definition zfs_path_of :: "pydict \<Rightarrow> pyval \<times> pyval" where
  "zfs_path_of meta = (dget_or meta ''zpool'' PNone, dget_or meta ''dataset'' PNone)"

definition read_sr_zfs_path :: "'w env \<Rightarrow> string \<Rightarrow> ('w, pyval \<times> pyval) prog" where
  "read_sr_zfs_path E sr_mount =
     bind (read_sr_metadata E sr_mount) (\<lambda>meta.
       if meta = PNone then ret (PNone, PNone) else bind (as_dict meta) (\<lambda>d. ret (zfs_path_of d)))"

definition read_remote_sr_zfs_path :: "'w env \<Rightarrow> string \<Rightarrow> string \<Rightarrow> ('w, pyval \<times> pyval) prog" where
  "read_remote_sr_zfs_path E host dest_sr =
     bind (ssh E host [REMOTE_READ_SR_METADATA, path_join SR_MOUNT_ROOT dest_sr]) (\<lambda>out.
       if \<not> filled out then ret (PNone, PNone)
       else (case e_json_loads E (the out) of
               None \<Rightarrow> ret (PNone, PNone)
             | Some meta \<Rightarrow> bind (as_dict meta) (\<lambda>d. ret (zfs_path_of d))))"

section \<open>The copy to another host\<close>

text \<open>The metadata holds strings or null; an empty or missing dataset is the pool itself.\<close>

definition zvol_base :: "pyval \<Rightarrow> pyval \<Rightarrow> ('w, string) prog" where
  "zvol_base pool dataset =
     bind (as_str pool) (\<lambda>p.
       if py_truth dataset then bind (as_str dataset) (\<lambda>d. ret (p @ ''/'' @ d)) else ret p)"

definition check_call :: "'w env \<Rightarrow> string list \<Rightarrow> ('w, unit) prog" where
  "check_call E cmd =
     bind (check_call_rc E cmd) (\<lambda>rc. if rc = 0 then ret () else raise (CalledProcessError rc cmd))"

definition cleanup_source_snap :: "'w env \<Rightarrow> string \<Rightarrow> ('w, unit) prog" where
  "cleanup_source_snap E snap = catch (check_call E [''zfs'', ''destroy'', snap]) (\<lambda>_. ret ())"

definition cleanup_dest_zvol :: "'w env \<Rightarrow> string \<Rightarrow> string \<Rightarrow> ('w, unit) prog" where
  "cleanup_dest_zvol E host zvol = bind (ssh E host [''zfs'', ''destroy'', ''-r'', zvol]) (\<lambda>_. ret ())"

text \<open>Whether the stream arrived.\<close>

definition send_to_host :: "'w env \<Rightarrow> string \<Rightarrow> string \<Rightarrow> string \<Rightarrow> ('w, bool) prog" where
  "send_to_host E snap host dest_zvol =
     (let send = [''zfs'', ''send'', ''-c'', snap]; recv = ssh_argv host [''zfs'', ''receive'', dest_zvol] in
      catch_if is_output_error
        (bind (perform (Pipeline send recv) (\<lambda>(a, b). if a \<noteq> 0 then a else b) (e_pipeline E send recv))
           (\<lambda>(a, b). ret (a = 0 \<and> b = 0)))
        (\<lambda>_. ret False))"

definition or_default :: "string option \<Rightarrow> string \<Rightarrow> string" where
  "or_default x d = (case x of Some s \<Rightarrow> if s \<noteq> [] then s else d | None \<Rightarrow> d)"

definition register_argv :: "string \<Rightarrow> string list" where
  "register_argv host = ssh_argv host [VOLUME_ROOT @ ''/org.xen.xapi.storage.zfs-live/Volume.import_existing'', ''--json'']"

text \<open>What Volume.import_existing is sent.\<close>

definition register_payload :: "string \<Rightarrow> string \<Rightarrow> string \<Rightarrow> string \<Rightarrow> string \<Rightarrow> int \<Rightarrow> pydict" where
  "register_payload dbg dest_sr new_uuid name descr n =
     [(''dbg'', PStr dbg), (''sr'', PStr (''file://'' @ path_join SR_MOUNT_ROOT dest_sr)), (''key'', PStr new_uuid),
      (''name'', PStr name), (''description'', PStr descr), (''size'', PInt n), (''sharable'', PBool False)]"

definition register_copy ::
  "'w env \<Rightarrow> string \<Rightarrow> string \<Rightarrow> string \<Rightarrow> string \<Rightarrow> string \<Rightarrow> string \<Rightarrow> ('w, string option) prog" where
  "register_copy E src_vdi dest_sr host dbg new_uuid dest_zvol =
     bind (vdi_param E (PStr src_vdi) ''name-label'') (\<lambda>name.
     bind (vdi_param E (PStr src_vdi) ''name-description'') (\<lambda>descr.
     bind (vdi_param E (PStr src_vdi) ''virtual-size'') (\<lambda>sz.
     bind (parse_int (or_default sz ''0'')) (\<lambda>n.
     bind (catch_if is_output_error
        (bind (popen_input E (register_argv host)
             (register_payload dbg dest_sr new_uuid (or_default name []) (or_default descr []) n))
           (\<lambda>(_, _, rc). ret (rc = 0)))
        (\<lambda>_. ret False)) (\<lambda>ok.
       if ok then ret (Some new_uuid)
       else andthen (cleanup_dest_zvol E host dest_zvol) (ret None))))))"

definition replicate_to_host ::
  "'w env \<Rightarrow> string \<Rightarrow> string \<Rightarrow> string \<Rightarrow> string \<Rightarrow> string \<Rightarrow> string \<Rightarrow> string \<Rightarrow> ('w, string option) prog" where
  "replicate_to_host E src_vdi dest_sr host dbg new_uuid snap dest_zvol =
     bind (catch_if is_output_error (andthen (check_call E [''zfs'', ''snapshot'', snap]) (ret True)) (\<lambda>_. ret False))
       (\<lambda>taken.
     if \<not> taken then ret None
     else bind (send_to_host E snap host dest_zvol) (\<lambda>sent.
       if \<not> sent
       then andthen (cleanup_dest_zvol E host dest_zvol) (andthen (cleanup_source_snap E snap) (ret None))
       else andthen (cleanup_source_snap E snap) (register_copy E src_vdi dest_sr host dbg new_uuid dest_zvol)))"

definition invoke_cross_host_copy ::
  "'w env \<Rightarrow> string \<Rightarrow> string \<Rightarrow> string \<Rightarrow> string \<Rightarrow> string \<Rightarrow> ('w, string option) prog" where
  "invoke_cross_host_copy E src_sr src_vdi dest_sr host dbg =
     bind (read_sr_zfs_path E (path_join SR_MOUNT_ROOT src_sr)) (\<lambda>(src_pool, src_dataset).
     if \<not> py_truth src_pool then ret None
     else bind (read_remote_sr_zfs_path E host dest_sr) (\<lambda>(dest_pool, dest_dataset).
     if \<not> py_truth dest_pool then ret None
     else bind (uuid4 E) (\<lambda>new_uuid.
       bind (zvol_base src_pool src_dataset) (\<lambda>src_base.
       bind (zvol_base dest_pool dest_dataset) (\<lambda>dest_base.
         replicate_to_host E src_vdi dest_sr host dbg new_uuid
           (src_base @ ''/'' @ src_vdi @ ''@xe-wrapper-'' @ new_uuid) (dest_base @ ''/'' @ new_uuid))))))"

section \<open>Which path a command takes\<close>

definition is_basic_vdi_copy :: "pydict \<Rightarrow> bool" where
  "is_basic_vdi_copy args \<longleftrightarrow>
     (let keys = map fst args in
      ''uuid'' \<in> set keys \<and> ''sr-uuid'' \<in> set keys \<and>
      \<not> (''base-uuid'' \<in> set keys \<or> ''into-vdi-uuid'' \<in> set keys) \<and>
      list_all (\<lambda>k. k \<in> {''uuid'', ''sr-uuid'', ''username'', ''password''}) keys)"

text \<open>The modes of \<^verbatim>\<open>_try_fast_path\<close> with the values that go with each.\<close>

datatype route =
    ToXe
  | SameHost string string string
  | CrossHost string string string string

definition route_by_host :: "'w env \<Rightarrow> string \<Rightarrow> string \<Rightarrow> string \<Rightarrow> ('w, route) prog" where
  "route_by_host E src_sr dest_sr src_vdi =
     bind (local_host_uuid E) (\<lambda>local_host.
     bind (sr_host_uuid E dest_sr) (\<lambda>dest_host.
       if \<not> filled local_host \<or> \<not> filled dest_host then ret ToXe
       else if dest_host = local_host then ret (SameHost src_sr dest_sr src_vdi)
       else bind (sr_host_uuid E src_sr) (\<lambda>src_host.
         if src_host \<noteq> local_host then ret ToXe
         else bind (host_address E (the dest_host)) (\<lambda>addr.
           ret (if filled addr then CrossHost src_sr dest_sr src_vdi (the addr) else ToXe)))))"

definition try_fast_path :: "'w env \<Rightarrow> pydict \<Rightarrow> ('w, route) prog" where
  "try_fast_path E args =
     (if \<not> is_basic_vdi_copy args then ret ToXe
      else
        let src_vdi = dget_or args ''uuid'' PNone; dest_sr = dget_or args ''sr-uuid'' PNone in
        bind (vdi_sr E src_vdi) (\<lambda>src_sr.
          if \<not> filled src_sr then ret ToXe
          else bind (sr_type E (PStr (the src_sr))) (\<lambda>src_type.
            bind (sr_type E dest_sr) (\<lambda>dest_type.
              if src_type \<noteq> Some ''zfs-live'' \<or> dest_type \<noteq> Some ''zfs-live'' then ret ToXe
              else bind (as_str dest_sr) (\<lambda>d. bind (as_str src_vdi) (\<lambda>v. route_by_host E (the src_sr) d v))))))"

text \<open>Stepping aside when xapi dispatches the copy itself; a failing probe is dropped.\<close>

definition copy_gap :: "'w env \<Rightarrow> ('w, bool) prog" where
  "copy_gap E =
     bind (get_compat E None) (\<lambda>cached.
     bind (if dget_or cached ''xapi_version'' PNone = PNone
           then catch (bind (probe_xapi E) (set_compat E)) (\<lambda>_. ret None)
           else ret None) (\<lambda>cache. is_gap_filled E cache ''VDI.copy''))"

section \<open>The command\<close>

text \<open>After the copy: scan the SR on its host and check that xapi knows the new VDI, then print it.\<close>

definition scan_and_print :: "'w env \<Rightarrow> string option \<Rightarrow> string \<Rightarrow> pyval \<Rightarrow> ('w, int) prog" where
  "scan_and_print E host dest_sr new_uuid =
     bind (case host of
             None \<Rightarrow> xe_real E [''sr-scan'', ''uuid='' @ dest_sr]
           | Some h \<Rightarrow> ssh E h [''xe'', ''sr-scan'', ''uuid='' @ dest_sr]) (\<lambda>scanned.
       if scanned = None then ret 1
       else bind (as_str new_uuid) (\<lambda>u.
         bind (xe_real E [''vdi-param-get'', ''uuid='' @ u, ''param-name=uuid'']) (\<lambda>seen.
           if seen \<noteq> Some u then ret 1
           else andthen (print_text E (u @ [newline])) (ret 0))))"

definition copy_dbg :: "string \<Rightarrow> string \<Rightarrow> string" where
  "copy_dbg src_vdi dest = ''xe-wrapper:vdi-copy:'' @ src_vdi @ ''->'' @ dest"

definition vdi_copy :: "'w env \<Rightarrow> string list \<Rightarrow> ('w, int) prog" where
  "vdi_copy E argv =
     bind (try_fast_path E (parse_kv_args (drop 2 argv))) (\<lambda>route.
       case route of
         ToXe \<Rightarrow> passthrough E argv
       | SameHost src_sr dest_sr src_vdi \<Rightarrow>
           bind (find_plugin_dir E) (\<lambda>dir.
             case dir of
               None \<Rightarrow> passthrough E argv
             | Some plugin_dir \<Rightarrow>
                 bind (invoke_volume_copy E plugin_dir src_sr src_vdi dest_sr (copy_dbg src_vdi dest_sr)) (\<lambda>new_uuid.
                   if \<not> py_truth new_uuid then passthrough E argv
                   else scan_and_print E None dest_sr new_uuid))
       | CrossHost src_sr dest_sr src_vdi addr \<Rightarrow>
           bind (invoke_cross_host_copy E src_sr src_vdi dest_sr addr (copy_dbg src_vdi (dest_sr @ ''@'' @ addr))) (\<lambda>new_uuid.
             if \<not> filled new_uuid then passthrough E argv
             else scan_and_print E (Some addr) dest_sr (PStr (the new_uuid))))"

text \<open>\<open>has_compat\<close>: whether the module \<^verbatim>\<open>xapi_compat\<close> can be imported.\<close>

definition xe_main :: "'w env \<Rightarrow> bool \<Rightarrow> string list \<Rightarrow> ('w, int) prog" where
  "xe_main E has_compat argv =
     (if length argv < 2 \<or> argv ! 1 \<noteq> ''vdi-copy'' then passthrough E argv
      else bind (if has_compat then copy_gap E else ret True) (\<lambda>gap.
        if \<not> gap then passthrough E argv else vdi_copy E argv))"

end
