(* ===== verification/WrapperProps.thy ===== *)
theory WrapperProps
  imports XeWrapper Footprint Order Samples
begin

text \<open>
  The \<^verbatim>\<open>xe\<close> wrapper: what it hands on, what must have happened before it prints a uuid, what
  it leaves on either host when a copy fails, and where it crashes instead of handing on.
\<close>

section \<open>Handing on\<close>

lemma emits_perform_ext [emits_intros]:
  "(\<And>r. A (Fs (Access p), r)) \<Longrightarrow> emits A (can_execute E p)"
  "(\<And>r. A (CheckOutput cmd, r)) \<Longrightarrow> emits A (check_output E cmd)"
  "(\<And>r. A (PopenInput cmd d, r)) \<Longrightarrow> emits A (popen_input E cmd d)"
  "(\<And>r. A (Stdout s, r)) \<Longrightarrow> emits A (print_text E s)"
  unfolding can_execute_def check_output_def popen_input_def print_text_def
  by (rule emits_perform; assumption)+

lemma emits_find_real [emits_intros]:
  assumes "\<And>p r. A (Fs (Access p), r)"
  shows "emits A (find_xe_real E)"
proof -
  have "emits A (first_executable E ps)" for ps
    by (induction ps) (auto intro!: emits_intros assms)
  then show ?thesis by (simp add: find_xe_real_def)
qed

text \<open>The events of handing the command on: looking for the binary, and running it.\<close>

definition hands_on :: "string list \<Rightarrow> event \<Rightarrow> bool" where
  "hands_on argv e = (case fst e of Fs (Access _) \<Rightarrow> True | Exec p args \<Rightarrow> args = p # tl argv | _ \<Rightarrow> False)"

lemma spec_passthrough: "spec (passthrough E argv) (\<lambda>_ _. False) (\<lambda>_ t. list_all (hands_on argv) t)"
proof -
  have find: "spec (find_xe_real E) (\<lambda>_ t. list_all (hands_on argv) t) (\<lambda>_ t. list_all (hands_on argv) t)"
  proof -
    have "emits (hands_on argv) (find_xe_real E)" by (intro emits_intros) (simp add: hands_on_def)
    then show ?thesis by (simp add: emits_def list_all_iff)
  qed
  show ?thesis
    unfolding passthrough_def
    by (rule spec_bind, rule spec_mono [OF find]) (auto simp: hands_on_def intro!: spec_intros)
qed

text \<open>
  For every command but vdi-copy the wrapper only looks for the real xe and replaces itself by
  it with the same arguments, or exits.
\<close>

theorem xe_other_commands:
  assumes "length argv < 2 \<or> argv ! 1 \<noteq> ''vdi-copy''"
  shows "spec (xe_main E has_compat argv) (\<lambda>_ _. False) (\<lambda>_ t. list_all (hands_on argv) t)"
  using assms by (simp add: xe_main_def spec_passthrough)

theorem xe_other_commands_witness:
  "spec (xe_main bare_env True [''xe'', ''vm-list'']) (\<lambda>_ _. False) (\<lambda>_ t. list_all (hands_on [''xe'', ''vm-list'']) t)"
  by (rule xe_other_commands) simp

section \<open>Before a uuid is printed\<close>

definition copies :: "call \<Rightarrow> bool" where
  "copies c \<longleftrightarrow> (\<exists>cmd payload. c = PopenInput cmd payload)"

definition scans :: "call \<Rightarrow> bool" where
  "scans c \<longleftrightarrow> (\<exists>p d. c = CheckOutput [p, ''sr-scan'', ''uuid='' @ d]) \<or>
     (\<exists>h d. c = CheckOutput (ssh_argv h [''xe'', ''sr-scan'', ''uuid='' @ d]))"

definition looks_up :: "string \<Rightarrow> call \<Rightarrow> bool" where
  "looks_up u c \<longleftrightarrow> (\<exists>p. c = CheckOutput [p, ''vdi-param-get'', ''uuid='' @ u, ''param-name=uuid''])"

definition prints :: "string \<Rightarrow> event \<Rightarrow> bool" where
  "prints u e \<longleftrightarrow> fst e = Stdout (u @ [newline])"

lemma prints_simps [simp]:
  "\<not> prints u (Fs c, r)" "\<not> prints u (CheckOutput cmd, r)" "\<not> prints u (PopenInput cmd d, r)"
  "\<not> prints u (CheckCall cmd, r)" "\<not> prints u (Pipeline a b, r)" "\<not> prints u (Uuid4, r)" "\<not> prints u (Exec p as, r)"
  by (simp_all add: prints_def)

lemma never_xe_real [never_intros]: "never (prints u) (xe_real E args)" "never (prints u) (ssh E h cmd)"
  unfolding never_def xe_real_def ssh_def by (auto intro!: emits_intros)

lemma spec_xe_real:
  "spec (xe_real E args)
     (\<lambda>r t. none (prints u) t \<and> (r \<noteq> None \<longrightarrow> did [\<lambda>c. \<exists>p. c = CheckOutput (p # args)] t)) (\<lambda>_ t. none (prints u) t)"
proof -
  have find: "spec (find_xe_real E) (\<lambda>_ t. none (prints u) t) (\<lambda>_ t. none (prints u) t)"
    using emits_find_real [of "\<lambda>e. \<not> prints u e" E] by (simp add: emits_def)
  show ?thesis
    unfolding xe_real_def check_output_def
    by (rule spec_bind, rule spec_mono [OF find]) (auto intro!: spec_intros did_one)
qed

lemma spec_ssh:
  "spec (ssh E h cmd)
     (\<lambda>r t. none (prints u) t \<and> (r \<noteq> None \<longrightarrow> did [(=) (CheckOutput (ssh_argv h cmd))] t)) (\<lambda>_ t. none (prints u) t)"
  unfolding ssh_def check_output_def by (auto intro!: spec_intros did_one)

text \<open>A first part that gets calls done without the guarded one, then a part guarded by more calls.\<close>

lemma guards_did_then:
  assumes "spec m (\<lambda>x t. none P t \<and> (K x \<longrightarrow> did Cs t)) (\<lambda>_ t. none P t)"
    and "\<And>x. K x \<Longrightarrow> spec (f x) (\<lambda>_ t. guards (did Ds) P t) (\<lambda>_ t. guards (did Ds) P t)"
    and "\<And>x. \<not> K x \<Longrightarrow> never P (f x)"
  shows "spec (bind m f) (\<lambda>_ t. guards (did (Cs @ Ds)) P t) (\<lambda>_ t. guards (did (Cs @ Ds)) P t)"
proof (rule spec_bind, rule spec_mono [OF assms(1)])
  fix x t
  assume t: "none P t \<and> (K x \<longrightarrow> did Cs t)"
  show "spec (f x) (\<lambda>_ u. guards (did (Cs @ Ds)) P (t @ u)) (\<lambda>_ u. guards (did (Cs @ Ds)) P (t @ u))"
  proof (cases "K x")
    case True
    have "guards (did (Cs @ Ds)) P (t @ u)" if "guards (did Ds) P u" for u
    proof -
      have "guards_from t (did (Cs @ Ds)) P u"
        using that True t by (auto simp: guards_def guards_from_def intro!: did_append)
      with t show ?thesis by (simp add: guards_append guards_none)
    qed
    then show ?thesis by (intro spec_mono [OF assms(2) [OF True]])
  next
    case False
    with t show ?thesis
      by (intro spec_mono [OF assms(3) [OF False, unfolded never_def emits_def]]) (auto intro!: guards_none)
  qed
qed (auto intro: guards_none)

lemma spec_scan_and_print:
  "spec (scan_and_print E host d k)
     (\<lambda>_ t. guards (did [scans, looks_up u]) (prints u) t) (\<lambda>_ t. guards (did [scans, looks_up u]) (prints u) t)"
proof -
  have scan: "spec (case host of None \<Rightarrow> xe_real E [''sr-scan'', ''uuid='' @ d] | Some h \<Rightarrow> ssh E h [''xe'', ''sr-scan'', ''uuid='' @ d])
      (\<lambda>r t. none (prints u) t \<and> (r \<noteq> None \<longrightarrow> did [scans] t)) (\<lambda>_ t. none (prints u) t)"
  proof (cases host)
    case None
    have "did [\<lambda>c. \<exists>p. c = CheckOutput (p # [''sr-scan'', ''uuid='' @ d])] t \<Longrightarrow> did [scans] t" for t
      by (elim did_oneE) (rule did_one, unfold scans_def, blast+)
    with None show ?thesis by (auto intro!: spec_mono [OF spec_xe_real [of E _ u]])
  next
    case (Some h)
    have "did [(=) (CheckOutput (ssh_argv h [''xe'', ''sr-scan'', ''uuid='' @ d]))] t \<Longrightarrow> did [scans] t" for t
      by (elim did_oneE) (rule did_one, unfold scans_def, blast+)
    with Some show ?thesis by (auto intro!: spec_mono [OF spec_ssh [of E _ _ u]])
  qed
  have look: "spec (bind (xe_real E [''vdi-param-get'', ''uuid='' @ v, ''param-name=uuid'']) (\<lambda>seen.
        if seen \<noteq> Some v then ret 1 else andthen (print_text E (v @ [newline])) (ret 0)))
      (\<lambda>_ t. guards (did [looks_up u]) (prints u) t) (\<lambda>_ t. guards (did [looks_up u]) (prints u) t)" for v
  proof -
    have one: "did [\<lambda>c. \<exists>p. c = CheckOutput [p, ''vdi-param-get'', ''uuid='' @ u, ''param-name=uuid'']] t \<Longrightarrow> did [looks_up u] t" for t
      by (simp add: looks_up_def [abs_def])
    show ?thesis
      unfolding print_text_def
      by (rule spec_bind, rule spec_mono [OF spec_xe_real [of E _ u]])
        (auto simp: guards_def prints_def guards_from_none intro!: spec_intros one)
  qed
  show ?thesis
    unfolding scan_and_print_def
  proof (rule guards_did_then [where Cs = "[scans]" and Ds = "[looks_up u]", simplified, OF scan])
    fix r :: "string option"
    assume "r \<noteq> None"
    show "spec (if r = None then ret 1 else bind (as_str k) (\<lambda>v. bind (xe_real E [''vdi-param-get'', ''uuid='' @ v, ''param-name=uuid''])
          (\<lambda>seen. if seen \<noteq> Some v then ret 1 else andthen (print_text E (v @ [newline])) (ret 0))))
        (\<lambda>_ t. guards (did [looks_up u]) (prints u) t) (\<lambda>_ t. guards (did [looks_up u]) (prints u) t)"
      unfolding if_not_P [OF \<open>r \<noteq> None\<close>]
      by (rule spec_bind, rule spec_as_str, unfold append_Nil, rule look) (simp add: guards_none)
  qed (simp add: never_ret)
qed

text \<open>The copies, and that nothing else of a command prints.\<close>

lemma spec_popen_input:
  "spec (popen_input E cmd d)
     (\<lambda>r t. none (prints u) t \<and> (snd (snd r) = 0 \<longrightarrow> did [copies] t)) (\<lambda>_ t. none (prints u) t)"
  unfolding popen_input_def
  by (rule spec_perform) (auto simp: copies_def intro!: did_one)

lemma spec_volume_copy:
  "spec (invoke_volume_copy E dir a b d dbg)
     (\<lambda>r t. none (prints u) t \<and> (py_truth r \<longrightarrow> did [copies] t)) (\<lambda>_ t. none (prints u) t)"
proof -
  have key: "spec (copied_key v) (\<lambda>_ t. t = []) (\<lambda>_ t. t = [])" for v
    unfolding copied_key_def Let_def by (auto intro!: spec_intros)
  show ?thesis
    unfolding invoke_volume_copy_def Let_def can_execute_def
    by (rule spec_bind, rule spec_perform)
      (auto intro!: spec_bind spec_catch_if spec_mono [OF spec_popen_input [of E _ _ u]] spec_ret spec_mono [OF key]
        simp: did_Cons_event split: option.split)
qed

lemma never_prints_queries [never_intros]:
  "never (prints u) (vdi_param E v p)" "never (prints u) (sr_type E v)" "never (prints u) (vdi_sr E v)"
  "never (prints u) (sr_host_uuid E s)" "never (prints u) (host_address E h)" "never (prints u) (local_host_uuid E)"
  "never (prints u) (find_plugin_dir E)" "never (prints u) (passthrough E argv)" "never (prints u) (copy_gap E)"
proof -
  have among: "emits (\<lambda>e. \<not> prints u e) (plugin_among E ns)" for ns
    by (induction ns) (auto intro!: emits_intros)
  show "never (prints u) (vdi_param E v p)" "never (prints u) (sr_type E v)" "never (prints u) (vdi_sr E v)"
    "never (prints u) (sr_host_uuid E s)" "never (prints u) (host_address E h)" "never (prints u) (local_host_uuid E)"
    "never (prints u) (find_plugin_dir E)" "never (prints u) (passthrough E argv)"
    unfolding never_def vdi_param_def sr_type_def vdi_sr_def sr_host_uuid_def host_address_def local_host_uuid_def
      find_plugin_dir_def passthrough_def list_dir_def xe_real_def
    by (auto intro!: emits_intros among)
  show "never (prints u) (copy_gap E)"
    unfolding never_def copy_gap_def get_compat_def read_compat_def probe_xapi_def probe_xapi_version_def
      probe_recognised_features_def extract_printable_runs_def run_or_none_def set_compat_def is_gap_filled_def mkdir_p_def
    by (auto intro!: emits_intros)
qed

text \<open>Parts that print nothing, before or after the one that copies.\<close>

abbreviation copied_if :: "string \<Rightarrow> ('w, 'a option) prog \<Rightarrow> bool" where
  "copied_if u m \<equiv> spec m (\<lambda>r t. none (prints u) t \<and> (r \<noteq> None \<longrightarrow> did [copies] t)) (\<lambda>_ t. none (prints u) t)"

lemma copied_if_later: "never (prints u) m \<Longrightarrow> (\<And>x. copied_if u (f x)) \<Longrightarrow> copied_if u (bind m f)"
  unfolding never_def emits_def
proof (rule spec_bind, erule spec_mono)
  fix x t
  assume "\<And>x. copied_if u (f x)" and t: "none (prints u) t"
  from this(1) show "spec (f x) (\<lambda>r v. none (prints u) (t @ v) \<and> (r \<noteq> None \<longrightarrow> did [copies] (t @ v)))
      (\<lambda>_ v. none (prints u) (t @ v))"
    by (rule spec_mono) (use t in \<open>auto simp: did_before\<close>)
qed

lemma copied_if_none: "never (prints u) m \<Longrightarrow> copied_if u (andthen m (ret None))"
  unfolding andthen_def by (rule copied_if_later) (simp_all add: spec_ret)

lemma never_prints_cleanup [never_intros]:
  "never (prints u) (cleanup_source_snap E sn)" "never (prints u) (cleanup_dest_zvol E h z)"
  "never (prints u) (send_to_host E sn h z)" "never (prints u) (read_sr_zfs_path E m)"
  "never (prints u) (read_remote_sr_zfs_path E h d)" "never (prints u) (zvol_base p q)" "never (prints u) (uuid4 E)"
  unfolding never_def cleanup_source_snap_def cleanup_dest_zvol_def ssh_def check_call_def send_to_host_def Let_def
    read_sr_zfs_path_def read_sr_metadata_def read_remote_sr_zfs_path_def zvol_base_def uuid4_def
  by (auto intro!: emits_intros emits_perform split: option.split)

lemma never_as_str [never_intros]: "never P (as_str v)"
  by (simp add: never_def emits_as_str)

lemma copied_register: "copied_if u (register_copy E v d h dbg n z)"
proof -
  have call: "spec (catch_if is_output_error (bind (popen_input E cmd p) (\<lambda>(_, _, rc). ret (rc = 0))) (\<lambda>_. ret False))
      (\<lambda>ok t. none (prints u) t \<and> (ok \<longrightarrow> did [copies] t)) (\<lambda>_ t. none (prints u) t)" for cmd p
    by (rule spec_catch_if, rule spec_bind, rule spec_mono [OF spec_popen_input [of E cmd p u]])
      (auto intro!: spec_ret)
  have tail: "copied_if u (bind (catch_if is_output_error (bind (popen_input E cmd p) (\<lambda>(_, _, rc). ret (rc = 0))) (\<lambda>_. ret False))
      (\<lambda>ok. if ok then ret (Some n) else andthen (cleanup_dest_zvol E h z) (ret None)))" for cmd p
    by (rule spec_bind, rule spec_mono [OF call])
      (auto intro!: spec_ret spec_mono [OF copied_if_none [OF never_prints_cleanup(2)]] simp: did_after did_before)
  have int: "never (prints u) (parse_int s)" for s by (simp add: never_def emits_parse_int)
  show ?thesis
    unfolding register_copy_def by (intro copied_if_later never_prints_queries int tail)
qed

lemma copied_cross_host: "copied_if u (invoke_cross_host_copy E a b d h dbg)"
proof -
  have take_snap: "never (prints u) (catch_if is_output_error (andthen (check_call E cmd) (ret True)) (\<lambda>_. ret False))" for cmd
    unfolding never_def check_call_def by (auto intro!: emits_intros)
  have sent: "copied_if u (bind (send_to_host E sn h z) (\<lambda>sent.
       if \<not> sent
       then andthen (cleanup_dest_zvol E h z) (andthen (cleanup_source_snap E sn) (ret None))
       else andthen (cleanup_source_snap E sn) (register_copy E b d h dbg n z)))" for n sn z
    by (rule copied_if_later, rule never_prints_cleanup)
      (unfold andthen_def, intro spec_if copied_if_later never_prints_cleanup copied_register spec_ret; simp)
  have rep: "copied_if u (replicate_to_host E b d h dbg n sn z)" for n sn z
    unfolding replicate_to_host_def
    by (rule copied_if_later, rule take_snap) (simp add: sent spec_ret del: not_None_eq)
  show ?thesis
    unfolding invoke_cross_host_copy_def split_beta
    by (intro copied_if_later never_prints_cleanup spec_if rep) (simp_all add: spec_ret)
qed

text \<open>
  C35. The xe wrapper prints the uuid of a copy only after the plugin on the destination
  answered, the SR was scanned and xapi's own lookup of that uuid succeeded, in this order.
\<close>

theorem xe_prints_verified:
  "spec (xe_main E has_compat argv)
     (\<lambda>_ t. guards (did [copies, scans, looks_up u]) (prints u) t) (\<lambda>_ t. guards (did [copies, scans, looks_up u]) (prints u) t)"
proof -
  let ?ok = "\<lambda>m. spec m (\<lambda>_ t. guards (did [copies, scans, looks_up u]) (prints u) t)
     (\<lambda>_ t. guards (did [copies, scans, looks_up u]) (prints u) t)"
  have quiet: "never (prints u) m \<Longrightarrow> ?ok m" for m :: "('a, int) prog"
    unfolding never_def emits_def by (erule spec_mono) (auto intro: guards_none)
  have later: "never (prints u) m \<Longrightarrow> (\<And>x. ?ok (f x)) \<Longrightarrow> ?ok (bind m f)" for m :: "('a, 'b) prog" and f :: "'b \<Rightarrow> ('a, int) prog"
    by (rule guards_bind_later) (auto intro: did_before)
  note scan = spec_scan_and_print [of E _ _ _ u]
  have same: "?ok (bind (invoke_volume_copy E dir a v d dbg) (\<lambda>k. if \<not> py_truth k then passthrough E argv else scan_and_print E None d k))"
    for dir a v d dbg
    by (rule guards_did_then [where Cs = "[copies]" and Ds = "[scans, looks_up u]" and K = py_truth, simplified, OF spec_volume_copy])
      (auto intro!: scan never_prints_queries)
  have cross: "?ok (bind (invoke_cross_host_copy E a v d h dbg) (\<lambda>n. if \<not> filled n then passthrough E argv
      else scan_and_print E (Some h) d (PStr (the n))))" for a v d h dbg
    by (rule guards_did_then [where Cs = "[copies]" and Ds = "[scans, looks_up u]" and K = filled, simplified,
          OF spec_mono [OF copied_cross_host]])
      (auto simp: filled_def intro!: scan never_prints_queries split: option.splits)
  have fast: "never (prints u) (try_fast_path E args)" for args
    unfolding try_fast_path_def route_by_host_def Let_def by (intro never_intros)
  have "?ok (vdi_copy E argv)"
    unfolding vdi_copy_def
    by (rule later [OF fast])
      (auto split: route.split option.split intro!: cross quiet [OF never_prints_queries(8)]
        later [OF never_prints_queries(7)] same)
  then show ?thesis
    unfolding xe_main_def
    by (intro spec_if quiet [OF never_prints_queries(8)] later never_if never_prints_queries(9) never_ret)
qed

section \<open>What a failed copy leaves\<close>

definition attempted :: "call \<Rightarrow> event list \<Rightarrow> bool" where
  "attempted c t \<longleftrightarrow> (\<exists>r. (c, r) \<in> set t)"

lemma attempted_simps [simp]:
  "attempted c (t @ u) \<longleftrightarrow> attempted c t \<or> attempted c u" "attempted c (e # t) \<longleftrightarrow> fst e = c \<or> attempted c t"
  "\<not> attempted c []"
  by (cases e; auto simp: attempted_def)+

abbreviation takes_snap :: "string \<Rightarrow> call" where
  "takes_snap snap \<equiv> CheckCall [''zfs'', ''snapshot'', snap]"

abbreviation drops_snap :: "string \<Rightarrow> call" where
  "drops_snap snap \<equiv> CheckCall [''zfs'', ''destroy'', snap]"

abbreviation streams :: "string \<Rightarrow> string \<Rightarrow> string \<Rightarrow> call" where
  "streams snap h z \<equiv> Pipeline [''zfs'', ''send'', ''-c'', snap] (ssh_argv h [''zfs'', ''receive'', z])"

abbreviation drops_dest :: "string \<Rightarrow> string \<Rightarrow> call" where
  "drops_dest h z \<equiv> CheckOutput (ssh_argv h [''zfs'', ''destroy'', ''-r'', z])"

text \<open>Whatever was made on either host has been asked to be destroyed.\<close>

definition cleaned_up :: "string \<Rightarrow> string \<Rightarrow> string \<Rightarrow> event list \<Rightarrow> bool" where
  "cleaned_up snap h z t \<longleftrightarrow>
     ((takes_snap snap, Some 0) \<in> set t \<longrightarrow> attempted (drops_snap snap) t) \<and>
     (attempted (streams snap h z) t \<longrightarrow> attempted (drops_dest h z) t)"

definition outcome :: "string \<Rightarrow> string \<Rightarrow> string \<Rightarrow> string \<Rightarrow> string option \<Rightarrow> event list \<Rightarrow> bool" where
  "outcome u snap h z r t =
     (case r of
        None \<Rightarrow> cleaned_up snap h z t
      | Some n \<Rightarrow> n = u \<and> did [(=) (takes_snap snap), (=) (streams snap h z), copies] t \<and> attempted (drops_snap snap) t)"

lemma spec_drop_dest: "spec (cleanup_dest_zvol E h z) (\<lambda>_ t. attempted (drops_dest h z) t) (\<lambda>_ _. True)"
  unfolding cleanup_dest_zvol_def ssh_def check_output_def by (auto intro!: spec_intros)

lemma spec_drop_snap: "spec (cleanup_source_snap E snap) (\<lambda>_ t. \<exists>r. t = [(drops_snap snap, r)]) (\<lambda>_ _. True)"
  unfolding cleanup_source_snap_def check_call_def by (auto intro!: spec_intros)

lemma spec_any: "extends m \<Longrightarrow> spec m (\<lambda>_ _. True) (\<lambda>_ _. True)"
  unfolding emits_def by (erule spec_mono) simp_all

lemma spec_register:
  "spec (register_copy E v d h dbg u z)
     (\<lambda>r t. (\<forall>n. r = Some n \<longrightarrow> n = u \<and> did [copies] t) \<and> (r = None \<longrightarrow> attempted (drops_dest h z) t)) (\<lambda>_ _. True)"
proof -
  have call: "spec (catch_if is_output_error (bind (popen_input E cmd p) (\<lambda>(_, _, rc). ret (rc = 0))) (\<lambda>_. ret False))
      (\<lambda>ok t. ok \<longrightarrow> did [copies] t) (\<lambda>_ _. True)" for cmd p
    by (rule spec_catch_if, rule spec_bind, rule spec_mono [OF spec_popen_input [of E cmd p u]])
      (auto intro!: spec_ret)
  have tail: "spec (bind (catch_if is_output_error (bind (popen_input E cmd p) (\<lambda>(_, _, rc). ret (rc = 0))) (\<lambda>_. ret False))
      (\<lambda>ok. if ok then ret (Some u) else andthen (cleanup_dest_zvol E h z) (ret None)))
      (\<lambda>r t. (\<forall>n. r = Some n \<longrightarrow> n = u \<and> did [copies] (w @ t)) \<and> (r = None \<longrightarrow> attempted (drops_dest h z) (w @ t))) (\<lambda>_ _. True)"
    for cmd p w
    by (rule spec_bind, rule spec_mono [OF call])
      (auto intro!: spec_ret spec_andthen spec_mono [OF spec_drop_dest] simp: did_before)
  have reads: "spec (vdi_param E (PStr v) p) (\<lambda>_ _. True) (\<lambda>_ _. True)" "spec (parse_int s) (\<lambda>_ _. True) (\<lambda>_ _. True)" for p s
    by (rule spec_any, unfold vdi_param_def xe_real_def, intro emits_intros TrueI) (rule spec_any [OF emits_parse_int])
  show ?thesis
    unfolding register_copy_def
    by (rule spec_bind, rule spec_mono [OF reads(1)], rule spec_bind, rule spec_mono [OF reads(1)],
        rule spec_bind, rule spec_mono [OF reads(1)], rule spec_bind, rule spec_mono [OF reads(2)])
      (simp_all only: append_assoc [symmetric] tail)
qed

lemma spec_take_for_copy:
  "spec (catch_if is_output_error (andthen (check_call E [''zfs'', ''snapshot'', snap]) (ret True)) (\<lambda>_. ret False))
     (\<lambda>taken t. if taken then t = [(takes_snap snap, Some 0)] else (\<exists>r. t = [(takes_snap snap, r)] \<and> r \<noteq> Some 0)) (\<lambda>_ _. True)"
  unfolding check_call_def by (auto intro!: spec_intros)

lemma spec_send_to_host:
  "spec (send_to_host E snap h z)
     (\<lambda>sent t. if sent then t = [(streams snap h z, Some 0)] else (\<exists>r. t = [(streams snap h z, r)])) (\<lambda>_ _. True)"
  unfolding send_to_host_def Let_def by (auto intro!: spec_catch_if spec_bind spec_perform spec_ret)

lemma copied_in_order:
  assumes "did [copies] t"
  shows "did [(=) (takes_snap snap), (=) (streams snap h z), copies] ((takes_snap snap, Some 0) # (streams snap h z, Some 0) # t)"
proof -
  have "did [(=) (takes_snap snap)] [(takes_snap snap, Some 0)]" "did [(=) (streams snap h z)] [(streams snap h z, Some 0)]"
    by (rule did_one [OF refl], simp)+
  from did_append [OF did_append [OF this] assms] show ?thesis by simp
qed

lemma spec_undo_copy:
  "spec (andthen (cleanup_dest_zvol E h z) (andthen (cleanup_source_snap E snap) (ret None)))
     (\<lambda>r t. r = None \<and> attempted (drops_dest h z) t \<and> attempted (drops_snap snap) t) (\<lambda>_ _. True)"
  by (rule spec_andthen, rule spec_mono [OF spec_drop_dest])
    (auto intro!: spec_andthen spec_mono [OF spec_drop_snap] spec_ret)

lemma spec_finish_copy:
  "spec (andthen (cleanup_source_snap E snap) (register_copy E v d h dbg u z))
     (\<lambda>r t. attempted (drops_snap snap) t \<and> (\<forall>n. r = Some n \<longrightarrow> n = u \<and> did [copies] t) \<and>
        (r = None \<longrightarrow> attempted (drops_dest h z) t)) (\<lambda>_ _. True)"
  by (rule spec_andthen, rule spec_mono [OF spec_drop_snap], elim exE, hypsubst, rule spec_mono [OF spec_register])
    (simp_all add: did_Cons_event)

text \<open>From the snapshot on.\<close>

lemma spec_stream_and_register:
  "spec (bind (send_to_host E snap h z) (\<lambda>sent.
      if \<not> sent
      then andthen (cleanup_dest_zvol E h z) (andthen (cleanup_source_snap E snap) (ret None))
      else andthen (cleanup_source_snap E snap) (register_copy E v d h dbg u z)))
    (\<lambda>r w. outcome u snap h z r ((takes_snap snap, Some 0) # w)) (\<lambda>_ _. True)"
proof (rule spec_bind, rule spec_mono [OF spec_send_to_host])
  fix sent :: bool and w :: "event list"
  let ?t = "\<lambda>x. (takes_snap snap, Some 0) # w @ x"
  assume w: "if sent then w = [(streams snap h z, Some 0)] else (\<exists>r. w = [(streams snap h z, r)])"
  have bad: "outcome u snap h z None (?t x)" if "attempted (drops_dest h z) x" "attempted (drops_snap snap) x" for x
    using that by (simp add: outcome_def cleaned_up_def)
  have good: "outcome u snap h z r (?t x)"
    if sent "attempted (drops_snap snap) x" "\<forall>n. r = Some n \<longrightarrow> n = u \<and> did [copies] x"
      "r = None \<longrightarrow> attempted (drops_dest h z) x" for r x
    using that bad [of x] w copied_in_order [of x snap h z] by (cases r) (simp_all add: outcome_def)
  show "spec (if \<not> sent then andthen (cleanup_dest_zvol E h z) (andthen (cleanup_source_snap E snap) (ret None))
      else andthen (cleanup_source_snap E snap) (register_copy E v d h dbg u z))
      (\<lambda>r x. outcome u snap h z r (?t x)) (\<lambda>_ _. True)"
  proof (cases sent)
    case True
    then show ?thesis by simp (rule spec_mono [OF spec_finish_copy], blast intro: good, simp)
  next
    case False
    then show ?thesis by simp (rule spec_mono [OF spec_undo_copy], blast intro: bad, simp)
  qed
qed simp

text \<open>
  C36. A copy to another host that answers a uuid took a snapshot, streamed it and sent a
  registration, in this order, and asked for the snapshot to be destroyed; one that answers
  none asked for the snapshot to be destroyed if it was taken, and for the destination's zvol
  if a stream was started.
\<close>

theorem cross_host_cleans_up:
  "spec (replicate_to_host E v d h dbg u snap z) (\<lambda>r t. outcome u snap h z r t) (\<lambda>_ _. True)"
  unfolding replicate_to_host_def
proof (rule spec_bind, rule spec_mono [OF spec_take_for_copy])
  fix taken :: bool and t :: "event list"
  assume t: "if taken then t = [(takes_snap snap, Some 0)] else (\<exists>r. t = [(takes_snap snap, r)] \<and> r \<noteq> Some 0)"
  show "spec (if \<not> taken then ret None else bind (send_to_host E snap h z) (\<lambda>sent.
      if \<not> sent
      then andthen (cleanup_dest_zvol E h z) (andthen (cleanup_source_snap E snap) (ret None))
      else andthen (cleanup_source_snap E snap) (register_copy E v d h dbg u z)))
      (\<lambda>r w. outcome u snap h z r (t @ w)) (\<lambda>_ _. True)"
    using t spec_stream_and_register [of E snap h z v d dbg u]
    by (cases taken) (auto simp: outcome_def cleaned_up_def intro!: spec_ret)
qed simp

section \<open>A bare flag, and a failing probe\<close>

theorem xe_bare_uuid_crashes:
  assumes "is_basic_vdi_copy (parse_kv_args (drop 2 argv))"
    and "dget (parse_kv_args (drop 2 argv)) ''uuid'' = Some (PBool b)"
  shows "spec (vdi_copy E argv) (\<lambda>_ _. False) (\<lambda>e t. e = PyTypeError \<and> t = [])"
  using assms
  by (simp add: vdi_copy_def try_fast_path_def vdi_sr_def vdi_param_def dget_def dget_or_def as_str_def Let_def
      bind_def raise_def spec_def)

theorem xe_bare_uuid_crashes_witness:
  "spec (vdi_copy bare_env [''xe'', ''vdi-copy'', ''uuid'', ''sr-uuid=s'']) (\<lambda>_ _. False) (\<lambda>e t. e = PyTypeError \<and> t = [])"
proof (rule xe_bare_uuid_crashes [where b = True])
  show "is_basic_vdi_copy (parse_kv_args (drop 2 [''xe'', ''vdi-copy'', ''uuid'', ''sr-uuid=s'']))"
    and "dget (parse_kv_args (drop 2 [''xe'', ''vdi-copy'', ''uuid'', ''sr-uuid=s''])) ''uuid'' = Some (PBool True)"
    by code_simp+
qed

lemma spec_perform_always:
  "(\<And>w. fst (f w) = Inl e) \<Longrightarrow> spec (perform c code f) (\<lambda>_ _. False) (\<lambda>e' _. e' = e)"
  by (simp add: spec_def perform_def case_prod_beta)

text \<open>When no file can be read and no command runs, the probe finds nothing.\<close>

definition blind :: "'w env \<Rightarrow> bool" where
  "blind E \<longleftrightarrow> (\<forall>p w. fst (e_fs_read E p w) = Inl PyOSError) \<and> (\<forall>cmd w. fst (e_check_output E cmd w) = Inl PyOSError)"

lemma blind_reads:
  assumes "blind E"
  shows "spec (read_pickle E p) (\<lambda>_ _. False) (\<lambda>e _. e = PyOSError)"
    and "spec (run_or_none E cmd) (\<lambda>r _. r = None) (\<lambda>_ _. False)"
proof -
  show "spec (read_pickle E p) (\<lambda>_ _. False) (\<lambda>e _. e = PyOSError)"
    unfolding read_pickle_def by (rule spec_perform_always) (use assms in \<open>simp add: blind_def\<close>)
  have "spec (check_output E cmd) (\<lambda>_ _. False) (\<lambda>e _. e = PyOSError)"
    unfolding check_output_def by (rule spec_perform_always) (use assms in \<open>simp add: blind_def\<close>)
  then show "spec (run_or_none E cmd) (\<lambda>r _. r = None) (\<lambda>_ _. False)"
    unfolding run_or_none_def
    by (intro spec_catch_if spec_bind, elim spec_mono) (auto simp: is_output_error_def intro!: spec_ret)
qed

lemma blind_sidecar: "blind E \<Longrightarrow> spec (get_compat E None) (\<lambda>d _. d = no_probe) (\<lambda>_ _. False)"
  unfolding get_compat_def read_compat_def
  by (simp, intro spec_bind spec_catch_if, rule spec_mono [OF blind_reads(1)]) (auto intro!: spec_bind spec_ret)

lemma blind_probe:
  assumes "blind E"
  shows "spec (probe_xapi E) (\<lambda>d _. d = no_probe) (\<lambda>_ _. False)"
proof -
  have version: "spec (probe_xapi_version E) (\<lambda>v _. v = None) (\<lambda>_ _. False)"
    unfolding probe_xapi_version_def
    by (rule spec_bind, rule spec_mono [OF blind_reads(2) [OF assms]]) (simp_all add: spec_ret)
  have blob: "spec (bind (bind (read_pickle E XAPI_BINARY) as_str) (\<lambda>blob. ret (Some (printable_runs blob))))
      (\<lambda>_ _. False) (\<lambda>e _. e = PyOSError)"
    by (rule spec_bind, rule spec_bind, rule spec_mono [OF blind_reads(1) [OF assms]]) simp_all
  have runs: "spec (extract_printable_runs E) (\<lambda>r _. r = None) (\<lambda>_ _. False)"
    unfolding extract_printable_runs_def
    by (rule spec_bind, rule spec_mono [OF blind_reads(2) [OF assms]], simp_all, rule spec_catch_if, rule spec_mono [OF blob])
      (simp_all add: spec_ret)
  have features: "spec (probe_recognised_features E) (\<lambda>fs _. fs = []) (\<lambda>_ _. False)"
    unfolding probe_recognised_features_def
    by (rule spec_bind, rule spec_mono [OF runs]) (simp_all add: spec_ret)
  show ?thesis
    unfolding probe_xapi_def no_probe_def
    by (rule spec_bind, rule spec_mono [OF version], rule spec_bind, rule spec_mono [OF features]) (simp_all add: spec_ret)
qed

lemma blind_gap:
  assumes "blind E" and "cache = None \<or> cache = Some no_probe"
  shows "spec (is_gap_filled E cache ''VDI.copy'') (\<lambda>gap _. gap) (\<lambda>_ _. False)"
proof -
  have "dget_or no_probe ''gaps'' (PDict []) = PDict [(''VDI.copy'', PBool True), (''VDI.list_changed_blocks'', PBool True), (''VDI.similar_content'', PBool True)]"
    by code_simp
  moreover have "spec (get_compat E cache) (\<lambda>d _. d = no_probe) (\<lambda>_ _. False)"
    using assms(2) blind_sidecar [OF assms(1)] by (auto simp: get_compat_def spec_ret)
  ultimately show ?thesis
    unfolding is_gap_filled_def
    by (intro spec_bind, elim spec_mono) (auto simp: as_dict_def dget_or_def intro!: spec_bind spec_ret)
qed

text \<open>Without a sidecar and with every probe failing.\<close>

theorem copy_gap_by_default:
  assumes "\<And>p w. fst (e_fs_read E p w) = Inl PyOSError" and "\<And>cmd w. fst (e_check_output E cmd w) = Inl PyOSError"
  shows "spec (copy_gap E) (\<lambda>gap _. gap) (\<lambda>_ _. False)"
proof -
  have E: "blind E" using assms by (simp add: blind_def)
  have store: "spec (set_compat E no_probe) (\<lambda>r _. r = Some no_probe) (\<lambda>_ _. True)"
    unfolding set_compat_def mkdir_p_def fs_do_def by (auto intro!: spec_intros)
  show ?thesis
    unfolding copy_gap_def
    by (rule spec_bind, rule spec_mono [OF blind_sidecar [OF E]])
      (auto intro!: spec_bind spec_catch spec_mono [OF blind_probe [OF E]] spec_mono [OF store] spec_ret blind_gap E)
qed

theorem copy_gap_by_default_witness: "spec (copy_gap bare_env) (\<lambda>gap _. gap) (\<lambda>_ _. False)"
  by (rule copy_gap_by_default) (simp_all add: bare_env_def any_env_def failing_def)

end
