(* ===== verification/Relay.thy ===== *)
theory Relay
  imports Exceptions "HOL-Library.Word" "HOL-Library.Sublist"
begin

text \<open>
  \<^verbatim>\<open>proxy_fds\<close> of \<^verbatim>\<open>src/src/datapath/nbd_proxy.py\<close>: the loop that relays between two descriptors.
  The operating system decides what select, read and write answer; the loop is a machine
  stepped by those answers, with the bytes read from and written to each side kept for the
  properties.
\<close>

type_synonym bytes = "8 word list"

section \<open>The machine\<close>

datatype side = Fd1 | Fd2

fun other :: "side \<Rightarrow> side" where
  "other Fd1 = Fd2"
| "other Fd2 = Fd1"

text \<open>Where the loop stands: before select, before reading the first of some sides, or with bytes left to write.\<close>

datatype point =
    Selecting
  | Reading "side list"
  | Writing side bytes "side list"
  | Ended
  | Failed

datatype answer =
    Selected "(side list \<times> bool) option"
  | ReadGot "bytes option"
  | WriteTook "nat option"

text \<open>\<open>None\<close> is a call that raised: the loop returns on an error of read or write, select's passes through.\<close>

record relay =
  at_point :: point
  got :: "side \<Rightarrow> bytes"
  sent :: "side \<Rightarrow> bytes"

definition relay_start :: relay where
  "relay_start = \<lparr>at_point = Selecting, got = \<lambda>_. [], sent = \<lambda>_. []\<rparr>"

definition next_side :: "side list \<Rightarrow> point" where
  "next_side sides = (if sides = [] then Selecting else Reading sides)"

definition leave :: "relay \<Rightarrow> relay" where
  "leave s = s\<lparr>at_point := Ended\<rparr>"

definition is_over :: "point \<Rightarrow> bool" where
  "is_over p \<longleftrightarrow> p = Ended \<or> p = Failed"

text \<open>One answer; \<open>None\<close> for an answer to a call that is not being made.\<close>

definition relay_step :: "relay \<Rightarrow> answer \<Rightarrow> relay option" where
  "relay_step s ans =
     (case (at_point s, ans) of
        (Selecting, Selected ready) \<Rightarrow>
          (case ready of
             None \<Rightarrow> Some (s\<lparr>at_point := Failed\<rparr>)
           | Some (readable, exceptional) \<Rightarrow>
               Some (if exceptional then leave s else s\<lparr>at_point := next_side readable\<rparr>))
      | (Reading (r # rest), ReadGot data) \<Rightarrow>
          (case data of
             None \<Rightarrow> Some (leave s)
           | Some d \<Rightarrow>
               if d = [] then Some (leave s)
               else Some (s\<lparr>at_point := Writing r d rest, got := (got s)(r := got s r @ d)\<rparr>))
      | (Writing r d rest, WriteTook n) \<Rightarrow>
          (case n of
             None \<Rightarrow> Some (leave s)
           | Some k \<Rightarrow>
               if k = 0 then Some (leave s)
               else Some (s\<lparr>sent := (sent s)(other r := sent s (other r) @ take k d),
                            at_point := (if drop k d = [] then next_side rest else Writing r (drop k d) rest)\<rparr>))
      | _ \<Rightarrow> None)"

fun relay_run :: "relay \<Rightarrow> answer list \<Rightarrow> relay option" where
  "relay_run s [] = Some s"
| "relay_run s (a # as) = (case relay_step s a of None \<Rightarrow> None | Some s' \<Rightarrow> relay_run s' as)"

text \<open>The whole loop: a call without an answer raises.\<close>

fun relay_loop :: "relay \<Rightarrow> answer list \<Rightarrow> relay" where
  "relay_loop s as =
     (if is_over (at_point s) then s
      else case as of
             [] \<Rightarrow> s\<lparr>at_point := if at_point s = Selecting then Failed else Ended\<rparr>
           | a # rest \<Rightarrow> (case relay_step s a of None \<Rightarrow> leave s | Some s' \<Rightarrow> relay_loop s' rest))"

declare relay_loop.simps [simp del]

inductive relay_reach :: "relay \<Rightarrow> bool" where
  start: "relay_reach relay_start"
| step: "relay_reach s \<Longrightarrow> relay_step s a = Some s' \<Longrightarrow> relay_reach s'"

section \<open>Its invariant\<close>

text \<open>What was read from a side and not yet written to the other.\<close>

definition pending :: "relay \<Rightarrow> side \<Rightarrow> bytes" where
  "pending s r = (case at_point s of Writing r' d _ \<Rightarrow> if r' = r then d else [] | _ \<Rightarrow> [])"

definition relays :: "relay \<Rightarrow> bool" where
  "relays s \<longleftrightarrow> (\<forall>r. \<not> is_over (at_point s) \<longrightarrow> got s r = sent s (other r) @ pending s r) \<and>
     (\<forall>r. prefix (sent s (other r)) (got s r))"

lemma other_inj [simp]: "other a = other b \<longleftrightarrow> a = b"
  by (cases a; cases b) simp_all

lemma pending_simps [simp]:
  "at_point s = Selecting \<Longrightarrow> pending s r = []" "at_point s = Reading rs \<Longrightarrow> pending s r = []"
  "at_point s = Writing r' d rs \<Longrightarrow> pending s r = (if r' = r then d else [])"
  by (simp_all add: pending_def)

lemma pending_next [simp]: "pending (s\<lparr>at_point := next_side rs\<rparr>) r = []"
  by (simp add: pending_def next_side_def)

lemma next_side_not_ended [simp]:
  "next_side rs \<noteq> Ended" "next_side rs \<noteq> Failed" "next_side rs \<noteq> Writing r d l" "\<not> is_over (next_side rs)"
  by (simp_all add: next_side_def is_over_def)

lemma is_over_simps [simp]:
  "is_over Ended" "is_over Failed" "\<not> is_over Selecting" "\<not> is_over (Reading rs)" "\<not> is_over (Writing r d rs)"
  by (simp_all add: is_over_def)

lemma relays_start: "relays relay_start"
  by (simp add: relays_def relay_start_def pending_def)

lemma relays_over: "relays s \<Longrightarrow> is_over p \<Longrightarrow> relays (s\<lparr>at_point := p\<rparr>)"
  by (simp add: relays_def)

text \<open>The steps, by the point the loop stands at.\<close>

lemma select_step:
  assumes "relay_step s (Selected b) = Some s'"
  obtains "s' = s\<lparr>at_point := Ended\<rparr>" | "s' = s\<lparr>at_point := Failed\<rparr>"
  | rs where "at_point s = Selecting" and "s' = s\<lparr>at_point := next_side rs\<rparr>"
  using assms
  by (cases "at_point s"; cases b) (auto simp: relay_step_def leave_def split: list.splits if_split_asm)

lemma read_step:
  assumes "relay_step s (ReadGot b) = Some s'"
  obtains "s' = s\<lparr>at_point := Ended\<rparr>"
  | r rest d where "at_point s = Reading (r # rest)" and "d \<noteq> []"
    and "s' = s\<lparr>at_point := Writing r d rest, got := (got s)(r := got s r @ d)\<rparr>"
  using assms
  by (cases "at_point s"; cases b) (auto simp: relay_step_def leave_def split: list.splits if_split_asm)

lemma write_step:
  assumes "relay_step s (WriteTook b) = Some s'"
  obtains "s' = s\<lparr>at_point := Ended\<rparr>"
  | r d rest k where "at_point s = Writing r d rest" and "0 < k"
    and "s' = s\<lparr>sent := (sent s)(other r := sent s (other r) @ take k d),
              at_point := (if drop k d = [] then next_side rest else Writing r (drop k d) rest)\<rparr>"
  using assms
  by (cases "at_point s"; cases b) (auto simp: relay_step_def leave_def split: list.splits if_split_asm)

lemma relay_step_cases:
  assumes "relay_step s a = Some s'"
  obtains
    (out) p where "is_over p" "s' = s\<lparr>at_point := p\<rparr>"
  | (ready) rs where "at_point s = Selecting" "s' = s\<lparr>at_point := next_side rs\<rparr>"
  | (read_some) r rest d where "at_point s = Reading (r # rest)" "d \<noteq> []"
      "s' = s\<lparr>at_point := Writing r d rest, got := (got s)(r := got s r @ d)\<rparr>"
  | (wrote) r d rest k where "at_point s = Writing r d rest" "0 < k"
      "s' = s\<lparr>sent := (sent s)(other r := sent s (other r) @ take k d),
              at_point := (if drop k d = [] then next_side rest else Writing r (drop k d) rest)\<rparr>"
proof -
  note over = out [OF is_over_simps(1)] out [OF is_over_simps(2)]
  show thesis
  proof (cases a)
    case (Selected b)
    from assms [unfolded this] show thesis
      by (rule select_step) (assumption | rule over ready)+
  next
    case (ReadGot b)
    from assms [unfolded this] show thesis
      by (rule read_step) (assumption | rule over read_some)+
  next
    case (WriteTook b)
    from assms [unfolded this] show thesis
      by (rule write_step) (assumption | rule over wrote)+
  qed
qed

lemma relays_step:
  assumes "relays s" and "relay_step s a = Some s'"
  shows "relays s'"
  using assms(2)
proof (cases rule: relay_step_cases)
  case out
  with assms(1) show ?thesis by (simp add: relays_over)
next
  case ready
  with assms(1) show ?thesis by (simp add: relays_def)
next
  case (read_some r rest d)
  with assms(1) show ?thesis
    by (auto simp: relays_def pending_def)
next
  case (wrote r d rest k)
  with assms(1) have got: "got s r = sent s (other r) @ d" by (auto simp: relays_def)
  have "\<exists>zs. d = take k d @ zs" by (rule exI [of _ "drop k d"]) simp
  with wrote assms(1) got show ?thesis
    by (auto simp: relays_def pending_def next_side_def prefix_def)
qed

lemma relays_loop:
  "relays s \<Longrightarrow> relays (relay_loop s as) \<and> is_over (at_point (relay_loop s as))"
proof (induction as arbitrary: s)
  case Nil
  then show ?case by (simp add: relay_loop.simps [of s] relays_over)
next
  case (Cons a as)
  show ?case
  proof (cases "relay_step s a")
    case None
    with Cons.prems show ?thesis by (simp add: relay_loop.simps [of s] leave_def relays_over)
  next
    case (Some s')
    with Cons.IH [OF relays_step [OF Cons.prems Some]] Cons.prems show ?thesis
      by (simp add: relay_loop.simps [of s])
  qed
qed

lemma relays_reach: "relay_reach s \<Longrightarrow> relays s"
  by (induction rule: relay_reach.induct) (auto intro: relays_start relays_step)

lemma relay_run_reach: "relay_reach s \<Longrightarrow> relay_run s as = Some s' \<Longrightarrow> relay_reach s'"
  by (induction as arbitrary: s) (auto split: option.splits intro: relay_reach.step)

text \<open>A write that is accepted shortens what is left.\<close>

lemma write_progress:
  assumes "relay_step s (WriteTook n) = Some s'" and "at_point s = Writing r d rest" and "d \<noteq> []"
  shows "at_point s' = Ended \<or> at_point s' = next_side rest \<or>
     (\<exists>d'. at_point s' = Writing r d' rest \<and> d' \<noteq> [] \<and> length d' < length d)"
  using assms
  by (auto simp: relay_step_def leave_def split: option.splits if_splits)

lemma no_write_when_ended: "at_point s = Ended \<Longrightarrow> relay_step s a = None"
  by (simp add: relay_step_def)

lemma no_write_between: "at_point s = next_side rs \<Longrightarrow> relay_step s (WriteTook n) = None"
  by (simp add: relay_step_def next_side_def split: point.splits if_splits list.splits)

section \<open>How many writes a chunk takes\<close>

theorem relay_chunk_writes:
  assumes "at_point s = Writing r d rest" and "d \<noteq> []"
    and "relay_run s (map WriteTook ks) = Some s'"
  shows "length ks \<le> length d"
  using assms
proof (induction ks arbitrary: s d)
  case (Cons k ks)
  then obtain s1 where s1: "relay_step s (WriteTook k) = Some s1" and run: "relay_run s1 (map WriteTook ks) = Some s'"
    by (auto split: option.splits)
  show ?case
  proof (cases ks)
    case Nil
    with Cons.prems(2) show ?thesis by (cases d) simp_all
  next
    case (Cons k' ks')
    with run obtain s2 where "relay_step s1 (WriteTook k') = Some s2" by (auto split: option.splits)
    then have "at_point s1 \<noteq> Ended" "\<nexists>rs. at_point s1 = next_side rs"
      by (auto dest: no_write_between [where n = k'] no_write_when_ended [where a = "WriteTook k'"])
    with write_progress [OF s1 Cons.prems(1,2)] obtain d' where d': "at_point s1 = Writing r d' rest" "d' \<noteq> []" "length d' < length d"
      by blast
    from Cons.IH [OF d'(1,2) run] d'(3) show ?thesis by simp
  qed
qed simp

theorem relay_chunk_writes_witness:
  "\<exists>s s'. at_point s = Writing Fd1 [5, 6] [] \<and> relay_run s (map WriteTook [Some 1, Some 1]) = Some s' \<and>
     length [Some (1::nat), Some 1] \<le> length [5::8 word, 6]"
proof -
  let ?s = "relay_start\<lparr>at_point := Writing Fd1 [5, 6] []\<rparr>"
  obtain s' where s': "relay_run ?s (map WriteTook [Some 1, Some 1]) = Some s'"
    by (simp add: relay_step_def relay_start_def)
  have p: "at_point ?s = Writing Fd1 [5, 6] []" by simp
  from relay_chunk_writes [OF p _ s'] have "length [Some (1::nat), Some 1] \<le> length [5::8 word, 6]" by simp
  with p s' show ?thesis by blast
qed

end
