(* ===== verification/NbdProxy.thy ===== *)
theory NbdProxy
  imports QemuProcess Relay
begin

text \<open>
  \<^verbatim>\<open>src/src/datapath/nbd_proxy.py\<close>, the child's side: receiving a descriptor over the listening
  socket, connecting to the daemon and relaying between the two. A socket object is its
  descriptor.
\<close>

section \<open>The descriptor that was passed\<close>

definition SOL_SOCKET :: int where "SOL_SOCKET = 1"
definition SCM_RIGHTS :: int where "SCM_RIGHTS = 1"

text \<open>\<^verbatim>\<open>struct.unpack("i", data[:4])\<close> on the little-endian machines of the driver.\<close>

definition unpack_int :: "bytes \<Rightarrow> exn + int" where
  "unpack_int data =
     (if length data < 4 then Inl StructError
      else Inr (sint (word_rcat (rev (take 4 data)) :: 32 word)))"

fun scm_fd :: "(int \<times> int \<times> bytes) list \<Rightarrow> exn + int" where
  "scm_fd [] = Inl (RuntimeError ''No file descriptor received via SCM_RIGHTS'')"
| "scm_fd ((level, type, data) # rest) =
     (if level = SOL_SOCKET \<and> type = SCM_RIGHTS then unpack_int data else scm_fd rest)"

section \<open>The child\<close>

definition SIGINT :: int where "SIGINT = 2"

definition os_call :: "'w env \<Rightarrow> string \<Rightarrow> int list \<Rightarrow> ('w, int) prog" where
  "os_call E name args = call0 (Os name args) (e_os E name args)"

definition os_do :: "'w env \<Rightarrow> string \<Rightarrow> int list \<Rightarrow> ('w, unit) prog" where
  "os_do E name args = andthen (os_call E name args) (ret ())"

text \<open>\<^verbatim>\<open>try: m / finally: f\<close>\<close>

definition finally_do :: "('w, 'a) prog \<Rightarrow> ('w, unit) prog \<Rightarrow> ('w, 'a) prog" where
  "finally_do m f = bind (catch m (\<lambda>e. andthen f (raise e))) (\<lambda>x. andthen f (ret x))"

text \<open>Under Python 2 a socket has no \<^verbatim>\<open>recvmsg\<close>. The name of the datapath that comes along is not used.\<close>

definition receive_scm_fd :: "'w env \<Rightarrow> int \<Rightarrow> ('w, int) prog" where
  "receive_scm_fd E listener =
     bind (os_call E ''accept'' [listener]) (\<lambda>conn.
       finally_do
         (bind (if e_has_recvmsg E then call0 (RecvMsg conn) (e_recvmsg E conn) else raise PyAttributeError) (\<lambda>ancdata.
            case scm_fd ancdata of Inl e \<Rightarrow> raise e | Inr fd \<Rightarrow> ret fd))
         (os_do E ''close'' [conn]))"

definition close_quietly :: "'w env \<Rightarrow> int \<Rightarrow> ('w, unit) prog" where
  "close_quietly E fd = catch_if (\<lambda>e. e = PyOSError) (os_do E ''close'' [fd]) (\<lambda>_. ret ())"

text \<open>
  The relay as one call; \<open>answers\<close> is what the world answers to the calls it makes. The result is
  the state it ended in.
\<close>

definition proxy_fds :: "'w env \<Rightarrow> (int \<Rightarrow> int \<Rightarrow> 'w \<Rightarrow> answer list \<times> 'w) \<Rightarrow> int \<Rightarrow> int \<Rightarrow> ('w, relay) prog" where
  "proxy_fds E answers fd1 fd2 =
     finally_do
       (bind (call0 (Relaying fd1 fd2) (\<lambda>w. case answers fd1 fd2 w of (as, w') \<Rightarrow> (Inr (relay_loop relay_start as), w')))
         (\<lambda>s. if at_point s = Failed then raise PyOSError else ret s))
       (andthen (close_quietly E fd1) (close_quietly E fd2))"

definition run_scm_proxy ::
  "'w env \<Rightarrow> (int \<Rightarrow> int \<Rightarrow> 'w \<Rightarrow> answer list \<times> 'w) \<Rightarrow> int \<Rightarrow> string \<Rightarrow> ('w, unit) prog" where
  "run_scm_proxy E answers listener target =
     bind (receive_scm_fd E listener) (\<lambda>nbd_fd.
     andthen (os_do E ''close'' [listener])
       (bind (call0 (ConnectUnix target) (e_connect_unix E target)) (\<lambda>nbd_sock.
        bind (os_call E ''dup'' [nbd_sock]) (\<lambda>nbd_local_fd.
        andthen (os_do E ''close'' [nbd_sock])
          (andthen (proxy_fds E answers nbd_fd nbd_local_fd) (ret ()))))))"

text \<open>\<^verbatim>\<open>O_RDWR\<close> is 2, and the signals go back to their defaults.\<close>

definition detach_child :: "'w env \<Rightarrow> ('w, unit) prog" where
  "detach_child E =
     andthen (os_do E ''setsid'' [])
       (bind (os_call E ''open_devnull'' [2]) (\<lambda>devnull.
        andthen (for_each (\<lambda>n. os_do E ''dup2'' [devnull, n]) [0, 1, 2])
          (andthen (only_if (devnull > 2) (os_do E ''close'' [devnull]))
            (andthen (os_do E ''signal_default'' [SIGTERM]) (os_do E ''signal_default'' [SIGINT])))))"

text \<open>
  The child of start_scm_daemon, from the fork to its end. The listener was closed by
  \<^verbatim>\<open>_run_scm_proxy\<close> already when it got that far; closing a socket object again is harmless.
\<close>

definition scm_child ::
  "'w env \<Rightarrow> (int \<Rightarrow> int \<Rightarrow> 'w \<Rightarrow> answer list \<times> 'w) \<Rightarrow> int \<Rightarrow> string \<Rightarrow> string \<Rightarrow> ('w, unit) prog" where
  "scm_child E answers listener scm_path target =
     finally_do
       (catch (andthen (detach_child E) (run_scm_proxy E answers listener target)) (\<lambda>_. ret ()))
       (andthen (catch (os_do E ''close'' [listener]) (\<lambda>_. ret ()))
         (andthen (catch_if (\<lambda>e. e = PyOSError) (fs_do E (Unlink scm_path)) (\<lambda>_. ret ()))
           (os_do E ''_exit'' [0])))"

end
