(* ===== verification/ProxyProps.thy ===== *)
theory ProxyProps
  imports NbdProxy Footprint Samples
begin

text \<open>
  The child of start_scm_daemon: it relays only after a descriptor was passed and the daemon's
  socket was connected, and however it fares it removes its socket and exits, so that it never
  returns into the parent's code. The relay itself forwards in order and closes both descriptors
  once it has ended.
\<close>

section \<open>try and finally\<close>

lemma spec_finally_do:
  fixes m :: "('w, 'a) prog"
  assumes "spec m (\<lambda>x t. spec f (\<lambda>_ u. Q x (t @ u)) (\<lambda>e u. R e (t @ u)))
                  (\<lambda>e t. spec f (\<lambda>_ u. R e (t @ u)) (\<lambda>e' u. R e' (t @ u)))"
  shows "spec (finally_do m f) Q R"
proof -
  have good: "spec (andthen f (ret x)) (\<lambda>x u. Q x (t @ u)) (\<lambda>e u. R e (t @ u))"
    if "spec f (\<lambda>_ u. Q x (t @ u)) (\<lambda>e u. R e (t @ u))" for x t
    by (rule spec_andthen, rule spec_mono [OF that]) (simp_all add: spec_ret)
  have bad: "spec (andthen f (raise e)) (\<lambda>_ _. False) (\<lambda>e u. R e (t @ u))"
    if "spec f (\<lambda>_ u. R e (t @ u)) (\<lambda>e' u. R e' (t @ u))" for e t
    by (rule spec_andthen, rule spec_mono [OF that]) (simp_all add: spec_raise)
  show ?thesis
    unfolding finally_do_def
    by (rule spec_bind, rule spec_catch, rule spec_mono [OF assms])
      (erule good, rule spec_mono [OF bad], assumption, simp_all)
qed



lemma never_finally [never_intros]: "never P m \<Longrightarrow> never P f \<Longrightarrow> never P (finally_do m f)"
  unfolding finally_do_def by (intro never_intros)

section \<open>The end of the child\<close>



definition relaying :: "event \<Rightarrow> bool" where
  "relaying e = (case fst e of Relaying _ _ \<Rightarrow> True | _ \<Rightarrow> False)"




lemma relaying_simps [simp]:
  "\<not> relaying (Os n as, r)" "\<not> relaying (Fs f, r)" "\<not> relaying (RecvMsg l, r)" "\<not> relaying (ConnectUnix p, r)"
  "relaying (Relaying a b, r)"
  by (simp_all add: relaying_def)

lemma never_sum_case [never_intros]:
  "(\<And>x. never P (f x)) \<Longrightarrow> (\<And>y. never P (g y)) \<Longrightarrow> never P (case r of Inl x \<Rightarrow> f x | Inr y \<Rightarrow> g y)"
  by (cases r) auto

lemma never_call0 [never_intros]: "(\<And>r. \<not> P (c, r)) \<Longrightarrow> never P (call0 c f)"
  unfolding never_def by (rule emits_call0)

lemma never_os [never_intros]: "(\<And>r. \<not> P (Os n as, r)) \<Longrightarrow> never P (os_call E n as)"
    "(\<And>r. \<not> P (Os n as, r)) \<Longrightarrow> never P (os_do E n as)"
  unfolding os_do_def os_call_def by (intro never_intros; simp)+

lemma never_close_quietly [never_intros]: "(\<And>r. \<not> P (Os ''close'' [fd], r)) \<Longrightarrow> never P (close_quietly E fd)"
  unfolding close_quietly_def catch_if_def by (intro never_intros; simp)

lemma never_detach: "never relaying (detach_child E)"
  unfolding detach_child_def by (simp, intro never_intros; simp)




section \<open>The end of the relay\<close>

text \<open>The loop ran, and then each descriptor was closed once, whatever the closes answered.\<close>

definition relayed_then_closed :: "int \<Rightarrow> int \<Rightarrow> event list \<Rightarrow> bool" where
  "relayed_then_closed fd1 fd2 t \<longleftrightarrow>
     (\<exists>a b. t = [(Relaying fd1 fd2, Some 0), (Os ''close'' [fd1], a), (Os ''close'' [fd2], b)])"

definition in_order :: "relay \<Rightarrow> bool" where
  "in_order s \<longleftrightarrow> (\<forall>r. prefix (sent s (other r)) (got s r))"

lemma close_quietly_once:
  assumes "\<And>w e. fst (e_os E ''close'' [fd] w) = Inl e \<Longrightarrow> e = PyOSError"
  shows "spec (close_quietly E fd) (\<lambda>_ t. \<exists>a. t = [(Os ''close'' [fd], a)]) (\<lambda>_ _. False)"
proof -
  have "spec (os_call E ''close'' [fd]) (\<lambda>_ t. \<exists>a. t = [(Os ''close'' [fd], a)])
      (\<lambda>e t. e = PyOSError \<and> (\<exists>a. t = [(Os ''close'' [fd], a)]))"
    unfolding os_call_def spec_def perform_def using assms by (auto split: prod.splits sum.splits) (metis fst_conv)
  then have "spec (os_do E ''close'' [fd]) (\<lambda>_ t. \<exists>a. t = [(Os ''close'' [fd], a)])
      (\<lambda>e t. e = PyOSError \<and> (\<exists>a. t = [(Os ''close'' [fd], a)]))"
    unfolding os_do_def by (intro spec_andthen) (erule spec_mono; auto intro: spec_ret)
  then show ?thesis
    unfolding close_quietly_def by (intro spec_catch_if) (erule spec_mono; auto intro: spec_ret)
qed

lemma proxy_closes:
  assumes "\<And>fd w e. fst (e_os E ''close'' [fd] w) = Inl e \<Longrightarrow> e = PyOSError"
  shows "spec (proxy_fds E answers fd1 fd2)
     (\<lambda>s t. at_point s = Ended \<and> in_order s \<and> relayed_then_closed fd1 fd2 t)
     (\<lambda>e t. e = PyOSError \<and> relayed_then_closed fd1 fd2 t)"
proof -
  let ?F = "\<lambda>t. t = [(Relaying fd1 fd2, Some 0)]"
  have closes: "spec (andthen (close_quietly E fd1) (close_quietly E fd2))
      (\<lambda>_ u. relayed_then_closed fd1 fd2 (t @ u)) (\<lambda>_ _. False)" if "?F t" for t
    using that unfolding relayed_then_closed_def
    by (intro spec_andthen spec_mono [OF close_quietly_once [OF assms]]) auto
  have over: "in_order (relay_loop relay_start as) \<and> is_over (at_point (relay_loop relay_start as))" for as
    using relays_loop [OF relays_start] by (simp add: in_order_def relays_def)
  have loop: "spec (bind (call0 (Relaying fd1 fd2) (\<lambda>w. case answers fd1 fd2 w of (as, w') \<Rightarrow> (Inr (relay_loop relay_start as), w')))
         (\<lambda>s. if at_point s = Failed then raise PyOSError else ret s))
      (\<lambda>s t. at_point s = Ended \<and> in_order s \<and> ?F t) (\<lambda>e t. e = PyOSError \<and> ?F t)"
    using over by (auto simp: spec_def perform_def bind_def ret_def raise_def is_over_def split: prod.splits sum.splits if_splits)
  show ?thesis
    unfolding proxy_fds_def
    by (rule spec_finally_do, rule spec_mono [OF loop]) (auto intro!: spec_mono [OF closes])
qed

section \<open>Properties\<close>



text \<open>Under Python 2, where sockets have no recvmsg, nothing is ever relayed.\<close>

theorem scm_child_needs_recvmsg:
  assumes "\<not> e_has_recvmsg E"
  shows "never relaying (scm_child E answers listener scm_path target)"
proof -
  have "fails relaying (finally_do (bind (raise PyAttributeError) (\<lambda>anc. case scm_fd anc of Inl e \<Rightarrow> raise e | Inr fd \<Rightarrow> ret fd))
      (os_do E ''close'' [conn]))" for conn
  proof -
    have "bind (raise PyAttributeError) (\<lambda>anc. case scm_fd anc of Inl e \<Rightarrow> raise e | Inr fd \<Rightarrow> ret fd) = raise PyAttributeError"
      by (simp add: bind_def raise_def)
    then show ?thesis
      unfolding finally_do_def andthen_def fails_def
      by (intro spec_bind spec_catch) (auto intro!: spec_intros simp: os_do_def os_call_def)
  qed
  then have "fails relaying (receive_scm_fd E listener)"
    unfolding receive_scm_fd_def using assms by (intro fails_bind never_intros) simp_all
  then have "never relaying (run_scm_proxy E answers listener target)"
    unfolding run_scm_proxy_def never_def emits_def fails_def by (intro spec_bind) (erule spec_mono; simp)
  then show ?thesis
    unfolding scm_child_def fs_do_def catch_if_def by (intro never_intros never_detach; simp)
qed

theorem scm_child_needs_recvmsg_witness: "never relaying (scm_child bare_env (\<lambda>_ _ w. ([], w)) 3 ''/s'' ''/t'')"
  by (rule scm_child_needs_recvmsg) (simp add: bare_env_def any_env_def)

text \<open>
  C37. Whatever select, read and write answer, the relay of an inbound migration has written
  to each side a prefix of what it read from the other, all of it when it waits again; and
  proxy_fds, whether it returns or raises, ran the relay to its end and then closed both
  descriptors, each once, where a close raises nothing but OSError.
\<close>

theorem relay_forwards_in_order:
  assumes "relay_run relay_start as = Some s"
    and "\<And>fd w e. fst (e_os E ''close'' [fd] w) = Inl e \<Longrightarrow> e = PyOSError"
  shows "(\<forall>r. prefix (sent s (other r)) (got s r) \<and>
              (at_point s = Selecting \<longrightarrow> sent s (other r) = got s r)) \<and>
         spec (proxy_fds E answers fd1 fd2)
           (\<lambda>s' t. at_point s' = Ended \<and> in_order s' \<and> relayed_then_closed fd1 fd2 t)
           (\<lambda>e t. e = PyOSError \<and> relayed_then_closed fd1 fd2 t)"
proof -
  from assms(1) have "relays s" by (blast intro: relays_reach relay_run_reach relay_reach.start)
  then have "\<forall>r. prefix (sent s (other r)) (got s r) \<and> (at_point s = Selecting \<longrightarrow> sent s (other r) = got s r)"
    by (auto simp: relays_def)
  moreover have "spec (proxy_fds E answers fd1 fd2)
           (\<lambda>s' t. at_point s' = Ended \<and> in_order s' \<and> relayed_then_closed fd1 fd2 t)
           (\<lambda>e t. e = PyOSError \<and> relayed_then_closed fd1 fd2 t)"
    by (rule proxy_closes) (rule assms(2))
  ultimately show ?thesis by (rule conjI)
qed

theorem relay_forwards_in_order_witness:
  "\<exists>s. relay_run relay_start
     [Selected (Some ([Fd1, Fd2], False)), ReadGot (Some [1, 2, 3]), WriteTook (Some 2), WriteTook (Some 1),
      ReadGot (Some [9]), WriteTook (Some 1)] = Some s \<and>
     at_point s = Selecting \<and> got s Fd1 = [1, 2, 3] \<and> sent s Fd2 = [1, 2, 3] \<and>
     spec (proxy_fds bare_env (\<lambda>_ _ w. ([], w)) 3 4)
       (\<lambda>s' t. at_point s' = Ended \<and> in_order s' \<and> relayed_then_closed 3 4 t)
       (\<lambda>e t. e = PyOSError \<and> relayed_then_closed 3 4 t)"
proof -
  let ?as = "[Selected (Some ([Fd1, Fd2], False)), ReadGot (Some [1, 2, 3]), WriteTook (Some 2), WriteTook (Some 1),
      ReadGot (Some [9]), WriteTook (Some 1)]"
  obtain s where s: "relay_run relay_start ?as = Some s" "at_point s = Selecting" "got s Fd1 = [1, 2, 3]"
    by (simp add: relay_step_def relay_start_def next_side_def)
  have closes: "e = PyOSError" if "fst (e_os bare_env ''close'' [fd] w) = Inl e" for fd w e
    using that by (simp add: bare_env_def any_env_def returning_def)
  have "(\<forall>r. prefix (sent s (other r)) (got s r) \<and> (at_point s = Selecting \<longrightarrow> sent s (other r) = got s r)) \<and>
      spec (proxy_fds bare_env (\<lambda>_ _ w. ([], w)) 3 4)
       (\<lambda>s' t. at_point s' = Ended \<and> in_order s' \<and> relayed_then_closed 3 4 t)
       (\<lambda>e t. e = PyOSError \<and> relayed_then_closed 3 4 t)"
    by (rule relay_forwards_in_order [OF s(1)]) (rule closes)
  then have closed: "spec (proxy_fds bare_env (\<lambda>_ _ w. ([], w)) 3 4)
       (\<lambda>s' t. at_point s' = Ended \<and> in_order s' \<and> relayed_then_closed 3 4 t)
       (\<lambda>e t. e = PyOSError \<and> relayed_then_closed 3 4 t)"
    and all: "\<forall>r. at_point s = Selecting \<longrightarrow> sent s (other r) = got s r" by blast+
  from spec [OF all, of Fd1] s have "sent s Fd2 = [1, 2, 3]" by simp
  with s closed show ?thesis by (intro exI [of _ s] conjI)
qed

end
