(* ===== verification/Commands.thy ===== *)
theory Commands
  imports Volume ZfsFeatures XeWrapper Samples
begin

text \<open>
  The scripts that xapi runs: \<^verbatim>\<open>call_volume_command\<close> of \<^verbatim>\<open>src/src/volume/volume.py\<close> and the two
  \<^verbatim>\<open>plugin.py\<close>. The command line of the API (\<^verbatim>\<open>Volume_commandline\<close>, outside \<^verbatim>\<open>src/\<close>) is the argument
  \<open>dispatch\<close>, which runs the handler of a name; \<open>dumps\<close> is the JSON text of an answer.
\<close>

section \<open>The volume script\<close>

definition VOLUME_COMMANDS :: "string list" where
  "VOLUME_COMMANDS = [''Volume.create'', ''Volume.destroy'', ''Volume.resize'', ''Volume.snapshot'', ''Volume.clone'',
     ''Volume.stat'', ''Volume.set'', ''Volume.unset'', ''Volume.set_name'', ''Volume.set_description'',
     ''Volume.similar_content'', ''Volume.list_changed_blocks'', ''Volume.copy'']"

text \<open>\<^verbatim>\<open>int(v)\<close>, and \<^verbatim>\<open>request[k]\<close> of a parsed JSON value.\<close>

definition py_to_int :: "pyval \<Rightarrow> ('w, int) prog" where
  "py_to_int v = (case v of
       PInt i \<Rightarrow> ret i
     | PBool b \<Rightarrow> ret (if b then 1 else 0)
     | PStr s \<Rightarrow> parse_int s
     | _ \<Rightarrow> raise PyTypeError)"

definition item :: "pyval \<Rightarrow> string \<Rightarrow> ('w, pyval) prog" where
  "item v k = (case v of PDict d \<Rightarrow> of_option (PyKeyError k) (dget d k) | _ \<Rightarrow> raise PyTypeError)"

text \<open>
  The one method the API does not have: its arguments are read from a line of standard input.
  The wrapper, its only caller, sends strings where the handler takes them.
\<close>

definition import_existing_command ::
  "'w env \<Rightarrow> (volume_info \<Rightarrow> string) \<Rightarrow> string \<Rightarrow> ('w, unit) prog" where
  "import_existing_command E dumps line =
     bind (of_option PyValueError (e_json_loads E line)) (\<lambda>request.
     bind (item request ''dbg'') (\<lambda>_.
     bind (bind (item request ''sr'') as_str) (\<lambda>sr.
     bind (bind (item request ''key'') as_str) (\<lambda>key.
     bind (as_dict request) (\<lambda>d.
     bind (as_str (dget_or d ''name'' (PStr []))) (\<lambda>name.
     bind (as_str (dget_or d ''description'' (PStr []))) (\<lambda>descr.
     bind (py_to_int (dget_or d ''size'' (PInt 0))) (\<lambda>sz.
     bind (import_existing E sr key name descr sz (py_truth (dget_or d ''sharable'' (PBool False)))) (\<lambda>r.
       print_text E (dumps r @ [newline]))))))))))"

definition call_volume_command ::
  "'w env \<Rightarrow> (string \<Rightarrow> ('w, unit) prog) \<Rightarrow> (volume_info \<Rightarrow> string) \<Rightarrow> string \<Rightarrow> string \<Rightarrow> ('w, unit) prog" where
  "call_volume_command E dispatch dumps base line =
     (if base \<in> set VOLUME_COMMANDS then dispatch base
      else if base = ''Volume.import_existing'' then import_existing_command E dumps line
      else raise (Unimplemented base))"

section \<open>The plugin scripts\<close>

definition volume_diagnostics :: string where
  "volume_diagnostics = ''No diagnostic data to report''"

definition volume_query :: "'w env \<Rightarrow> ('w, pydict) prog" where
  "volume_query E = build_query_response (probe_zfs_version E)"

definition volume_plugin_command ::
  "'w env \<Rightarrow> (string \<Rightarrow> string) \<Rightarrow> (pydict \<Rightarrow> string) \<Rightarrow> string \<Rightarrow> ('w, unit) prog" where
  "volume_plugin_command E dumps_str dumps base =
     (if base = ''Plugin.diagnostics'' then print_text E (dumps_str volume_diagnostics)
      else if base = ''Plugin.Query'' then bind (volume_query E) (\<lambda>r. print_text E (dumps r))
      else raise (Unimplemented base))"

definition datapath_query :: pydict where
  "datapath_query =
     [(''plugin'', PStr ''raw-qdisk''), (''name'', PStr ''Raw block device datapath using qemu-dp''),
      (''description'', PStr (''This plugin manages qemu-dp instances for raw block devices '' @
          ''(such as ZFS zvols), enabling live storage migration and CBT.'')),
      (''vendor'', PStr ''Moksha''), (''copyright'', PStr ''(C) 2026 Moksha''), (''version'', PStr ''1.0''),
      (''required_api_version'', PStr ''5.0''), (''features'', PList [PStr ''VDI_MIRROR_IN'']),
      (''configuration'', PDict []), (''required_cluster_stack'', PList [])]"

definition datapath_plugin_command :: "'w env \<Rightarrow> (pydict \<Rightarrow> string) \<Rightarrow> string \<Rightarrow> ('w, unit) prog" where
  "datapath_plugin_command E dumps base =
     (if base = ''Plugin.Query'' then print_text E (dumps datapath_query) else raise (Unimplemented base))"

section \<open>The copy's registration reaches its handler\<close>

text \<open>
  C40. What the wrapper sends to register a copy makes the volume script on the other host
  call import_existing with exactly the sr, uuid, name, description and size it was sent, and
  print its answer.
\<close>

theorem registration_understood:
  assumes "e_json_loads E line = Some (PDict (register_payload dbg dest_sr new_uuid name descr n))"
  shows "call_volume_command E dispatch dumps ''Volume.import_existing'' line =
    bind (import_existing E (''file://'' @ path_join SR_MOUNT_ROOT dest_sr) new_uuid name descr n False)
      (\<lambda>r. print_text E (dumps r @ [newline]))"
  using assms
  by (simp add: call_volume_command_def VOLUME_COMMANDS_def import_existing_command_def register_payload_def item_def
      as_str_def as_dict_def py_to_int_def of_option_def dget_def dget_or_def ret_bind)

definition register_env :: "unit env" where
  "register_env = bare_env\<lparr>e_json_loads := \<lambda>_. Some (PDict (register_payload ''d'' ''sr2'' ''u1'' ''n'' [] 8192))\<rparr>"

theorem registration_understood_witness:
  "call_volume_command register_env (\<lambda>_. ret ()) (\<lambda>_. []) ''Volume.import_existing'' [] =
    bind (import_existing register_env (''file://'' @ path_join SR_MOUNT_ROOT ''sr2'') ''u1'' ''n'' [] 8192 False)
      (\<lambda>r. print_text register_env ([] @ [newline]))"
  by (rule registration_understood) (simp add: register_env_def)

end
