(* ===== verification/Changelog.thy ===== *)
theory Changelog
  imports Exceptions PyStr
begin

text \<open>
  The release tool \<^verbatim>\<open>src/tools/extract_changelog_block.py\<close>: the body of one version's section of
  the changelog. The text is given by its lines; reading the file and the arguments is left out.
\<close>

section \<open>Headings\<close>

text \<open>
  \<^verbatim>\<open>^##\s+\[([^\]]+)\](?:\s*-\s*\S+)?\s*$\<close>: the name between the brackets, when the line is a heading.
\<close>

definition date_suffix :: "string \<Rightarrow> bool" where
  "date_suffix s \<longleftrightarrow>
     (let t = lstrip_if is_space s in
      t = [] \<or> hd t = CHR ''-'' \<and>
        (let w = py_strip (tl t) in w \<noteq> [] \<and> list_all (\<lambda>c. \<not> is_space c) w))"

definition heading :: "string \<Rightarrow> string option" where
  "heading line =
     (if \<not> startswith line ''##'' then None
      else
        let rest = drop 2 line; t = lstrip_if is_space rest in
        if t = rest \<or> t = [] \<or> hd t \<noteq> CHR ''['' then None
        else
          let name = takeWhile (\<lambda>c. c \<noteq> CHR '']'') (tl t); after = dropWhile (\<lambda>c. c \<noteq> CHR '']'') (tl t) in
          if name = [] \<or> after = [] \<or> \<not> date_suffix (tl after) then None else Some name)"

section \<open>The section of a version\<close>

fun section_lines :: "string \<Rightarrow> bool \<Rightarrow> bool \<Rightarrow> string list \<Rightarrow> string list \<Rightarrow> bool \<times> string list" where
  "section_lines version in_block found out [] = (found, out)"
| "section_lines version in_block found out (line # rest) =
     (case heading line of
        Some name \<Rightarrow>
          if name = version then section_lines version True True out rest
          else if in_block then (found, out)
          else section_lines version in_block found out rest
      | None \<Rightarrow> section_lines version in_block found (if in_block then out @ [line] else out) rest)"

definition blank :: "string \<Rightarrow> bool" where
  "blank line \<longleftrightarrow> py_strip line = []"

definition trim_blank :: "string list \<Rightarrow> string list" where
  "trim_blank out = rev (dropWhile blank (rev (dropWhile blank out)))"

definition extract_block :: "string list \<Rightarrow> string \<Rightarrow> exn + string" where
  "extract_block lines version =
     (case section_lines version False False [] lines of
        (found, out) \<Rightarrow>
          if \<not> found then Inl (PyKeyError version)
          else Inr (join_with [newline] (trim_blank out) @ [newline]))"

section \<open>What it extracts\<close>

lemma section_before:
  "list_all (\<lambda>l. heading l \<noteq> Some v) pre \<Longrightarrow>
   section_lines v False found out (pre @ rest) = section_lines v False found out rest"
  by (induction pre) (auto split: option.splits)

lemma section_body:
  "list_all (\<lambda>l. heading l = None) body \<Longrightarrow>
   section_lines v True found out (body @ rest) = section_lines v True found (out @ body) rest"
  by (induction body arbitrary: out) auto

lemma section_end:
  "rest = [] \<or> (\<exists>v'. heading (hd rest) = Some v' \<and> v' \<noteq> v) \<Longrightarrow> section_lines v True found out rest = (found, out)"
  by (cases rest) auto

theorem changelog_block_exact:
  assumes "list_all (\<lambda>l. heading l \<noteq> Some v) pre" and "heading h = Some v"
    and "list_all (\<lambda>l. heading l = None) body"
    and "rest = [] \<or> (\<exists>v'. heading (hd rest) = Some v' \<and> v' \<noteq> v)"
  shows "extract_block (pre @ h # body @ rest) v = Inr (join_with [newline] (trim_blank body) @ [newline])"
  using assms by (simp add: extract_block_def section_before section_body section_end)

theorem changelog_block_exact_witness:
  "extract_block [''# Log'', ''## [1.1] - 2026-01-02'', '''', ''- b'', '''', ''## [1.0]'', ''- a''] ''1.1'' =
    Inr (''- b'' @ [newline])"
proof -
  have "extract_block ([''# Log''] @ ''## [1.1] - 2026-01-02'' # ['''', ''- b'', ''''] @ [''## [1.0]'', ''- a'']) ''1.1'' =
    Inr (join_with [newline] (trim_blank ['''', ''- b'', '''']) @ [newline])"
    by (rule changelog_block_exact) (code_simp, code_simp, code_simp, rule disjI2, rule exI [of _ "''1.0''"], code_simp)
  moreover have "trim_blank ['''', ''- b'', ''''] = [''- b'']" by code_simp
  moreover have "join_with [newline] [''- b''] = ''- b''" by code_simp
  ultimately show ?thesis by simp
qed

text \<open>A missing section raises.\<close>

lemma extract_missing:
  "list_all (\<lambda>l. heading l \<noteq> Some v) lines \<Longrightarrow> extract_block lines v = Inl (PyKeyError v)"
  using section_before [of v lines False "[]" "[]"] by (simp add: extract_block_def)

end
