(* ===== verification/BackupChain.thy ===== *)
theory BackupChain
  imports WindowProps
begin

text \<open>
  What the bitmaps are for: a chain of incremental backups. The contract of a tracker of
  changes (writes are recorded, a snapshot hands out what was recorded and starts anew) is a
  locale, in which restoring the chain is proved; a qemu with the documented commands, driven
  through the windows of SnapshotWindow while the guest is quiet, meets it.
\<close>

section \<open>A disk, its snapshots and their increments\<close>

record 'q tracked_disk =
  node :: 'q
  contents :: "nat \<Rightarrow> nat"
  snapshots :: "((nat \<Rightarrow> nat) \<times> nat set) list"

text \<open>
  Writes and snapshots, in any order; a snapshot is the contents of the disk and the blocks
  reported as changed since the one before. The last snapshot comes first in the list.
\<close>

inductive chain ::
  "(nat \<Rightarrow> 'q \<Rightarrow> 'q) \<Rightarrow> ('q \<Rightarrow> nat set \<Rightarrow> 'q \<Rightarrow> bool) \<Rightarrow> ('q \<Rightarrow> bool) \<Rightarrow> 'q tracked_disk \<Rightarrow> bool"
  for written snapped_to fresh where
  chain_start: "fresh q \<Longrightarrow> chain written snapped_to fresh \<lparr>node = q, contents = c, snapshots = [(c, D)]\<rparr>"
| chain_write: "chain written snapped_to fresh s \<Longrightarrow>
     chain written snapped_to fresh (s\<lparr>node := written blk (node s), contents := (contents s)(blk := x)\<rparr>)"
| chain_snapshot: "chain written snapped_to fresh s \<Longrightarrow> snapped_to (node s) changed q \<Longrightarrow>
     chain written snapped_to fresh (s\<lparr>node := q, snapshots := (contents s, changed) # snapshots s\<rparr>)"

text \<open>An increment brings the blocks of the bitmap, the rest stays as the backup before had it.\<close>

definition apply_increment :: "(nat \<Rightarrow> nat) \<times> nat set \<Rightarrow> (nat \<Rightarrow> nat) \<Rightarrow> nat \<Rightarrow> nat" where
  "apply_increment inc base = (\<lambda>blk. if blk \<in> snd inc then fst inc blk else base blk)"

text \<open>From the full backup (the oldest snapshot) on.\<close>

fun restored :: "((nat \<Rightarrow> nat) \<times> nat set) list \<Rightarrow> nat \<Rightarrow> nat" where
  "restored [] = (\<lambda>_. 0)"
| "restored [full] = fst full"
| "restored (inc # older) = apply_increment inc (restored older)"

lemma restored_more: "older \<noteq> [] \<Longrightarrow> restored (inc # older) = apply_increment inc (restored older)"
  by (cases older) simp_all

section \<open>The contract\<close>

locale change_tracker =
  fixes written :: "nat \<Rightarrow> 'q \<Rightarrow> 'q"
    and snapped_to :: "'q \<Rightarrow> nat set \<Rightarrow> 'q \<Rightarrow> bool"
    and fresh :: "'q \<Rightarrow> bool"
    and recorded :: "'q \<Rightarrow> nat set"
    and tracking :: "'q \<Rightarrow> bool"
  assumes fresh_tracks: "fresh q \<Longrightarrow> tracking q \<and> recorded q = {}"
    and write_recorded: "tracking q \<Longrightarrow> tracking (written blk q) \<and> recorded (written blk q) = insert blk (recorded q)"
    and snapshot_hands_out: "tracking q \<Longrightarrow> snapped_to q changed q' \<Longrightarrow>
      changed = recorded q \<and> tracking q' \<and> recorded q' = {}"
begin

definition in_step :: "'q tracked_disk \<Rightarrow> bool" where
  "in_step s \<longleftrightarrow> tracking (node s) \<and> snapshots s \<noteq> [] \<and>
     (\<forall>blk. blk \<notin> recorded (node s) \<longrightarrow> contents s blk = fst (hd (snapshots s)) blk) \<and>
     restored (snapshots s) = fst (hd (snapshots s))"

lemma chain_in_step: "chain written snapped_to fresh s \<Longrightarrow> in_step s"
proof (induction rule: chain.induct)
  case (chain_start q c D)
  with fresh_tracks show ?case by (simp add: in_step_def)
next
  case (chain_write s blk x)
  with write_recorded show ?case by (simp add: in_step_def)
next
  case (chain_snapshot s changed q)
  then have "changed = recorded (node s)" "tracking q" "recorded q = {}"
    using snapshot_hands_out [of "node s" changed q] by (simp_all add: in_step_def)
  moreover from this chain_snapshot.IH
  have "apply_increment (contents s, changed) (fst (hd (snapshots s))) = contents s"
    by (auto simp: apply_increment_def in_step_def)
  ultimately show ?case using chain_snapshot.IH by (simp add: in_step_def restored_more)
qed

lemma chain_restores: "chain written snapped_to fresh s \<Longrightarrow> restored (snapshots s) = fst (hd (snapshots s))"
  using chain_in_step by (simp add: in_step_def)

end

section \<open>qemu as a tracker\<close>

definition active_tracks :: "('q \<Rightarrow> string \<Rightarrow> tracked option) \<Rightarrow> 'q \<Rightarrow> bool" where
  "active_tracks view q \<longleftrightarrow> is_on (view q CBT_ACTIVE_BITMAP)"

definition active_recorded :: "('q \<Rightarrow> string \<Rightarrow> tracked option) \<Rightarrow> 'q \<Rightarrow> nat set" where
  "active_recorded view q = dirty_in (view q CBT_ACTIVE_BITMAP)"

definition fresh_node :: "('q \<Rightarrow> string \<Rightarrow> tracked option) \<Rightarrow> 'q \<Rightarrow> bool" where
  "fresh_node view q \<longleftrightarrow> active_tracks view q \<and> active_recorded view q = {}"

text \<open>The window that opens when the driver takes a snapshot, run to its end without a write.\<close>

definition window_of ::
  "qemu_disk \<Rightarrow> string \<Rightarrow> string \<Rightarrow> pyval \<Rightarrow> ('q \<Rightarrow> string \<Rightarrow> tracked option) \<Rightarrow> 'q \<Rightarrow> 'q window" where
  "window_of qd sn frozen g view q =
     \<lparr>todo = window_calls qd sn frozen g, qemu = q, snapped = False, before = active_recorded view q, after = {}\<rparr>"

definition quiet_snapshot ::
  "(call \<Rightarrow> 'q \<Rightarrow> 'q) \<Rightarrow> (nat \<Rightarrow> 'q \<Rightarrow> 'q) \<Rightarrow> ('q \<Rightarrow> string \<Rightarrow> tracked option) \<Rightarrow> qemu_disk \<Rightarrow>
   string \<Rightarrow> string \<Rightarrow> pyval \<Rightarrow> 'q \<Rightarrow> 'q window \<Rightarrow> bool" where
  "quiet_snapshot eff guest view qd sn frozen g q w \<longleftrightarrow>
     view q frozen = None \<and> frozen \<noteq> CBT_ACTIVE_BITMAP \<and>
     wreach eff guest (window_of qd sn frozen g view q) w \<and> todo w = [] \<and>
     before w = active_recorded view q \<and> after w = {}"

definition captures ::
  "(call \<Rightarrow> 'q \<Rightarrow> 'q) \<Rightarrow> (nat \<Rightarrow> 'q \<Rightarrow> 'q) \<Rightarrow> ('q \<Rightarrow> string \<Rightarrow> tracked option) \<Rightarrow> qemu_disk \<Rightarrow> 'q \<Rightarrow> nat set \<Rightarrow> 'q \<Rightarrow> bool" where
  "captures eff guest view qd q changed q' \<longleftrightarrow>
     (\<exists>sn frozen g w. quiet_snapshot eff guest view qd sn frozen g q w \<and>
        changed = dirty_in (view (qemu w) frozen) \<and> q' = qemu w)"

lemma window_of_starts:
  "active_tracks view q \<Longrightarrow> view q frozen = None \<Longrightarrow> frozen \<noteq> CBT_ACTIVE_BITMAP \<Longrightarrow>
   wstart qd sn frozen g view (window_of qd sn frozen g view q)"
  by (simp add: wstart_def window_of_def active_tracks_def active_recorded_def)

locale documented_qemu =
  fixes qd :: qemu_disk
    and eff :: "call \<Rightarrow> 'q \<Rightarrow> 'q"
    and guest :: "nat \<Rightarrow> 'q \<Rightarrow> 'q"
    and view :: "'q \<Rightarrow> string \<Rightarrow> tracked option"
  assumes documented: "bitmap_semantics qd eff guest view"
begin

lemma captured:
  assumes "active_tracks view q" and "captures eff guest view qd q changed q'"
  shows "changed = active_recorded view q \<and> active_tracks view q' \<and> active_recorded view q' = {}"
proof -
  obtain sn frozen g w where quiet: "quiet_snapshot eff guest view qd sn frozen g q w"
    and q': "changed = dirty_in (view (qemu w) frozen)" "q' = qemu w"
    using assms(2) by (auto simp: captures_def)
  then have "window_ok 7 frozen view w"
    using window_done [OF documented window_of_starts [OF assms(1)]] by (auto simp: quiet_snapshot_def)
  with quiet q' show ?thesis
    by (simp add: window_ok_def Let_def quiet_snapshot_def active_tracks_def active_recorded_def)
qed

end

sublocale documented_qemu \<subseteq> change_tracker guest "captures eff guest view qd" "fresh_node view" "active_recorded view" "active_tracks view"
proof unfold_locales
  show "fresh_node view q \<Longrightarrow> active_tracks view q \<and> active_recorded view q = {}" for q
    by (simp add: fresh_node_def)
  show "active_tracks view q \<Longrightarrow> active_tracks view (guest blk q) \<and>
      active_recorded view (guest blk q) = insert blk (active_recorded view q)" for q blk
    using semantics_simps(6) [OF documented, of blk q] by (simp add: active_tracks_def active_recorded_def)
qed (rule captured)

context documented_qemu
begin

lemma backups_restore:
  "chain guest (captures eff guest view qd) (fresh_node view) s \<Longrightarrow> restored (snapshots s) = fst (hd (snapshots s))"
  by (rule chain_restores)

end

interpretation one_node: documented_qemu demo_disk node_eff node_write "\<lambda>q. q"
  by unfold_locales (rule node_semantics)

section \<open>An instance\<close>

definition demo_written :: "(string \<Rightarrow> tracked option) tracked_disk" where
  "demo_written = \<lparr>node = node_write 4 [CBT_ACTIVE_BITMAP \<mapsto> \<lparr>tb_on = True, tb_dirty = {}\<rparr>],
     contents = (\<lambda>_. 0)(4 := 7), snapshots = [(\<lambda>_. 0, {})]\<rparr>"

abbreviation demo_chain :: "(string \<Rightarrow> tracked option) tracked_disk \<Rightarrow> bool" where
  "demo_chain \<equiv> chain node_write (captures node_eff node_write (\<lambda>q. q) demo_disk) (fresh_node (\<lambda>q. q))"

lemma demo_chain_written: "demo_chain demo_written"
proof -
  have "demo_chain \<lparr>node = [CBT_ACTIVE_BITMAP \<mapsto> \<lparr>tb_on = True, tb_dirty = {}\<rparr>], contents = \<lambda>_. 0, snapshots = [(\<lambda>_. 0, {})]\<rparr>"
    by (rule chain_start) (simp add: fresh_node_def active_tracks_def active_recorded_def)
  from chain_write [OF this, of 4 7] show ?thesis by (simp add: demo_written_def)
qed

lemma demo_captures: "\<exists>changed q. captures node_eff node_write (\<lambda>q. q) demo_disk (node demo_written) changed q"
proof -
  have "active_tracks (\<lambda>q. q) (node demo_written)" "node demo_written ''cbt-snap-s'' = None" "''cbt-snap-s'' \<noteq> CBT_ACTIVE_BITMAP"
    by (simp_all add: active_tracks_def demo_written_def node_write_def touch_def CBT_ACTIVE_BITMAP_def)
  then have start: "wstart demo_disk ''p@s'' ''cbt-snap-s'' (PInt 65536) (\<lambda>q. q)
      (window_of demo_disk ''p@s'' ''cbt-snap-s'' (PInt 65536) (\<lambda>q. q) (node demo_written))"
    by (rule window_of_starts [where view = "\<lambda>q. q"])
  obtain w where "wreach node_eff node_write (window_of demo_disk ''p@s'' ''cbt-snap-s'' (PInt 65536) (\<lambda>q. q) (node demo_written)) w"
    and "todo w = []" and "after w = {}" and "before w = active_recorded (\<lambda>q. q) (node demo_written)"
    using can_finish [OF node_semantics in_window_start [OF start]] by (auto simp: window_of_def)
  with start show ?thesis unfolding captures_def quiet_snapshot_def wstart_def window_of_def by fastforce
qed

section \<open>Property\<close>

text \<open>
  C8. Along any sequence of guest writes and quiet snapshots of a disk whose qemu has the
  documented commands, restoring the full backup and then each increment (the blocks of the
  frozen bitmap) gives the contents at the last snapshot.
\<close>

theorem backup_chain_restores:
  assumes "bitmap_semantics qd eff guest view"
    and "chain guest (captures eff guest view qd) (fresh_node view) s"
  shows "restored (snapshots s) = fst (hd (snapshots s))"
  by (rule documented_qemu.backups_restore [OF documented_qemu.intro]) (rule assms)+

theorem backup_chain_restores_witness:
  "\<exists>changed q. restored ((contents demo_written, changed) # snapshots demo_written) 4 = 7 \<and>
     captures node_eff node_write (\<lambda>q. q) demo_disk (node demo_written) changed q"
proof -
  obtain changed q where c: "captures node_eff node_write (\<lambda>q. q) demo_disk (node demo_written) changed q"
    using demo_captures by blast
  have "demo_chain (demo_written\<lparr>node := q, snapshots := (contents demo_written, changed) # snapshots demo_written\<rparr>)"
    by (rule chain_snapshot [OF demo_chain_written]) (rule c)
  from backup_chain_restores [OF node_semantics this]
  have "restored ((contents demo_written, changed) # snapshots demo_written) = contents demo_written"
    by simp
  then have "restored ((contents demo_written, changed) # snapshots demo_written) 4 = contents demo_written 4"
    by (rule fun_cong)
  with c show ?thesis by (auto simp: demo_written_def)
qed

end
