(* ===== verification/FeatureProps.thy ===== *)
theory FeatureProps
  imports ZfsFeatures Order Samples
begin

text \<open>
  The probe of a pool against what the tools printed: the version is read back from the first
  line of \<^verbatim>\<open>zfs version\<close>, the flags from the rows of \<^verbatim>\<open>zpool get\<close>, and a capability is advertised
  exactly when the pool backs it.
\<close>

section \<open>The version\<close>

lemma take_digits_str_nat:
  assumes "rest = [] \<or> \<not> is_digit (hd rest)"
  shows "take_digits (str_nat n @ rest) = Some (int n, rest)"
proof -
  have "list_all is_digit (str_nat n)" "str_nat n \<noteq> []" using str_nat_digits by auto
  moreover have "takeWhile is_digit rest = []" "dropWhile is_digit rest = rest"
    using assms by (cases rest; simp)+
  ultimately show ?thesis
    by (simp add: take_digits_def list_all_iff takeWhile_append2 dropWhile_append2 digits_val_str_nat)
qed

lemma dot_not_digit [simp]: "\<not> is_digit CHR ''.''"
  by (simp add: is_digit_def char_code_def)

text \<open>Every version is read back from its text, whatever follows (\<^verbatim>\<open>-1\<close>, \<^verbatim>\<open>-rc3\<close>, the kernel's).\<close>

lemma version_read_back:
  assumes "0 \<le> a" and "0 \<le> b" and "0 \<le> c" and "rest = [] \<or> \<not> is_digit (hd rest)"
  shows "search_version (''zfs-'' @ show_version (a, b, c) @ rest) = Some (a, b, c)"
proof -
  define nums where "nums = str_nat (nat a) @ CHR ''.'' # str_nat (nat b) @ CHR ''.'' # str_nat (nat c) @ rest"
  have shown: "''zfs-'' @ show_version (a, b, c) @ rest = CHR ''z'' # ''fs-'' @ nums"
    using assms by (simp add: nums_def show_version_def str_int_def)
  have "version_at (CHR ''z'' # ''fs-'' @ nums) = Some (a, b, c)"
    using assms by (simp add: version_at_def startswith_def nums_def take_digits_str_nat)
  then show ?thesis unfolding shown by simp
qed

lemma digit_plain: "is_digit c \<Longrightarrow> char_code c \<noteq> 10 \<and> char_code c \<noteq> 13"
  by (auto simp: is_digit_def)

lemma dotted_plain:
  assumes "x \<in> set (''zfs-'' @ str_nat i @ CHR ''.'' # str_nat j @ CHR ''.'' # str_nat k)"
  shows "char_code x \<noteq> 10 \<and> char_code x \<noteq> 13"
proof -
  have "\<forall>y \<in> set (str_nat n). is_digit y" for n using str_nat_digits [of n] by (simp add: list_all_iff)
  with assms consider "is_digit x" | "x = CHR ''z''" | "x = CHR ''f''" | "x = CHR ''s''" | "x = CHR ''-''" | "x = CHR ''.''"
    by auto
  then show ?thesis using digit_plain [of x] by cases (simp_all add: char_code_def)
qed

lemma first_line_version:
  assumes "0 \<le> a" and "0 \<le> b" and "0 \<le> c" and "\<forall>x \<in> set rest. char_code x \<noteq> 10 \<and> char_code x \<noteq> 13"
  shows "first_line (''zfs-'' @ show_version (a, b, c) @ rest @ newline # kmod) = ''zfs-'' @ show_version (a, b, c) @ rest"
proof -
  let ?l = "(''zfs-'' @ str_nat (nat a) @ CHR ''.'' # str_nat (nat b) @ CHR ''.'' # str_nat (nat c)) @ rest"
  have "\<forall>x \<in> set ?l. char_code x \<noteq> 10 \<and> char_code x \<noteq> 13"
    using dotted_plain assms(4) unfolding set_append [of _ rest] by blast
  from lines_acc_no_break [OF this, of "[]" kmod]
  have "first_line (?l @ newline # kmod) = ?l" by (simp add: first_line_def splitlines_def)
  moreover have "?l = ''zfs-'' @ show_version (a, b, c) @ rest" using assms by (simp add: show_version_def str_int_def)
  ultimately show ?thesis by (metis append_assoc)
qed

section \<open>The flags\<close>

definition plain_cell :: "string \<Rightarrow> bool" where
  "plain_cell s \<longleftrightarrow> tab \<notin> set s \<and> (\<forall>c \<in> set s. char_code c \<noteq> 10 \<and> char_code c \<noteq> 13)"

text \<open>What \<^verbatim>\<open>zpool get -H -p -o property,value all\<close> prints for these properties.\<close>

definition printed_rows :: "(string \<times> string) list \<Rightarrow> string" where
  "printed_rows rows = concat (map (\<lambda>l. l @ [newline]) (map (\<lambda>(p, v). p @ tab # v) rows))"

definition plain_rows :: "(string \<times> string) list \<Rightarrow> bool" where
  "plain_rows rows \<longleftrightarrow> distinct (map fst rows) \<and> list_all (\<lambda>(p, v). plain_cell p \<and> plain_cell v) rows"

lemma split_row:
  "plain_cell p \<Longrightarrow> plain_cell v \<Longrightarrow> split_on tab (p @ tab # v) = [p, v]"
  by (simp add: plain_cell_def split_on_append split_on_fresh)

lemma splitlines_rows:
  assumes "plain_rows rows"
  shows "splitlines (printed_rows rows) = map (\<lambda>(p, v). p @ tab # v) rows"
  unfolding printed_rows_def
  by (rule splitlines_unlines)
    (use assms in \<open>auto simp: plain_rows_def plain_cell_def list_all_iff tab_def char_code_def\<close>)

lemma flags_fold:
  assumes "list_all (\<lambda>(p, v). plain_cell p \<and> plain_cell v) rows" and "distinct (map fst rows)"
  shows "dget (foldl (\<lambda>flags l. case split_on tab l of
         p # v # _ \<Rightarrow> if startswith p ''feature@'' then dset p v flags else flags
       | _ \<Rightarrow> flags) acc (map (\<lambda>(p, v). p @ tab # v) rows)) k =
     (case if startswith k ''feature@'' then map_of rows k else None of None \<Rightarrow> dget acc k | Some v \<Rightarrow> Some v)"
  using assms
proof (induction rows arbitrary: acc)
  case (Cons r rows)
  obtain p v where r: "r = (p, v)" by force
  have "map_of rows p = None" using Cons.prems(2) r by (simp add: map_of_eq_None_iff)
  with Cons r show ?case by (auto simp: split_row split: option.splits)
qed simp

lemma flags_read_back:
  assumes "plain_rows rows"
  shows "dget (flags_in (printed_rows rows)) k = (if startswith k ''feature@'' then map_of rows k else None)"
proof -
  have "dget [] k = (None :: string option)" by (simp add: dget_def)
  then show ?thesis
    unfolding flags_in_def splitlines_rows [OF assms]
    using assms flags_fold [of rows "[]" k] by (simp add: plain_rows_def split: option.splits)
qed

section \<open>What is advertised\<close>

text \<open>
  The pool backs a capability when its flag is enabled or active; for lz4 the version counts
  when the pool did not list the flag.
\<close>

definition backed :: "(string \<times> string) list \<Rightarrow> version \<Rightarrow> string \<Rightarrow> string \<Rightarrow> bool" where
  "backed rows v cap flag \<longleftrightarrow> map_of rows flag \<in> {Some ''enabled'', Some ''active''} \<or>
     cap = ''lz4'' \<and> map_of rows flag = None \<and> (0, 6, 5) \<le> v"

definition capability_flags :: "(string \<times> string) list" where
  "capability_flags = [(''lz4'', ''feature@lz4_compress''), (''zstd'', ''feature@zstd_compress''),
     (''encryption'', ''feature@encryption''), (''block_cloning'', ''feature@block_cloning''),
     (''large_blocks'', ''feature@large_blocks'')]"

definition found_features :: "(string \<times> string) list \<Rightarrow> version \<Rightarrow> pydict" where
  "found_features rows v =
     features_of (Some v) (List.map_filter (\<lambda>k. map_option (Pair k) (map_of rows k)) KNOWN_FEATURE_FLAGS)
       (map (\<lambda>(cap, flag). (cap, backed rows v cap flag)) capability_flags)"

lemma flag_on_read_back:
  assumes "plain_rows rows" and "startswith f ''feature@''"
  shows "flag_on (flags_in (printed_rows rows)) f \<longleftrightarrow> map_of rows f \<in> {Some ''enabled'', Some ''active''}"
  using assms by (auto simp: flag_on_def flags_read_back FEATURE_ON_STATES_def split: option.splits)

lemma capabilities_read_back:
  assumes "plain_rows rows"
  shows "derive_capabilities (flags_in (printed_rows rows)) (Some v) =
    map (\<lambda>(cap, flag). (cap, backed rows v cap flag)) capability_flags"
  by (auto simp: derive_capabilities_def capability_flags_def backed_def version_from_def startswith_def
      flag_on_read_back [OF assms] flags_read_back [OF assms])

lemma map_filter_same: "(\<And>x. x \<in> set xs \<Longrightarrow> f x = g x) \<Longrightarrow> List.map_filter f xs = List.map_filter g xs"
  by (induction xs) (simp_all add: List.map_filter_def)

lemma known_read_back:
  assumes "plain_rows rows"
  shows "known_flags (flags_in (printed_rows rows)) =
    List.map_filter (\<lambda>k. map_option (Pair k) (map_of rows k)) KNOWN_FEATURE_FLAGS"
  unfolding known_flags_def
proof (rule map_filter_same)
  fix k assume "k \<in> set KNOWN_FEATURE_FLAGS"
  then have "startswith k ''feature@''" by (auto simp: KNOWN_FEATURE_FLAGS_def startswith_def)
  then show "map_option (Pair k) (dget (flags_in (printed_rows rows)) k) = map_option (Pair k) (map_of rows k)"
    by (simp add: flags_read_back [OF assms])
qed

lemma returns_run_probe:
  "(\<And>w. fst (e_popen E cmd w) = Inr (out, err, 0)) \<Longrightarrow> returns (run_probe E cmd) out"
  unfolding run_probe_def by (rule returns_bind [where x = "(out, err, 0)"]) (simp_all add: returns_popen returns_ret)

lemma returns_caught:
  "returns m x \<Longrightarrow> returns (catch (bind m (\<lambda>out. ret (Some out))) (\<lambda>_. ret None)) (Some x)"
  by (intro returns_catch returns_bind [of m x]) (simp_all add: returns_ret)

section \<open>Property\<close>

text \<open>
  C34. From what zfs version and zpool get print, the probe of a pool reads back the version
  and every flag, and advertises a capability exactly when its flag is enabled or active (lz4
  also from version 0.6.5 on when the pool does not list the flag).
\<close>

theorem features_probed:
  assumes "\<And>w. fst (e_popen E [''zfs'', ''version''] w) =
      Inr (''zfs-'' @ show_version (a, b, c) @ rest @ newline # kmod, err, 0)"
    and "0 \<le> a" and "0 \<le> b" and "0 \<le> c"
    and "rest = [] \<or> \<not> is_digit (hd rest)" and "plain_cell rest"
    and "\<And>w. fst (e_popen E [''zpool'', ''get'', ''-H'', ''-p'', ''-o'', ''property,value'', ''all'', pool] w) =
      Inr (printed_rows rows, err, 0)"
    and "plain_rows rows"
  shows "returns (probe_features E pool) (found_features rows (a, b, c))"
proof -
  have "search_version (first_line (''zfs-'' @ show_version (a, b, c) @ rest @ newline # kmod)) = Some (a, b, c)"
    using assms(2-6) by (simp add: first_line_version version_read_back plain_cell_def del: append_Cons append_Nil)
  then have "returns (probe_zfs_version E) (Some (a, b, c))"
    unfolding probe_zfs_version_def
    by (intro returns_bind [OF returns_caught [OF returns_run_probe [OF assms(1)]]]) (simp add: returns_ret)
  moreover have "returns (probe_pool_features E pool) (flags_in (printed_rows rows))"
    unfolding probe_pool_features_def
    by (rule returns_bind [OF returns_caught [OF returns_run_probe [OF assms(7)]]]) (simp add: returns_ret)
  ultimately show ?thesis
    unfolding probe_features_def
    by (elim returns_bind) (simp add: found_features_def known_read_back capabilities_read_back assms(8) returns_ret)
qed

definition probed_env :: "unit env" where
  "probed_env = bare_env\<lparr>e_popen := \<lambda>cmd. returning
     (if cmd = [''zfs'', ''version''] then ''zfs-'' @ show_version (2, 1, 5) @ ''-1'' @ newline # ''zfs-kmod''
      else printed_rows [(''size'', ''1''), (''feature@zstd_compress'', ''active''), (''feature@encryption'', ''disabled'')], [], 0)\<rparr>"

theorem features_probed_witness:
  "returns (probe_features probed_env ''p'')
     (found_features [(''size'', ''1''), (''feature@zstd_compress'', ''active''), (''feature@encryption'', ''disabled'')] (2, 1, 5))"
proof (rule features_probed [where rest = "''-1''" and kmod = "''zfs-kmod''" and err = "[]"])
  show "plain_cell ''-1''"
    and "plain_rows [(''size'', ''1''), (''feature@zstd_compress'', ''active''), (''feature@encryption'', ''disabled'')]"
    by code_simp+
qed (simp_all add: probed_env_def returning_def is_digit_def char_code_def)

lemma found_features_demo:
  "dget (found_features [(''size'', ''1''), (''feature@zstd_compress'', ''active''), (''feature@encryption'', ''disabled'')] (2, 1, 5))
     ''capabilities'' = Some (PDict [(''lz4'', PBool True), (''zstd'', PBool True), (''encryption'', PBool False),
       (''block_cloning'', PBool False), (''large_blocks'', PBool False)])"
  by code_simp

end
