(* ===== verification/Spec2Isabelle.thy ===== *)
theory Spec2Isabelle
  imports VolumeProps CopyProps DestroyProps ZfsProps CbtProps WindowProps WindowOrder DatapathProps SrProps
    WrapperProps ProxyProps Commands Changelog BackupChain FeatureProps
begin

text \<open>
  A model of zfs-live, a storage driver for XAPI (SMAPIv3) that keeps every virtual disk in a
  ZFS zvol.

  \<^bold>\<open>The program.\<close> xapi-storage-script runs the driver as separate short processes: the SR plugin
  (\<^verbatim>\<open>volume/sr.py\<close>) creates, attaches, lists and probes repositories; the volume plugin
  (\<^verbatim>\<open>volume/volume.py\<close>) creates, destroys, resizes, snapshots, clones and copies disks; the
  datapath plugin (\<^verbatim>\<open>datapath/datapath.py\<close>) starts one qemu-storage-daemon per disk and keeps
  the dirty bitmaps of changed-block tracking. All state outlives the processes: the pool
  itself, the metabase of rows (libcow), the metadata file of an SR, the pickled record of a
  daemon, the file of bitmap states, the sidecars of two probes. The command \<^verbatim>\<open>xe\<close> is wrapped
  (\<^verbatim>\<open>shim/xe_wrapper.py\<close>) so that \<^verbatim>\<open>vdi-copy\<close> can use ZFS replication.

  \<^bold>\<open>How a program is modelled.\<close> \<^theory_text>\<open>Effects\<close> is the language: an operation is a function from a
  state (an opaque world, the loaded libraries, a ghost trace of calls with their outcomes) to
  an exception or a result and the next state. What is not under \<^verbatim>\<open>src/\<close> is a field of the
  record \<^typ>\<open>'w env\<close>: the zfs and zpool commands, libzfs_core through ctypes, libcow's database,
  context and locks, the monitor of qemu, files, clocks, the JSON parser, the digest of a
  socket's name. No property assumes anything of these fields unless its statement says so,
  hence most hold for every behaviour of the outside, failures at any call included. The trace
  triple \<^theory_text>\<open>spec m P Q\<close> states what a run that returns (\<open>P\<close>) or raises (\<open>Q\<close>) has called;
  \<open>emits\<close> bounds the calls, \<open>never\<close> excludes one, and \<open>guards\<close> (\<^theory_text>\<open>Order\<close>) says that a call is made
  only after others succeeded, on every prefix of the trace, so also for a process killed in
  between. Each has one introduction rule per construct and per operation, collected in
  \<open>spec_intros\<close>, \<open>emits_intros\<close> and \<open>never_intros\<close>; the properties are assembled from them.

  \<^bold>\<open>The theories.\<close>
  \<^item> \<^theory_text>\<open>Prelude\<close>, \<^theory_text>\<open>PyStr\<close>, \<^theory_text>\<open>Exceptions\<close>: values of Python (JSON, pickles), dictionaries with their order, the
    methods of \<^verbatim>\<open>str\<close>. \<^theory_text>\<open>Effects\<close>, \<^theory_text>\<open>Order\<close>, \<^theory_text>\<open>Samples\<close>: programs, traces, an environment for witnesses.
  \<^item> \<^theory_text>\<open>Lzc\<close>: \<^verbatim>\<open>volume/lzc.py\<close>, the loading of libzfs_core and its retried operations. The locale
    \<open>errno_attempt\<close> is the contract of one attempt, interpreted for destroy, snapshot, clone and
    create.
  \<^item> \<^theory_text>\<open>ZfsRun\<close>, \<^theory_text>\<open>ZfsOps\<close>, \<^theory_text>\<open>ZfsChange\<close>, \<^theory_text>\<open>Orphans\<close>: \<^verbatim>\<open>volume/zfs_operations.py\<close> in its order, the command
    runner with its retries, the queries, the changes, the search for orphans. The locale
    \<open>orphan_scan\<close> is the contract of a scan, interpreted for zvols and snapshots.
  \<^item> \<^theory_text>\<open>VolumeBase\<close>, \<^theory_text>\<open>Volume\<close>: \<^verbatim>\<open>volume/volume.py\<close> with \<^verbatim>\<open>zfs_live.py\<close> and \<^verbatim>\<open>libcow/imageformat.py\<close>.
  \<^item> \<^theory_text>\<open>CbtBitmap\<close>, \<^theory_text>\<open>ChangedBlocks\<close>, \<^theory_text>\<open>NbdWire\<close>, \<^theory_text>\<open>NbdClient\<close>: list_changed_blocks down to the bytes of
    the NBD connection (\<^verbatim>\<open>datapath/nbd_client.py\<close>, \<^verbatim>\<open>cbt_consumer.py\<close>). \<^theory_text>\<open>NbdServer\<close> is what the client is checked
    against: the bytes of a server's session, \<open>conforming\<close> that says what its answers mean for
    the dirty bytes, and the bytes a client should send. Its servers answer each request for the
    whole range under one meta context; the client fails on a shorter answer, which is a finding.
  \<^item> \<^theory_text>\<open>QmpClient\<close>: the connection to the monitor, over the answers of its socket.
  \<^item> \<^theory_text>\<open>QemuDisk\<close>, \<^theory_text>\<open>QemuProcess\<close>, \<^theory_text>\<open>CbtCapture\<close>, \<^theory_text>\<open>SnapshotWindow\<close>: \<^verbatim>\<open>datapath/qemudisk_raw.py\<close>, the
    freezing of the tracking bitmap, and the machine in which a guest writes meanwhile.
    \<^theory_text>\<open>WindowOrder\<close> shows that the commands of the machine are, in their order and after the ZFS
    snapshot, those that the whole \<^verbatim>\<open>Volume.snapshot\<close> sends; the machine lets every one succeed.
    \<^theory_text>\<open>BackupChain\<close> puts the windows of many snapshots in a row: the locale \<open>change_tracker\<close> is what
    incremental backups ask of a tracker, and \<open>documented_qemu\<close> gives it.
  \<^item> \<^theory_text>\<open>Datapath\<close>: \<^verbatim>\<open>datapath/datapath.py\<close>. \<^theory_text>\<open>Relay\<close>, \<^theory_text>\<open>NbdProxy\<close>: \<^verbatim>\<open>nbd_proxy.py\<close>, the relay as a machine of
    reads and writes, and around it the closing of both descriptors and the child process.
  \<^item> \<^theory_text>\<open>SrPlugin\<close>, \<^theory_text>\<open>ZfsFeatures\<close>: \<^verbatim>\<open>volume/sr.py\<close>; \<^verbatim>\<open>zfs_features.py\<close>, \<^verbatim>\<open>plugin_query.py\<close> and
    \<^verbatim>\<open>sr_capability_summary.py\<close>.
  \<^item> \<^theory_text>\<open>XapiCompat\<close>, \<^theory_text>\<open>XeWrapper\<close>: the files of \<^verbatim>\<open>shim/\<close>. \<^theory_text>\<open>Commands\<close>: the entry points of the plugins.
    \<^theory_text>\<open>Changelog\<close>: the block that the release tool cuts out of the change log.
  \<^item> \<^theory_text>\<open>Footprint\<close> and the theories ending in \<^verbatim>\<open>Props\<close> hold the lemmas per operation and the properties.

  \<^bold>\<open>What the lemmas show.\<close> The order that makes a crash harmless: storage before its row on create,
  snapshot, clone and copy, and the row removed after the storage on destroy; a resize that
  first records that the size is unknown; the metadata of an SR written last; dependents
  promoted before a volume is destroyed. Refusals change nothing. What is destroyed was seen to
  be an orphan, old enough, and children go first. The bitmap answered to a backup has a bit
  set exactly when the server reported a dirty byte in its block, whatever segments the answer
  came in. The snapshot's bitmap is exact when the guest pauses, and then a chain of increments
  restores the disk; the executions in which it is not exact are shown too. Files and URIs
  handed between the plugins are read back as written. A daemon is reaped, and an inbound
  migration answered, only on what the processes and the records said. Loops end: every
  recursion is total, retries stop after ten attempts, stopping a daemon takes at most 85 calls
  (one that acknowledged quit is not killed when it lingers), and the relay of an inbound
  migration forwards in order and closes both descriptors.

  \<^bold>\<open>Bounds.\<close> Nothing runs on fuel: each loop recurses on a list, on a bound that the code writes
  down (retries, polls), or on a measure proved to decrease (the range left to ask the NBD
  server, the string left to read). Python's integers are \<^typ>\<open>int\<close>; the integers of the
  wire have their width, and the two sizes handed to libzfs_core wrap at 64 bits.

  \<^bold>\<open>Not modelled.\<close> Log calls, the tree of the pool written to the log, \<^verbatim>\<open>log_summary\<close> and the debug
  argument, which no result depends on. The text of error messages beyond what a caller
  inspects: an exception carries its code and its data. Killing the processes of a pipeline
  whose plumbing fails. The assignment of argument types to the ctypes functions, but for the wrapping it causes. The reading of
  the arguments and of the file in the release tool. What the commands of the volume plugin do
  besides \<^verbatim>\<open>Volume.import_existing\<close> is the API's own command-line class, a parameter like
  every package and tool outside the repository: JSON and pickle, the digest, libcow, zfs and
  zpool, qemu.

  \<^bold>\<open>Python.\<close> The installer rewrites the plugins to Python 2, which the model follows: \<^verbatim>\<open>str\<close> is bytes, a
  bare \<^verbatim>\<open>raise\<close> re-raises the exception handled last, integers divide with floor. The
  wrapper runs under Python 3.
\<close>

end
